(* ===== verification/Go_Prelude.thy ===== *)
theory Go_Prelude
  imports Main "HOL-Library.AList" "HOL-Library.Char_ord" "HOL-Library.List_Lexorder"
    "HOL-Library.Multiset"
begin

text \<open>
  What the components share: the part of Go's language and standard library that the modelled
  code uses.  Go strings are byte sequences, so \<^typ>\<open>string\<close> (8-bit characters) is their exact
  carrier and the library's lexicographic order on lists is Go's byte order.  The theory holds
  \<open>go_trim\<close>, \<open>go_lower\<close>, \<open>go_equal_fold\<close>, \<open>go_has_prefix\<close>, \<open>go_contains\<close> and \<open>go_index\<close>, the
  functions of package \<open>strings\<close>, with the laws the components rest on: trimming and lower-casing
  are idempotent, and lower-casing keeps a trimmed string trimmed.
\<close>

named_theorems go_string_simps \<open>evaluation of the string functions\<close>
named_theorems go_map_simps \<open>lookup after a map operation\<close>

section \<open>Strings\<close>

subsection \<open>strings.TrimSpace\<close>

text \<open>
  \<open>unicode.IsSpace\<close> holds of the ASCII blanks and of U+0085, U+00A0, U+1680, U+2000 to U+200A,
  U+2028, U+2029, U+202F, U+205F and U+3000.  \<open>space_rune\<close> recognises their UTF-8 encodings.  No
  encoding is a suffix of another rune's encoding, so stripping encodings from the two ends of the
  byte string is what decoding runes at the two ends does.
\<close>

fun space_rune :: "string \<Rightarrow> bool" where
  "space_rune [c] =
     (c = CHR 0x20 \<or> c = CHR 0x09 \<or> c = CHR 0x0A \<or> c = CHR 0x0B \<or> c = CHR 0x0C \<or> c = CHR 0x0D)"
| "space_rune [c, d] = (c = CHR 0xC2 \<and> (d = CHR 0x85 \<or> d = CHR 0xA0))"
| "space_rune [c, d, e] =
     (c = CHR 0xE1 \<and> d = CHR 0x9A \<and> e = CHR 0x80
      \<or> c = CHR 0xE2 \<and> d = CHR 0x80 \<and>
          (CHR 0x80 \<le> e \<and> e \<le> CHR 0x8A \<or> e = CHR 0xA8 \<or> e = CHR 0xA9 \<or> e = CHR 0xAF)
      \<or> c = CHR 0xE2 \<and> d = CHR 0x81 \<and> e = CHR 0x9F
      \<or> c = CHR 0xE3 \<and> d = CHR 0x80 \<and> e = CHR 0x80)"
| "space_rune _ = False"

text \<open>\<open>strip f s\<close> drops, as long as there is one, a prefix of one to three bytes that satisfies \<open>f\<close>.\<close>

function strip :: "(string \<Rightarrow> bool) \<Rightarrow> string \<Rightarrow> string" where
  "strip f s =
     (if 1 \<le> length s \<and> f (take 1 s) then strip f (drop 1 s)
      else if 2 \<le> length s \<and> f (take 2 s) then strip f (drop 2 s)
      else if 3 \<le> length s \<and> f (take 3 s) then strip f (drop 3 s)
      else s)"
  by pat_completeness auto
termination
  by (relation "measure (\<lambda>(f, s). length s)") auto

declare strip.simps [simp del]

definition trim_left :: "string \<Rightarrow> string" where
  "trim_left s = strip space_rune s"

definition trim_right :: "string \<Rightarrow> string" where
  "trim_right s = rev (strip (\<lambda>b. space_rune (rev b)) (rev s))"

definition go_trim :: "string \<Rightarrow> string" where
  "go_trim s = trim_right (trim_left s)"

text \<open>A string no further step of \<open>strip\<close> applies to.\<close>

definition stuck :: "(string \<Rightarrow> bool) \<Rightarrow> string \<Rightarrow> bool" where
  "stuck f s \<longleftrightarrow> (\<forall>k\<in>{1, 2, 3}. k \<le> length s \<longrightarrow> \<not> f (take k s))"

lemma strip_stuck: "stuck f s \<Longrightarrow> strip f s = s"
  by (subst strip.simps) (auto simp: stuck_def)

lemma stuck_strip: "stuck f (strip f s)"
proof (induction f s rule: strip.induct)
  case (1 f s)
  show ?case
  proof (cases "stuck f s")
    case True
    then show ?thesis by (simp add: strip_stuck)
  next
    case False
    with 1 show ?thesis
      by (subst strip.simps) (auto simp: stuck_def)
  qed
qed

lemma strip_idem [simp]: "strip f (strip f s) = strip f s"
  by (rule strip_stuck) (rule stuck_strip)

lemma suffix_of_drop: "\<exists>p. drop k s = p @ t \<Longrightarrow> \<exists>p. s = p @ t"
  by (metis append.assoc append_take_drop_id)

lemma strip_suffix: "\<exists>p. s = p @ strip f s"
proof (induction f s rule: strip.induct)
  case (1 f s)
  show ?case
  proof (cases "stuck f s")
    case True
    then show ?thesis by (simp add: strip_stuck)
  next
    case False
    with 1 show ?thesis
      by (subst strip.simps) (auto simp: stuck_def intro: suffix_of_drop)
  qed
qed

lemma stuck_append_prefix: "stuck f (s @ t) \<Longrightarrow> stuck f s"
  by (fastforce simp: stuck_def)

lemma trim_left_idem [simp]: "trim_left (trim_left s) = trim_left s"
  by (simp add: trim_left_def)

lemma trim_right_idem [simp]: "trim_right (trim_right s) = trim_right s"
  by (simp add: trim_right_def)

lemma trim_right_prefix: "\<exists>q. s = trim_right s @ q"
proof -
  obtain p where "rev s = p @ strip (\<lambda>b. space_rune (rev b)) (rev s)"
    using strip_suffix by blast
  then have "s = trim_right s @ rev p"
    by (metis rev_append rev_rev_ident trim_right_def)
  then show ?thesis by blast
qed

lemma trim_left_trim_right: "trim_left (trim_right (trim_left s)) = trim_right (trim_left s)"
proof -
  obtain q where q: "trim_left s = trim_right (trim_left s) @ q"
    using trim_right_prefix by blast
  have "stuck space_rune (trim_left s)"
    by (simp add: trim_left_def stuck_strip)
  then have "stuck space_rune (trim_right (trim_left s) @ q)"
    using q by simp
  then have "stuck space_rune (trim_right (trim_left s))"
    by (rule stuck_append_prefix)
  then show ?thesis by (simp add: trim_left_def strip_stuck)
qed

lemma go_trim_idem [simp]: "go_trim (go_trim s) = go_trim s"
  by (simp add: go_trim_def trim_left_trim_right)

lemma go_trim_Nil [simp]: "go_trim [] = []"
  by (simp add: go_trim_def trim_left_def trim_right_def strip.simps)

text \<open>A string that begins and ends in printable ASCII is left alone.\<close>

definition ascii_graph :: "char \<Rightarrow> bool" where
  "ascii_graph c \<longleftrightarrow> CHR 0x21 \<le> c \<and> c \<le> CHR 0x7E"

lemma space_rune_hd_ascii: "ascii_graph c \<Longrightarrow> \<not> space_rune (c # s)"
  by (cases "c # s" rule: space_rune.cases) (auto simp: ascii_graph_def)

lemma space_rune_last_ascii: "ascii_graph c \<Longrightarrow> \<not> space_rune (s @ [c])"
  by (cases "s @ [c]" rule: space_rune.cases)
    (auto simp: ascii_graph_def append_eq_Cons_conv dest: order_trans)

lemma stuck_hd_ascii: "ascii_graph c \<Longrightarrow> stuck space_rune (c # s)"
  by (simp add: stuck_def space_rune_hd_ascii take_Cons' del: space_rune.simps)

lemma stuck_last_ascii: "ascii_graph c \<Longrightarrow> stuck (\<lambda>b. space_rune (rev b)) (c # s)"
  using space_rune_last_ascii [of c "[]"]
  by (simp add: stuck_def space_rune_last_ascii take_Cons' del: space_rune.simps)

lemma trim_left_ascii: "ascii_graph c \<Longrightarrow> trim_left (c # s) = c # s"
  by (simp add: trim_left_def strip_stuck stuck_hd_ascii)

lemma trim_right_ascii: "ascii_graph c \<Longrightarrow> trim_right (s @ [c]) = s @ [c]"
  by (simp add: trim_right_def strip_stuck stuck_last_ascii)

lemma go_trim_ascii:
  assumes "s \<noteq> []" and "ascii_graph (hd s)" and "ascii_graph (last s)"
  shows "go_trim s = s"
proof -
  have "trim_left s = s"
    using assms(1,2) trim_left_ascii [of "hd s" "tl s"] by simp
  moreover have "trim_right s = s"
    using assms(1,3) trim_right_ascii [of "last s" "butlast s"] by simp
  ultimately show ?thesis by (simp add: go_trim_def)
qed

lemma go_trim_prefixed:
  assumes "p \<noteq> []" and "ascii_graph (hd p)" and "\<forall>c\<in>set p. ascii_graph c"
  shows "go_trim (p @ go_trim s) = p @ go_trim s"
proof -
  have left: "trim_left (p @ t) = p @ t" for t
    using assms(1,2) trim_left_ascii [of "hd p" "tl p @ t"]
    by (cases p) simp_all
  let ?t = "go_trim s"
  have fixed: "stuck (\<lambda>b. space_rune (rev b)) (rev ?t)"
    by (simp add: go_trim_def trim_right_def stuck_strip)
  have "stuck (\<lambda>b. space_rune (rev b)) (rev ?t @ rev p)"
  proof (cases "?t = []")
    case True
    with assms show ?thesis
      using stuck_last_ascii [of "last p" "rev (butlast p)"]
      by (metis append_butlast_last_id append_self_conv2 in_set_conv_decomp rev.simps(1)
          rev_append singleton_rev_conv append.simps(2) append_Nil)
  next
    case False
    show ?thesis unfolding stuck_def
    proof (intro ballI impI notI)
      fix k assume k: "k \<in> {1, 2, 3 :: nat}" and "k \<le> length (rev ?t @ rev p)"
        and sp: "space_rune (rev (take k (rev ?t @ rev p)))"
      show False
      proof (cases "k \<le> length ?t")
        case True
        with fixed k sp show False by (auto simp: stuck_def)
      next
        case beyond: False
        let ?r = "take (k - length ?t) (rev p)"
        have "?r \<noteq> []" using beyond \<open>k \<le> length (rev ?t @ rev p)\<close> by auto
        then obtain c cs where r: "rev ?r = c # cs" by (metis neq_Nil_conv rev_is_Nil_conv)
        then have "c \<in> set ?r" by (metis list.set_intros(1) set_rev)
        then have "c \<in> set p" by (metis in_set_takeD set_rev)
        with assms(3) have "ascii_graph c" by blast
        moreover have "rev (take k (rev ?t @ rev p)) = c # cs @ ?t"
          using beyond r by simp
        ultimately show False using sp space_rune_hd_ascii by simp
      qed
    qed
  qed
  then have "trim_right (p @ ?t) = p @ ?t"
    by (simp add: trim_right_def strip_stuck)
  with left show ?thesis by (simp add: go_trim_def)
qed

subsection \<open>strings.ToLower and strings.EqualFold\<close>

text \<open>
  ASCII letters are mapped as Go does.  Beyond ASCII, the runes whose image under
  \<open>unicode.ToLower\<close> is an ASCII letter are U+0130 (to \<open>i\<close>) and U+212A (to \<open>k\<close>), and the runes that
  simple folding identifies with an ASCII letter are U+017F (with \<open>s\<close>) and U+212A (with \<open>k\<close>); they
  are mapped here too, so a comparison with an ASCII literal is decided as Go decides it.  The other
  non-ASCII bytes are kept as they are.
\<close>

definition ascii_lower :: "char \<Rightarrow> char" where
  "ascii_lower c = (if CHR ''A'' \<le> c \<and> c \<le> CHR ''Z'' then char_of (of_char c + 32 :: nat) else c)"

fun go_lower :: "string \<Rightarrow> string" where
  "go_lower [] = []"
| "go_lower (c # cs) =
     (if c = CHR 0xC4 \<and> take 1 cs = [CHR 0xB0] then CHR ''i'' # go_lower (drop 1 cs)
      else if c = CHR 0xE2 \<and> take 2 cs = [CHR 0x84, CHR 0xAA] then CHR ''k'' # go_lower (drop 2 cs)
      else ascii_lower c # go_lower cs)"

fun go_fold :: "string \<Rightarrow> string" where
  "go_fold [] = []"
| "go_fold (c # cs) =
     (if c = CHR 0xC5 \<and> take 1 cs = [CHR 0xBF] then CHR ''s'' # go_fold (drop 1 cs)
      else if c = CHR 0xE2 \<and> take 2 cs = [CHR 0x84, CHR 0xAA] then CHR ''k'' # go_fold (drop 2 cs)
      else ascii_lower c # go_fold cs)"

definition go_equal_fold :: "string \<Rightarrow> string \<Rightarrow> bool" where
  "go_equal_fold s t \<longleftrightarrow> go_fold s = go_fold t"

lemma go_equal_fold_refl [simp]: "go_equal_fold s s"
  by (simp add: go_equal_fold_def)

lemma go_equal_fold_sym: "go_equal_fold s t \<longleftrightarrow> go_equal_fold t s"
  by (auto simp: go_equal_fold_def)

lemma go_equal_fold_trans: "go_equal_fold s t \<Longrightarrow> go_equal_fold t u \<Longrightarrow> go_equal_fold s u"
  by (simp add: go_equal_fold_def)

lemma ascii_lower_code:
  "of_char (ascii_lower c) =
     (if 65 \<le> (of_char c :: nat) \<and> (of_char c :: nat) \<le> 90 then of_char c + 32 else (of_char c :: nat))"
  by (auto simp: ascii_lower_def less_eq_char_def)

definition ascii_small :: "char \<Rightarrow> bool" where
  "ascii_small c \<longleftrightarrow> CHR ''a'' \<le> c \<and> c \<le> CHR ''z''"

lemma ascii_lower_otherD: "ascii_lower c = b \<Longrightarrow> \<not> ascii_small b \<Longrightarrow> c = b"
proof (rule ccontr)
  assume low: "ascii_lower c = b" and b: "\<not> ascii_small b" and "c \<noteq> b"
  then have "ascii_lower c \<noteq> c" by auto
  then have range: "65 \<le> (of_char c :: nat)" "(of_char c :: nat) \<le> 90"
    by (auto simp: ascii_lower_def less_eq_char_def split: if_splits)
  then have "of_char b = (of_char c :: nat) + 32"
    using low ascii_lower_code [of c] by simp
  with b range show False
    by (simp add: ascii_small_def less_eq_char_def)
qed

lemma ascii_lower_fix: "\<not> ascii_small (ascii_lower c) \<Longrightarrow> ascii_lower c = c"
  using ascii_lower_otherD by metis

lemma ascii_small_ik [simp]: "ascii_small (CHR ''i'')" "ascii_small (CHR ''k'')"
  by (simp_all add: ascii_small_def)

lemma ascii_lower_idem [simp]: "ascii_lower (ascii_lower c) = ascii_lower c"
proof -
  have "of_char (ascii_lower (ascii_lower c)) = (of_char (ascii_lower c) :: nat)"
    by (simp add: ascii_lower_code)
  then show ?thesis by (simp only: of_char_eq_iff)
qed

text \<open>A leading byte of the result that is no small letter is the leading byte of the argument.\<close>

lemma go_lower_Cons_other:
  assumes "\<not> ascii_small b" and "go_lower s = b # t"
  shows "\<exists>s'. s = b # s' \<and> go_lower s' = t"
proof (cases s)
  case (Cons c cs)
  consider "b = CHR ''i''" | "b = CHR ''k''" | "b = ascii_lower c" "t = go_lower cs"
    using assms(2) Cons by (auto split: if_splits)
  then show ?thesis
    using assms(1) Cons ascii_lower_fix [of c] by cases simp_all
qed (use assms in simp)

lemma go_lower_hd:
  "\<not> ascii_small b \<Longrightarrow> take 1 (go_lower s) = [b] \<Longrightarrow> take 1 s = [b]"
  using go_lower_Cons_other [of b s "tl (go_lower s)"] by (cases "go_lower s") auto

lemma go_lower_idem [simp]: "go_lower (go_lower s) = go_lower s"
proof (induction s rule: go_lower.induct)
  case (2 c cs)
  consider (i) "c = CHR 0xC4 \<and> take 1 cs = [CHR 0xB0]"
    | (k) "c = CHR 0xE2 \<and> take 2 cs = [CHR 0x84, CHR 0xAA]"
    | (other) "\<not> (c = CHR 0xC4 \<and> take 1 cs = [CHR 0xB0])"
        "\<not> (c = CHR 0xE2 \<and> take 2 cs = [CHR 0x84, CHR 0xAA])"
    by blast
  then show ?case
  proof cases
    case i
    with 2 show ?thesis by (simp add: ascii_lower_def)
  next
    case k
    with 2 show ?thesis by (simp add: ascii_lower_def)
  next
    case other
    have i: "\<not> (ascii_lower c = CHR 0xC4 \<and> take 1 (go_lower cs) = [CHR 0xB0])"
    proof
      assume a: "ascii_lower c = CHR 0xC4 \<and> take 1 (go_lower cs) = [CHR 0xB0]"
      then have "c = CHR 0xC4" using ascii_lower_otherD [of c] by (simp add: ascii_small_def)
      moreover have "take 1 cs = [CHR 0xB0]"
        using a go_lower_hd [of "CHR 0xB0" cs] by (simp add: ascii_small_def)
      ultimately show False using other by simp
    qed
    have k: "\<not> (ascii_lower c = CHR 0xE2 \<and> take 2 (go_lower cs) = [CHR 0x84, CHR 0xAA])"
    proof
      assume a: "ascii_lower c = CHR 0xE2 \<and> take 2 (go_lower cs) = [CHR 0x84, CHR 0xAA]"
      then have c: "c = CHR 0xE2" using ascii_lower_otherD [of c] by (simp add: ascii_small_def)
      from a obtain t where t: "go_lower cs = CHR 0x84 # CHR 0xAA # t"
        by (metis append_Cons append_Nil append_take_drop_id)
      then obtain cs' where "cs = CHR 0x84 # cs'" "go_lower cs' = CHR 0xAA # t"
        using go_lower_Cons_other [of "CHR 0x84" cs] by (auto simp: ascii_small_def)
      moreover from this obtain cs'' where "cs' = CHR 0xAA # cs''"
        using go_lower_Cons_other [of "CHR 0xAA" cs'] by (auto simp: ascii_small_def)
      ultimately show False using other c by simp
    qed
    have step: "go_lower (c # cs) = ascii_lower c # go_lower cs"
      by (simp only: go_lower.simps other if_False)
    have "go_lower (ascii_lower c # go_lower cs) = ascii_lower c # go_lower (go_lower cs)"
      by (simp only: go_lower.simps i k if_False ascii_lower_idem)
    moreover have "go_lower (go_lower cs) = go_lower cs" by (rule 2(3) [OF other])
    ultimately show ?thesis by (simp only: step)
  qed
qed simp

text \<open>Lower-casing keeps a trimmed string trimmed: blanks are no letters, so it creates none.\<close>

lemma space_rune_not_small: "space_rune bs \<Longrightarrow> b \<in> set bs \<Longrightarrow> \<not> ascii_small b"
  by (cases bs rule: space_rune.cases) (auto simp: ascii_small_def dest: order_trans)

lemma go_lower_prefix_other:
  "go_lower s = bs @ t \<Longrightarrow> \<forall>b\<in>set bs. \<not> ascii_small b \<Longrightarrow> \<exists>s'. s = bs @ s' \<and> go_lower s' = t"
proof (induction bs arbitrary: s)
  case (Cons b bs)
  then obtain s1 where "s = b # s1" "go_lower s1 = bs @ t"
    using go_lower_Cons_other [of b s "bs @ t"] by auto
  with Cons show ?case by auto
qed simp

lemma go_lower_Nil_iff: "go_lower s = [] \<longleftrightarrow> s = []"
  by (cases s) simp_all

lemma go_lower_suffix_other:
  assumes "\<forall>b\<in>set bs. \<not> ascii_small b"
  shows "go_lower s = t @ bs \<Longrightarrow> \<exists>s'. s = s' @ bs \<and> go_lower s' = t"
proof (induction s arbitrary: t rule: go_lower.induct)
  case (2 c cs)
  show ?case
  proof (cases t)
    case Nil
    with 2(4) have "go_lower (c # cs) = bs @ []" by simp
    from go_lower_prefix_other [OF this assms] obtain s'
      where s': "c # cs = bs @ s'" "go_lower s' = []" by blast
    then have "c # cs = [] @ bs" by (simp add: go_lower_Nil_iff)
    with Nil show ?thesis by (metis go_lower.simps(1))
  next
    case (Cons b t')
    show ?thesis
    proof (cases "c = CHR 0xC4 \<and> take 1 cs = [CHR 0xB0]")
      case True
      with 2(4) Cons have "b = CHR ''i''" "go_lower (drop 1 cs) = t' @ bs" by simp_all
      moreover from 2(1) [OF True this(2)] obtain s' where "drop 1 cs = s' @ bs" "go_lower s' = t'"
        by blast
      moreover have "cs = CHR 0xB0 # drop 1 cs"
        using True by (metis append_Cons append_Nil append_take_drop_id)
      ultimately have "c # cs = (c # CHR 0xB0 # s') @ bs" "go_lower (c # CHR 0xB0 # s') = t"
        using True Cons by auto
      then show ?thesis by blast
    next
      case noti: False
      show ?thesis
      proof (cases "c = CHR 0xE2 \<and> take 2 cs = [CHR 0x84, CHR 0xAA]")
        case True
        with 2(4) Cons noti have "b = CHR ''k''" "go_lower (drop 2 cs) = t' @ bs" by simp_all
        moreover from 2(2) [OF noti True this(2)]
        obtain s' where "drop 2 cs = s' @ bs" "go_lower s' = t'" by blast
        moreover have "cs = CHR 0x84 # CHR 0xAA # drop 2 cs"
          using True by (metis append_Cons append_Nil append_take_drop_id)
        ultimately have "c # cs = (c # CHR 0x84 # CHR 0xAA # s') @ bs"
          "go_lower (c # CHR 0x84 # CHR 0xAA # s') = t"
          using True Cons by auto
        then show ?thesis by blast
      next
        case notk: False
        have "go_lower (c # cs) = ascii_lower c # go_lower cs"
          by (simp only: go_lower.simps noti notk if_False)
        with 2(4) Cons have b: "b = ascii_lower c" "go_lower cs = t' @ bs" by simp_all
        from 2(3) [OF noti notk this(2)] obtain s' where s': "cs = s' @ bs" "go_lower s' = t'"
          by blast
        have "\<not> (c = CHR 0xC4 \<and> take 1 s' = [CHR 0xB0])"
          using noti s'(1) by (cases s') auto
        moreover have "\<not> (c = CHR 0xE2 \<and> take 2 s' = [CHR 0x84, CHR 0xAA])"
          using notk s'(1) by (cases s'; cases "tl s'") auto
        ultimately have "go_lower (c # s') = ascii_lower c # go_lower s'"
          by (simp only: go_lower.simps if_False)
        with s' b Cons show ?thesis by (intro exI [of _ "c # s'"]) simp
      qed
    qed
  qed
qed simp

lemma take_eq_appendI: "k \<le> length s \<Longrightarrow> \<exists>t. s = take k s @ t \<and> length (take k s) = k"
  by (rule exI [of _ "drop k s"]) simp

lemma stuck_left_go_lower: "stuck space_rune s \<Longrightarrow> stuck space_rune (go_lower s)"
  unfolding stuck_def
proof (intro ballI impI notI)
  fix k assume stk: "\<forall>k\<in>{1, 2, 3}. k \<le> length s \<longrightarrow> \<not> space_rune (take k s)"
    and k: "k \<in> {1, 2, 3 :: nat}" "k \<le> length (go_lower s)" "space_rune (take k (go_lower s))"
  have "\<exists>s'. s = take k (go_lower s) @ s' \<and> go_lower s' = drop k (go_lower s)"
    by (rule go_lower_prefix_other) (use k space_rune_not_small in auto)
  then obtain s' where "s = take k (go_lower s) @ s'" by blast
  with k(2) have "take k s = take k (go_lower s)" "k \<le> length s"
    by (metis append_eq_conv_conj length_take min.absorb2, metis length_append length_take
        min.absorb2 le_add1)
  with stk k show False by auto
qed

lemma stuck_right_go_lower:
  assumes "stuck (\<lambda>b. space_rune (rev b)) (rev s)"
  shows "stuck (\<lambda>b. space_rune (rev b)) (rev (go_lower s))"
  unfolding stuck_def
proof (intro ballI impI notI)
  fix k assume k: "k \<in> {1, 2, 3 :: nat}" "k \<le> length (rev (go_lower s))"
    "space_rune (rev (take k (rev (go_lower s))))"
  let ?n = "length (go_lower s) - k"
  let ?bs = "drop ?n (go_lower s)"
  have bs: "rev (take k (rev (go_lower s))) = ?bs"
    by (simp add: take_rev)
  have "\<exists>s'. s = s' @ ?bs \<and> go_lower s' = take ?n (go_lower s)"
    by (rule go_lower_suffix_other) (use k bs space_rune_not_small in auto)
  then obtain s' where s': "s = s' @ ?bs" by blast
  have len: "length ?bs = k" using k(2) by simp
  have "rev s = rev ?bs @ rev s'" by (subst s') simp
  then have "take k (rev s) = rev ?bs" "k \<le> length (rev s)"
    using len by (metis append_eq_conv_conj length_rev, metis le_add1 len length_append length_rev)
  with assms k bs show False by (auto simp: stuck_def)
qed

lemma stuck_left_go_trim: "stuck space_rune (go_trim s)"
proof -
  have "trim_left (go_trim s) = go_trim s" by (simp add: go_trim_def trim_left_trim_right)
  then show ?thesis by (metis stuck_strip trim_left_def)
qed

lemma stuck_right_go_trim: "stuck (\<lambda>b. space_rune (rev b)) (rev (go_trim s))"
  by (simp add: go_trim_def trim_right_def stuck_strip)

lemma go_trim_stuck:
  "stuck space_rune s \<Longrightarrow> stuck (\<lambda>b. space_rune (rev b)) (rev s) \<Longrightarrow> go_trim s = s"
  by (simp add: go_trim_def trim_left_def trim_right_def strip_stuck)

lemma go_trim_go_lower_trim [simp]: "go_trim (go_lower (go_trim s)) = go_lower (go_trim s)"
  by (intro go_trim_stuck stuck_left_go_lower stuck_right_go_lower stuck_left_go_trim
      stuck_right_go_trim)

subsection \<open>strings.HasPrefix, strings.TrimPrefix, strings.Contains, strings.Index\<close>

definition go_has_prefix :: "string \<Rightarrow> string \<Rightarrow> bool" where
  "go_has_prefix s p \<longleftrightarrow> take (length p) s = p"

definition go_trim_prefix :: "string \<Rightarrow> string \<Rightarrow> string" where
  "go_trim_prefix s p = (if go_has_prefix s p then drop (length p) s else s)"

fun go_contains :: "string \<Rightarrow> string \<Rightarrow> bool" where
  "go_contains [] p = (p = [])"
| "go_contains (c # cs) p = (go_has_prefix (c # cs) p \<or> go_contains cs p)"

text \<open>\<open>strings.Index(s, sep)\<close> for a one-byte separator; \<open>None\<close> is Go's \<open>-1\<close>.\<close>

fun go_index :: "string \<Rightarrow> char \<Rightarrow> nat option" where
  "go_index [] x = None"
| "go_index (c # cs) x = (if c = x then Some 0 else map_option Suc (go_index cs x))"

lemma go_index_Some:
  "go_index s x = Some i \<longleftrightarrow> i < length s \<and> s ! i = x \<and> x \<notin> set (take i s)"
proof (induction s arbitrary: i)
  case (Cons c cs)
  then show ?case by (cases i) auto
qed simp

lemma go_index_None: "go_index s x = None \<longleftrightarrow> x \<notin> set s"
  by (induction s) auto

lemma go_index_append: "x \<notin> set a \<Longrightarrow> go_index (a @ x # b) x = Some (length a)"
  by (induction a) auto

lemma go_has_prefix_append [simp]: "go_has_prefix (p @ s) p"
  by (simp add: go_has_prefix_def)

lemma go_trim_prefix_append [simp]: "go_trim_prefix (p @ s) p = s"
  by (simp add: go_trim_prefix_def)

end
