(* ===== verification/Go_Collections.thy ===== *)
theory Go_Collections
  imports Go_Prelude "HOL-Library.Product_Lexorder"
begin

text \<open>
  Go's built-in maps, \<open>int64\<close> arithmetic and \<open>sort.SliceStable\<close>.  A map is an association list with
  distinct keys; the order of the list is the order one \<open>range\<close> over the map visits it in, which Go
  leaves open, so a statement about every such list is a statement about every iteration order.  The
  locale \<open>finite_map\<close> is the contract of the map operations; the locales \<open>comparator\<close> and
  \<open>keyed_comparator\<close> are what a \<open>less\<close> function has to satisfy for the sorted result to be sorted and
  to be the same whatever order the elements came in.
\<close>

section \<open>int64\<close>

definition wrap64 :: "int \<Rightarrow> int" where
  "wrap64 x = (x + 2 ^ 63) mod 2 ^ 64 - 2 ^ 63"

definition int64_range :: "int \<Rightarrow> bool" where
  "int64_range x \<longleftrightarrow> - (2 ^ 63) \<le> x \<and> x < 2 ^ 63"

lemma wrap64_range: "int64_range (wrap64 x)"
  by (simp add: wrap64_def int64_range_def)

lemma wrap64_id: "int64_range x \<Longrightarrow> wrap64 x = x"
  by (simp add: wrap64_def int64_range_def)

lemma wrap64_overflow: "wrap64 (2 ^ 63) = - (2 ^ 63)"
  by (simp add: wrap64_def)

section \<open>Maps\<close>

type_synonym ('k, 'v) gomap = "('k \<times> 'v) list"

definition gempty :: "('k, 'v) gomap" where
  "gempty = []"

definition gget :: "('k, 'v) gomap \<Rightarrow> 'k \<Rightarrow> 'v option" where
  "gget m k = map_of m k"

definition gput :: "'k \<Rightarrow> 'v \<Rightarrow> ('k, 'v) gomap \<Rightarrow> ('k, 'v) gomap" where
  "gput k v m = AList.update k v m"

definition gdel :: "'k \<Rightarrow> ('k, 'v) gomap \<Rightarrow> ('k, 'v) gomap" where
  "gdel k m = AList.delete k m"

text \<open>The entries a loop that deletes while it ranges over the map keeps.\<close>

definition gkeep :: "('k \<Rightarrow> 'v \<Rightarrow> bool) \<Rightarrow> ('k, 'v) gomap \<Rightarrow> ('k, 'v) gomap" where
  "gkeep p m = filter (\<lambda>(k, v). p k v) m"

text \<open>The values a \<open>range\<close> over the map yields, in iteration order.\<close>

definition gvals :: "('k, 'v) gomap \<Rightarrow> 'v list" where
  "gvals m = map snd m"

definition gmap_ok :: "('k, 'v) gomap \<Rightarrow> bool" where
  "gmap_ok m \<longleftrightarrow> distinct (map fst m)"

locale finite_map =
  fixes empty :: 'm
    and get :: "'m \<Rightarrow> 'k \<Rightarrow> 'v option"
    and put :: "'k \<Rightarrow> 'v \<Rightarrow> 'm \<Rightarrow> 'm"
    and del :: "'k \<Rightarrow> 'm \<Rightarrow> 'm"
    and ok :: "'m \<Rightarrow> bool"
  assumes get_empty: "get empty k = None"
    and get_put: "ok m \<Longrightarrow> get (put k v m) k' = (if k' = k then Some v else get m k')"
    and get_del: "ok m \<Longrightarrow> get (del k m) k' = (if k' = k then None else get m k')"
    and ok_empty: "ok empty"
    and ok_put: "ok m \<Longrightarrow> ok (put k v m)"
    and ok_del: "ok m \<Longrightarrow> ok (del k m)"
begin

lemma get_put_put: "ok m \<Longrightarrow> get (put k v (put k w m)) k' = get (put k v m) k'"
  by (simp add: get_put ok_put)

lemma get_put_commute:
  "ok m \<Longrightarrow> j \<noteq> k \<Longrightarrow> get (put j v (put k w m)) k' = get (put k w (put j v m)) k'"
  by (simp add: get_put ok_put)

lemma get_del_put: "ok m \<Longrightarrow> get (del k (put k v m)) k' = get (del k m) k'"
  by (simp add: get_put get_del ok_put)

lemma get_del_absent: "ok m \<Longrightarrow> get m k = None \<Longrightarrow> get (del k m) k' = get m k'"
  by (simp add: get_del)

end

interpretation gm: finite_map gempty gget gput gdel gmap_ok
  by unfold_locales
    (auto simp: gempty_def gget_def gput_def gdel_def gmap_ok_def update_conv' delete_conv'
      intro: distinct_update distinct_delete)

text \<open>The same laws without the distinctness premise, as rewrite rules for the components.\<close>

lemma gget_gempty [simp, go_map_simps]: "gget gempty k = None"
  by (simp add: gget_def gempty_def)

lemma gget_gput [simp, go_map_simps]: "gget (gput k v m) k' = (if k' = k then Some v else gget m k')"
  by (simp add: gget_def gput_def update_conv')

lemma gget_gdel [simp, go_map_simps]: "gget (gdel k m) k' = (if k' = k then None else gget m k')"
  by (simp add: gget_def gdel_def delete_conv')

lemma gmap_ok_gempty [simp]: "gmap_ok gempty"
  by (rule gm.ok_empty)

lemma gmap_ok_gput [simp]: "gmap_ok m \<Longrightarrow> gmap_ok (gput k v m)"
  by (rule gm.ok_put)

lemma gmap_ok_gdel [simp]: "gmap_ok m \<Longrightarrow> gmap_ok (gdel k m)"
  by (rule gm.ok_del)

lemma gmap_ok_gkeep [simp]: "gmap_ok m \<Longrightarrow> gmap_ok (gkeep p m)"
  by (auto simp: gmap_ok_def gkeep_def distinct_map inj_on_def)

lemma gmap_ok_map_values [simp]: "gmap_ok (map (\<lambda>(k, v). (k, f k v)) m) = gmap_ok m"
  by (simp add: gmap_ok_def comp_def split_def)

lemma gget_iff_mem: "gmap_ok m \<Longrightarrow> gget m k = Some v \<longleftrightarrow> (k, v) \<in> set m"
  by (simp add: gget_def gmap_ok_def)

lemma gget_mem: "gget m k = Some v \<Longrightarrow> (k, v) \<in> set m"
  by (simp add: gget_def map_of_SomeD)

lemma gget_gkeep:
  "gmap_ok m \<Longrightarrow> gget (gkeep p m) k =
     (case gget m k of None \<Rightarrow> None | Some v \<Rightarrow> if p k v then Some v else None)"
proof (induction m)
  case (Cons kv m)
  then have tail: "gget (gkeep p m) k =
      (case gget m k of None \<Rightarrow> None | Some v \<Rightarrow> if p k v then Some v else None)"
    and fresh: "gget m (fst kv) = None"
    by (auto simp: gmap_ok_def gget_def map_of_eq_None_iff)
  then show ?case
    by (cases kv) (auto simp: gget_def gkeep_def split: option.splits)
qed (simp add: gget_def gkeep_def)

lemma gget_map_values: "gget (map (\<lambda>(k, v). (k, f k v)) m) k = map_option (f k) (gget m k)"
  by (induction m) (auto simp: gget_def)

lemma gvals_set: "gmap_ok m \<Longrightarrow> set (gvals m) = ran (gget m)"
  by (force simp: gvals_def ran_def gget_iff_mem)

lemma gput_mem:
  "gmap_ok m \<Longrightarrow> set (gput k v m) = insert (k, v) {e \<in> set m. fst e \<noteq> k}"
proof -
  assume ok: "gmap_ok m"
  have "(j, w) \<in> set (gput k v m) \<longleftrightarrow> (j, w) \<in> insert (k, v) {e \<in> set m. fst e \<noteq> k}" for j w
    using gget_iff_mem [of "gput k v m" j w] gget_iff_mem [of m j w] ok
    by (auto split: if_splits)
  then show ?thesis by auto
qed

text \<open>Maps that agree on every key have the same entries, up to order.\<close>

lemma gmap_entries_unique:
  assumes "gmap_ok m" and "gmap_ok n" and "gget m = gget n"
  shows "mset m = mset n"
proof -
  have "set m = set n"
    using assms gget_iff_mem [of m] gget_iff_mem [of n] by auto
  moreover have "distinct m" "distinct n"
    using assms by (auto simp: gmap_ok_def distinct_map)
  ultimately show ?thesis by (simp add: set_eq_iff_mset_eq_distinct)
qed

lemma gvals_unique:
  assumes "gmap_ok m" and "gmap_ok n" and "gget m = gget n"
  shows "mset (gvals m) = mset (gvals n)"
  using gmap_entries_unique [OF assms] by (simp add: gvals_def)

section \<open>sort.SliceStable\<close>

text \<open>
  Insertion of the next element from the right end of the sorted prefix, which is kept reversed.
  \<open>sort.SliceStable\<close> runs exactly this on blocks of twenty elements and merges the blocks; for a
  comparator every stable sort has the same result.
\<close>

fun ins_back :: "('a \<Rightarrow> 'a \<Rightarrow> bool) \<Rightarrow> 'a \<Rightarrow> 'a list \<Rightarrow> 'a list" where
  "ins_back lt x [] = [x]"
| "ins_back lt x (y # ys) = (if lt x y then y # ins_back lt x ys else x # y # ys)"

definition go_sort :: "('a \<Rightarrow> 'a \<Rightarrow> bool) \<Rightarrow> 'a list \<Rightarrow> 'a list" where
  "go_sort lt xs = rev (fold (ins_back lt) xs [])"

lemma mset_ins_back [simp]: "mset (ins_back lt x ys) = add_mset x (mset ys)"
  by (induction ys) auto

lemma mset_fold_ins_back: "mset (fold (ins_back lt) xs ys) = mset xs + mset ys"
  by (induction xs arbitrary: ys) auto

lemma mset_go_sort [simp]: "mset (go_sort lt xs) = mset xs"
  by (simp add: go_sort_def mset_fold_ins_back)

lemma set_go_sort [simp]: "set (go_sort lt xs) = set xs"
  by (metis mset_go_sort set_mset_mset)

lemma length_go_sort [simp]: "length (go_sort lt xs) = length xs"
  by (metis mset_go_sort size_mset)

lemma distinct_go_sort [simp]: "distinct (go_sort lt xs) = distinct xs"
  by (metis mset_go_sort mset_eq_imp_distinct_iff)

lemma ins_back_cong:
  "x \<in> S \<Longrightarrow> set ys \<subseteq> S \<Longrightarrow> (\<And>a b. a \<in> S \<Longrightarrow> b \<in> S \<Longrightarrow> lt a b = lt' a b) \<Longrightarrow>
   ins_back lt x ys = ins_back lt' x ys"
  by (induction ys) auto

lemma fold_ins_back_cong:
  assumes "\<And>a b. a \<in> S \<Longrightarrow> b \<in> S \<Longrightarrow> lt a b = lt' a b"
  shows "set xs \<subseteq> S \<Longrightarrow> set ys \<subseteq> S \<Longrightarrow> fold (ins_back lt) xs ys = fold (ins_back lt') xs ys"
proof (induction xs arbitrary: ys)
  case (Cons x xs)
  then have eq: "ins_back lt x ys = ins_back lt' x ys"
    using ins_back_cong [of x S ys lt lt'] assms by auto
  have "set (ins_back lt' x ys) = insert x (set ys)"
    by (metis mset_ins_back set_mset_add_mset_insert set_mset_mset)
  with Cons eq show ?case by simp
qed simp

text \<open>Only the comparisons of elements of the list matter.\<close>

lemma go_sort_cong:
  "(\<And>a b. a \<in> set xs \<Longrightarrow> b \<in> set xs \<Longrightarrow> lt a b = lt' a b) \<Longrightarrow> go_sort lt xs = go_sort lt' xs"
  unfolding go_sort_def by (rule arg_cong [where f = rev]) (rule fold_ins_back_cong [of "set xs"], auto)

locale comparator =
  fixes lt :: "'a \<Rightarrow> 'a \<Rightarrow> bool"
  assumes asym: "lt x y \<Longrightarrow> \<not> lt y x"
    and negtrans: "lt x z \<Longrightarrow> lt x y \<or> lt y z"
begin

lemma irrefl: "\<not> lt x x"
  using asym by blast

lemma trans: "lt x y \<Longrightarrow> lt y z \<Longrightarrow> lt x z"
  using asym negtrans by blast

lemma sorted_ins_back:
  "sorted_wrt (\<lambda>a b. \<not> lt a b) ys \<Longrightarrow> sorted_wrt (\<lambda>a b. \<not> lt a b) (ins_back lt x ys)"
proof (induction ys)
  case (Cons y ys)
  have set_ins: "set (ins_back lt x ys) = insert x (set ys)"
    by (metis mset_ins_back set_mset_add_mset_insert set_mset_mset)
  show ?case
  proof (cases "lt x y")
    case True
    with Cons set_ins show ?thesis by (auto dest: asym)
  next
    case False
    with Cons show ?thesis by (auto dest: negtrans)
  qed
qed simp

lemma sorted_fold_ins_back:
  "sorted_wrt (\<lambda>a b. \<not> lt a b) ys \<Longrightarrow>
   sorted_wrt (\<lambda>a b. \<not> lt a b) (fold (ins_back lt) xs ys)"
  by (induction xs arbitrary: ys) (auto simp: sorted_ins_back)

lemma sorted_go_sort: "sorted_wrt (\<lambda>a b. \<not> lt b a) (go_sort lt xs)"
  by (simp add: go_sort_def sorted_wrt_rev sorted_fold_ins_back)

text \<open>Elements the comparator does not tell apart keep their order.\<close>

lemma filter_ins_back:
  assumes "\<And>a b. e a \<Longrightarrow> e b \<Longrightarrow> \<not> lt a b"
    and "sorted_wrt (\<lambda>a b. \<not> lt a b) ys"
  shows "filter e (ins_back lt x ys) = filter e (x # ys)"
  using assms(2)
proof (induction ys)
  case (Cons y ys)
  then show ?case using assms(1) by auto
qed simp

lemma filter_fold_ins_back:
  assumes "\<And>a b. e a \<Longrightarrow> e b \<Longrightarrow> \<not> lt a b"
    and "sorted_wrt (\<lambda>a b. \<not> lt a b) ys"
  shows "filter e (fold (ins_back lt) xs ys) = rev (filter e xs) @ filter e ys"
  using assms(2)
proof (induction xs arbitrary: ys)
  case (Cons x xs)
  have "filter e (ins_back lt x ys) = filter e (x # ys)"
    using filter_ins_back [OF assms(1)] Cons.prems by blast
  with Cons show ?case by (simp add: sorted_ins_back)
qed simp

lemma go_sort_stable:
  "(\<And>a b. e a \<Longrightarrow> e b \<Longrightarrow> \<not> lt a b) \<Longrightarrow> filter e (go_sort lt xs) = filter e xs"
  by (simp add: go_sort_def filter_fold_ins_back flip: rev_filter)

end

text \<open>Two lists sorted by an asymmetric relation with the same elements are the same list.\<close>

lemma sorted_wrt_unique:
  assumes "\<And>x y. r x y \<Longrightarrow> \<not> r y x"
    and "sorted_wrt r xs" and "sorted_wrt r ys" and "mset xs = mset ys"
  shows "xs = ys"
  using assms(2-4)
proof (induction xs arbitrary: ys)
  case (Cons x xs)
  then obtain y zs where ys: "ys = y # zs" by (cases ys) auto
  have "x = y"
  proof (rule ccontr)
    assume ne: "x \<noteq> y"
    have "set (x # xs) = set (y # zs)"
      using Cons.prems(3) ys by (metis mset_eq_setD)
    with ne have "x \<in> set zs" "y \<in> set xs" by auto
    with Cons.prems ys have "r x y" "r y x" by auto
    with assms(1) show False by blast
  qed
  with Cons ys show ?case by simp
qed simp

locale keyed_comparator = comparator lt for lt :: "'a \<Rightarrow> 'a \<Rightarrow> bool" +
  fixes key :: "'a \<Rightarrow> 'k"
  assumes total: "key x \<noteq> key y \<Longrightarrow> lt x y \<or> lt y x"
begin

lemma sorted_strict:
  assumes "distinct (map key xs)"
  shows "sorted_wrt lt (go_sort lt xs)"
proof -
  have d: "distinct (map key (go_sort lt xs))"
    using assms by (metis mset_eq_imp_distinct_iff mset_go_sort mset_map)
  have "sorted_wrt (\<lambda>a b. \<not> lt b a) ys \<Longrightarrow> distinct (map key ys) \<Longrightarrow> sorted_wrt lt ys" for ys
  proof (induction ys)
    case (Cons y ys)
    then have "lt y z" if "z \<in> set ys" for z
      using that total [of y z] by (metis distinct.simps(2) imageI list.set_map list.simps(9)
          sorted_wrt.simps(2))
    with Cons show ?case by simp
  qed simp
  with d sorted_go_sort show ?thesis by blast
qed

lemma go_sort_order_independent:
  assumes "mset xs = mset ys" and "distinct (map key xs)"
  shows "go_sort lt xs = go_sort lt ys"
proof (rule sorted_wrt_unique [where r = lt])
  have "distinct (map key ys)"
    using assms by (metis mset_eq_imp_distinct_iff mset_map)
  then show "sorted_wrt lt (go_sort lt ys)" by (rule sorted_strict)
  show "sorted_wrt lt (go_sort lt xs)" using assms(2) by (rule sorted_strict)
qed (simp_all add: assms(1) asym)

text \<open>Sorting commutes with selecting.\<close>

lemma go_sort_filter:
  assumes "distinct (map key xs)"
  shows "go_sort lt (filter P xs) = filter P (go_sort lt xs)"
proof (rule sorted_wrt_unique [where r = lt])
  show "sorted_wrt lt (go_sort lt (filter P xs))"
    using assms by (intro sorted_strict distinct_map_filter)
  show "sorted_wrt lt (filter P (go_sort lt xs))"
    using sorted_strict [OF assms] by (rule sorted_wrt_filter)
  show "mset (go_sort lt (filter P xs)) = mset (filter P (go_sort lt xs))"
    by (simp add: mset_filter)
qed (rule asym)

end

text \<open>A \<open>less\<close> function that compares a key in a linear order.\<close>

locale key_comparator =
  fixes lt :: "'a \<Rightarrow> 'a \<Rightarrow> bool"
    and key :: "'a \<Rightarrow> 'k::linorder"
  assumes lt_key: "lt x y \<longleftrightarrow> key x < key y"
begin

lemma sorted_key_go_sort: "sorted (map key (go_sort lt xs))"
proof -
  have "sorted_wrt (\<lambda>a b. \<not> lt b a) (go_sort lt xs)"
    by (rule comparator.sorted_go_sort) (unfold_locales, auto simp: lt_key)
  then show ?thesis
    by (simp add: sorted_wrt_map lt_key not_less)
qed

end

sublocale key_comparator \<subseteq> keyed_comparator lt key
  by unfold_locales (auto simp: lt_key)

text \<open>Rows that are told apart by one component of their key have distinct keys.\<close>

lemma distinct_map_via:
  assumes "distinct (map g xs)" and "\<And>x y. f x = f y \<Longrightarrow> g x = g y"
  shows "distinct (map f xs)"
proof -
  have "inj_on f (set xs)"
    using assms unfolding distinct_map inj_on_def by meson
  then show ?thesis using assms(1) by (simp add: distinct_map)
qed

end
