(* ===== verification/Go_Values.thy ===== *)
theory Go_Values
  imports Complex_Main Go_Collections
begin

text \<open>
  Dynamically typed values (Go's \<open>any\<close>) as the JSON decoder and in-process callers produce them, with
  the library functions the code applies to them: \<open>fmt.Sprint\<close>, the conversion of a \<open>float64\<close> to
  \<open>int64\<close> and \<open>strconv.ParseInt\<close>.  An object is a Go map from strings, of type \<open>content\<close>.
\<close>

text \<open>
  \<open>AFloat q t\<close> is a \<open>float64\<close> of value \<open>q\<close> whose \<open>fmt.Sprint\<close> text is \<open>t\<close>; \<open>ANumber s\<close> is a
  \<open>json.Number\<close>, the literal as the decoder read it (it implements \<open>fmt.Stringer\<close>); \<open>AStrs\<close> is a
  \<open>[]string\<close>, \<open>AList\<close> a \<open>[]any\<close> and \<open>AMap\<close> a \<open>map[string]any\<close>.
\<close>

datatype any =
    ANil
  | ABool bool
  | AStr string
  | AFloat rat string
  | AInt int
  | AInt64 int
  | ANumber string
  | AStrs "string list"
  | AList "any list"
  | AMap "(string \<times> any) list"

type_synonym content = "(string, any) gomap"

text \<open>\<open>content[key]\<close>: a missing key reads as \<open>nil\<close>.\<close>

definition cget :: "content \<Rightarrow> string \<Rightarrow> any" where
  "cget c k = (case gget c k of None \<Rightarrow> ANil | Some v \<Rightarrow> v)"

text \<open>\<open>_, ok := content[key]\<close>\<close>

definition chas :: "content \<Rightarrow> string \<Rightarrow> bool" where
  "chas c k \<longleftrightarrow> gget c k \<noteq> None"

lemma cget_gput [simp]: "cget (gput k v c) k' = (if k' = k then v else cget c k')"
  by (simp add: cget_def)

lemma chas_gput [simp]: "chas (gput k v c) k' \<longleftrightarrow> k' = k \<or> chas c k'"
  by (simp add: chas_def)

lemma cget_absent: "\<not> chas c k \<Longrightarrow> cget c k = ANil"
  by (simp add: cget_def chas_def)

section \<open>Decimal numerals\<close>

definition digit_char :: "nat \<Rightarrow> char" where
  "digit_char d = char_of (48 + d)"

function nat_digits :: "nat \<Rightarrow> string" where
  "nat_digits n = (if n < 10 then [digit_char n] else nat_digits (n div 10) @ [digit_char (n mod 10)])"
  by pat_completeness auto
termination
  by (relation "measure id") auto

declare nat_digits.simps [simp del]

text \<open>\<open>strconv.FormatInt(n, 10)\<close>\<close>

definition format_int :: "int \<Rightarrow> string" where
  "format_int n = (if n < 0 then CHR ''-'' # nat_digits (nat (- n)) else nat_digits (nat n))"

definition is_digit :: "char \<Rightarrow> bool" where
  "is_digit c \<longleftrightarrow> CHR ''0'' \<le> c \<and> c \<le> CHR ''9''"

definition digit_val :: "char \<Rightarrow> nat" where
  "digit_val c = of_char c - 48"

definition digits_val :: "string \<Rightarrow> nat" where
  "digits_val s = fold (\<lambda>c n. 10 * n + digit_val c) s 0"

text \<open>
  \<open>n, _ := strconv.ParseInt(s, 10, 64)\<close>: zero for a syntax error, the nearest bound for a literal out
  of range, since the error is dropped.
\<close>

definition clamp64 :: "int \<Rightarrow> int" where
  "clamp64 n = max (- (2 ^ 63)) (min (2 ^ 63 - 1) n)"

definition parse_int64 :: "string \<Rightarrow> int" where
  "parse_int64 s =
     (let (neg, ds) = (case s of [] \<Rightarrow> (False, []) | c # cs \<Rightarrow>
            if c = CHR ''-'' then (True, cs) else if c = CHR ''+'' then (False, cs) else (False, s))
      in if ds = [] \<or> \<not> list_all is_digit ds then 0
         else clamp64 (if neg then - int (digits_val ds) else int (digits_val ds)))"

text \<open>The same with the error kept: a syntax error or a literal out of range is \<open>None\<close>.\<close>

definition ParseInt64 :: "string \<Rightarrow> int option" where
  "ParseInt64 s =
     (let (neg, ds) = (case s of [] \<Rightarrow> (False, []) | c # cs \<Rightarrow>
            if c = CHR ''-'' then (True, cs) else if c = CHR ''+'' then (False, cs) else (False, s));
          n = (if neg then - int (digits_val ds) else int (digits_val ds))
      in if ds = [] \<or> \<not> list_all is_digit ds \<or> \<not> int64_range n then None else Some n)"

text \<open>\<open>int64(v)\<close> of a \<open>float64\<close>: truncation towards zero.\<close>

definition float_trunc :: "rat \<Rightarrow> int" where
  "float_trunc q = (if 0 \<le> q then floor q else - floor (- q))"

lemma clamp64_range: "int64_range (clamp64 n)"
  by (auto simp: clamp64_def int64_range_def)

lemma parse_int64_range: "int64_range (parse_int64 s)"
  by (auto simp: parse_int64_def Let_def clamp64_range split: prod.splits)
    (simp_all add: int64_range_def)

lemma digit_char_is_digit: "d < 10 \<Longrightarrow> is_digit (digit_char d)"
  by (simp add: is_digit_def digit_char_def less_eq_char_def)

lemma digit_val_char: "d < 10 \<Longrightarrow> digit_val (digit_char d) = d"
  by (simp add: digit_val_def digit_char_def)

lemma digits_val_snoc: "digits_val (s @ [c]) = 10 * digits_val s + digit_val c"
  by (simp add: digits_val_def)

lemma digits_val_nat_digits: "digits_val (nat_digits n) = n"
proof (induction n rule: nat_digits.induct)
  case (1 n)
  show ?case
  proof (cases "n < 10")
    case True
    then show ?thesis by (simp add: nat_digits.simps [of n] digits_val_def digit_val_char)
  next
    case False
    with 1 show ?thesis
      by (simp add: nat_digits.simps [of n] digits_val_snoc digit_val_char)
  qed
qed

lemma nat_digits_digits: "list_all is_digit (nat_digits n)"
proof (induction n rule: nat_digits.induct)
  case (1 n)
  then show ?case by (subst nat_digits.simps) (auto simp: digit_char_is_digit)
qed

lemma nat_digits_nonempty: "nat_digits n \<noteq> []"
  by (subst nat_digits.simps) simp

lemma is_digit_not_sign: "is_digit c \<Longrightarrow> c \<noteq> CHR ''-'' \<and> c \<noteq> CHR ''+''"
  by (auto simp: is_digit_def)

lemma parse_format_int: "int64_range n \<Longrightarrow> parse_int64 (format_int n) = n"
proof -
  assume r: "int64_range n"
  obtain c cs where d: "nat_digits (nat n) = c # cs"
    using nat_digits_nonempty by (metis neq_Nil_conv)
  then have "is_digit c" using nat_digits_digits [of "nat n"] by simp
  then show ?thesis
    using r d nat_digits_digits [of "nat n"] nat_digits_digits [of "nat (- n)"]
      nat_digits_nonempty [of "nat (- n)"] digits_val_nat_digits [of "nat n"]
      digits_val_nat_digits [of "nat (- n)"]
    by (auto simp: parse_int64_def format_int_def clamp64_def int64_range_def
        dest: is_digit_not_sign)
qed

section \<open>fmt.Sprint\<close>

text \<open>
  The text of a value under the verb \<open>%v\<close>: \<open>nil\<close> prints as \<open><nil>\<close>, a list as its elements in brackets,
  a map as \<open>map[key:value ...]\<close> with its keys in increasing order.
\<close>

fun join_sp :: "string list \<Rightarrow> string" where
  "join_sp [] = []"
| "join_sp [s] = s"
| "join_sp (s # ss) = s @ '' '' @ join_sp ss"

definition key_lt :: "string \<times> 'a \<Rightarrow> string \<times> 'a \<Rightarrow> bool" where
  "key_lt e e' \<longleftrightarrow> fst e < fst e'"

fun sprint :: "any \<Rightarrow> string" where
  "sprint ANil = ''<nil>''"
| "sprint (ABool b) = (if b then ''true'' else ''false'')"
| "sprint (AStr s) = s"
| "sprint (AFloat q t) = t"
| "sprint (AInt n) = format_int n"
| "sprint (AInt64 n) = format_int n"
| "sprint (ANumber s) = s"
| "sprint (AStrs ss) = ''['' @ join_sp ss @ '']''"
| "sprint (AList vs) = ''['' @ join_sp (map sprint vs) @ '']''"
| "sprint (AMap es) =
     ''map['' @ join_sp (map (\<lambda>(k, t). k @ '':'' @ t)
        (go_sort key_lt (map (\<lambda>(k, v). (k, sprint v)) es))) @ '']''"

interpretation map_keys: keyed_comparator key_lt fst
  by unfold_locales (auto simp: key_lt_def)

lemma sprint_map_order_independent:
  assumes "gmap_ok es" and "gmap_ok es'" and "gget es = gget es'"
  shows "sprint (AMap es) = sprint (AMap es')"
proof -
  let ?f = "map (\<lambda>(k, v). (k, sprint v))"
  have "mset (?f es) = mset (?f es')"
    using gmap_entries_unique [OF assms] by simp
  moreover have "distinct (map fst (?f es))"
    using assms(1) by (simp add: gmap_ok_def comp_def split_def)
  ultimately have "go_sort key_lt (?f es) = go_sort key_lt (?f es')"
    by (rule map_keys.go_sort_order_independent)
  then show ?thesis by simp
qed

section \<open>Splitting and joining\<close>

text \<open>\<open>strings.Split\<close> at a separator of one character: at least one element.\<close>

fun split_on :: "char \<Rightarrow> string \<Rightarrow> string list" where
  "split_on d [] = [[]]"
| "split_on d (c # cs) = (if c = d then [] # split_on d cs
     else case split_on d cs of [] \<Rightarrow> [[c]] | w # ws \<Rightarrow> (c # w) # ws)"

text \<open>\<open>strings.Join\<close>.\<close>

fun join_on :: "char \<Rightarrow> string list \<Rightarrow> string" where
  "join_on d [] = []"
| "join_on d [w] = w"
| "join_on d (w # v # ws) = w @ d # join_on d (v # ws)"

lemma split_on_plain: "d \<notin> set w \<Longrightarrow> split_on d w = [w]"
  by (induction w) auto

lemma split_on_append: "d \<notin> set w \<Longrightarrow> split_on d (w @ d # cs) = w # split_on d cs"
  by (induction w) auto

lemma split_on_join_on:
  "ws \<noteq> [] \<Longrightarrow> \<forall>w\<in>set ws. d \<notin> set w \<Longrightarrow> split_on d (join_on d ws) = ws"
  by (induction d ws rule: join_on.induct) (simp_all add: split_on_plain split_on_append)

lemma set_join_on: "set (join_on d ws) \<subseteq> insert d (\<Union>w\<in>set ws. set w)"
  by (induction d ws rule: join_on.induct) auto

lemma format_int_chars: "set (format_int n) \<subseteq> insert (CHR ''-'') {c. is_digit c}"
  using nat_digits_digits [of "nat n"] nat_digits_digits [of "nat (- n)"]
  by (auto simp: format_int_def list_all_iff split: if_splits)

lemma ParseInt64_format_int: "int64_range n \<Longrightarrow> ParseInt64 (format_int n) = Some n"
proof -
  assume r: "int64_range n"
  obtain c cs where d: "nat_digits (nat n) = c # cs"
    using nat_digits_nonempty by (metis neq_Nil_conv)
  then have "is_digit c" using nat_digits_digits [of "nat n"] by simp
  then have "c \<noteq> CHR ''-''" "c \<noteq> CHR ''+''" by (auto simp: is_digit_def)
  then show ?thesis
    using r d nat_digits_digits [of "nat n"] nat_digits_digits [of "nat (- n)"]
      nat_digits_nonempty [of "nat (- n)"] digits_val_nat_digits [of "nat n"]
      digits_val_nat_digits [of "nat (- n)"]
    by (auto simp: ParseInt64_def format_int_def int64_range_def Let_def)
qed

end
