(* ===== verification/Domain_Records.thy ===== *)
theory Domain_Records
  imports Go_Collections Go_Values Go_Sha256
begin

text \<open>
  Package \<open>internal/dirextalkdomain\<close> (with \<open>internal/dirextalkplugin\<close> and the record of
  \<open>p2p/internal/operations\<close>): the product records, one \<^theory_text>\<open>record\<close> per Go struct with its fields in
  the source's order.  A field keeps its Go name behind a prefix that tells the structs apart.
  \<open>int64\<close> fields are integers, and an enumeration that is a string type in Go stays a string.
\<close>

record owner_profile =
  op_UserID :: string
  op_DisplayName :: string
  op_Domain :: string
  op_AvatarURL :: string
  op_Gender :: string
  op_Birthday :: string
  op_Phone :: string
  op_Email :: string

record agent_identity_config =
  ai_DisplayName :: string
  ai_AvatarURL :: string

record agent_config =
  ac_OnlineAgentIdentity :: agent_identity_config
  ac_Enabled :: bool
  ac_MCPBlockedRoomIDs :: "string list"

record client_build =
  cb_Version :: string
  cb_BuildNumber :: string
  cb_Platform :: string
  cb_ReportedAt :: string

record portal_state =
  ps_Initialized :: bool
  ps_Password :: string
  ps_AccessToken :: string
  ps_MatrixDeviceID :: string
  ps_AgentToken :: string
  ps_OwnerMXID :: string
  ps_AgentRoomID :: string
  ps_SystemRoomID :: string
  ps_Profile :: owner_profile
  ps_AgentConfig :: agent_config
  ps_ClientBuild :: client_build

record contact_record =
  ct_PeerMXID :: string
  ct_DisplayName :: string
  ct_DisplayNameOverride :: bool
  ct_AvatarURL :: string
  ct_Domain :: string
  ct_RoomID :: string
  ct_Status :: string
  ct_Remark :: string
  ct_RequestID :: string

record channel =
  ch_ChannelID :: string
  ch_RoomID :: string
  ch_Name :: string
  ch_Description :: string
  ch_AvatarURL :: string
  ch_Visibility :: string
  ch_JoinPolicy :: string
  ch_ChannelType :: string
  ch_CommentsEnabled :: bool
  ch_Muted :: bool
  ch_MemberCount :: int
  ch_PendingJoinCount :: int
  ch_IsOwned :: bool
  ch_Role :: string
  ch_MemberStatus :: string

record channel_post =
  po_PostID :: string
  po_ChannelID :: string
  po_RoomID :: string
  po_EventID :: string
  po_AuthorMXID :: string
  po_AuthorName :: string
  po_Title :: string
  po_Body :: string
  po_MessageType :: string
  po_MediaJSON :: string
  po_Visibility :: string
  po_CommentsEnabled :: bool
  po_CommentsEnabledSet :: bool
  po_SettingsUpdated :: bool
  po_OriginServerTS :: int
  po_CommentCount :: int

record channel_post_settings =
  st_PostID :: string
  st_ChannelID :: string
  st_RoomID :: string
  st_PostEventID :: string
  st_Visibility :: string
  st_CommentsEnabled :: bool
  st_UpdatedAt :: int

record channel_comment =
  cm_CommentID :: string
  cm_PostID :: string
  cm_ChannelID :: string
  cm_EventID :: string
  cm_AuthorMXID :: string
  cm_AuthorName :: string
  cm_Body :: string
  cm_MessageType :: string
  cm_MediaJSON :: string
  cm_ReplyToCommentID :: string
  cm_ReplyToAuthorMXID :: string
  cm_MentionsJSON :: string
  cm_OriginServerTS :: int

record group_record =
  gr_RoomID :: string
  gr_Name :: string
  gr_Topic :: string
  gr_AvatarURL :: string
  gr_MemberCount :: int
  gr_InvitePolicy :: string
  gr_Muted :: bool

record member_record =
  mb_RoomID :: string
  mb_ChannelID :: string
  mb_UserID :: string
  mb_DisplayName :: string
  mb_AvatarURL :: string
  mb_Domain :: string
  mb_Membership :: string
  mb_Role :: string
  mb_Muted :: bool
  mb_JoinedAt :: int
  mb_RequesterNodeBaseURL :: string
  mb_RequestID :: string

record read_marker =
  rm_RoomID :: string
  rm_EventID :: string
  rm_OriginServerTS :: int
  rm_TopologicalPosition :: int
  rm_StreamPosition :: int

record channel_invite_grant =
  ig_GrantID :: string
  ig_ChannelID :: string
  ig_RoomID :: string
  ig_ShareRoomID :: string
  ig_CreatedBy :: string
  ig_CreatedAt :: int

record block_record =
  bl_TargetType :: string
  bl_TargetID :: string
  bl_RoomID :: string
  bl_ChannelID :: string
  bl_PeerMXID :: string
  bl_DisplayName :: string
  bl_AvatarURL :: string
  bl_CreatedAt :: int

record call_record =
  ca_CallID :: string
  ca_RoomID :: string
  ca_RoomType :: string
  ca_MediaType :: string
  ca_CreatedByMXID :: string
  ca_State :: string
  ca_CreatedAt :: string
  ca_AnsweredAt :: string
  ca_EndedAt :: string
  ca_EndedByMXID :: string
  ca_EndReason :: string
  ca_DurationMS :: int

record favorite_record =
  fv_ID :: int
  fv_EventID :: string
  fv_RoomID :: string
  fv_SenderID :: string
  fv_SenderName :: string
  fv_Content :: string
  fv_MessageType :: string
  fv_OriginServerTS :: int
  fv_CreatedAt :: string

record follow_record =
  fo_Domain :: string
  fo_CreatedAt :: string

record reaction_record =
  re_EventID :: string
  re_TargetType :: string
  re_TargetID :: string
  re_ChannelID :: string
  re_PostID :: string
  re_CommentID :: string
  re_Reaction :: string
  re_UserID :: string
  re_Active :: bool
  re_CreatedAt :: string

record report_record =
  rp_ReportID :: string
  rp_TargetType :: string
  rp_TargetRoomID :: string
  rp_TargetChannelID :: string
  rp_TargetName :: string
  rp_ReporterMXID :: string
  rp_ReporterDisplayName :: string
  rp_Reason :: string
  rp_Body :: string
  rp_ImageURLs :: "string list"
  rp_SystemRoomID :: string
  rp_EventID :: string
  rp_OriginServerTS :: int
  rp_CreatedAt :: string

record p2p_event =
  ev_Seq :: int
  ev_Type :: string
  ev_RoomID :: string
  ev_EventID :: string
  ev_DedupeKey :: string
  ev_Payload :: content
  ev_CreatedAt :: string

record event_bounds =
  eb_MinSeq :: int
  eb_MaxSeq :: int
  eb_Count :: int

record conversation_record =
  cv_ConversationID :: string
  cv_MatrixRoomID :: string
  cv_Kind :: string
  cv_Lifecycle :: string
  cv_CreatedByMXID :: string
  cv_PeerMXID :: string
  cv_Title :: string
  cv_AvatarURL :: string
  cv_LastEventID :: string
  cv_LastMessage :: string
  cv_LastActivityAt :: int
  cv_ProjectionState :: string
  cv_ProjectionReason :: string
  cv_CreatedAt :: int
  cv_UpdatedAt :: int

record conversation_capabilities =
  cp_Open :: bool
  cp_Send :: bool
  cp_SendMedia :: bool
  cp_Call :: bool
  cp_Invite :: bool
  cp_ManageMembers :: bool
  cp_Rename :: bool
  cp_RemoveMembers :: bool
  cp_Leave :: bool
  cp_Delete :: bool
  cp_PostCreate :: bool
  cp_CommentCreate :: bool
  cp_ReactionToggle :: bool
  cp_PostRecall :: bool
  cp_CommentRecall :: bool
  cp_CommentsEnabled :: bool

record conversation_view =
  vw_ConversationID :: string
  vw_MatrixRoomID :: string
  vw_Kind :: string
  vw_Lifecycle :: string
  vw_PeerMXID :: string
  vw_MemberCount :: int
  vw_Membership :: string
  vw_RelationshipStatus :: string
  vw_Role :: string
  vw_HydrationState :: string
  vw_HydrationReason :: string
  vw_Capabilities :: conversation_capabilities
  vw_Title :: string
  vw_AvatarURL :: string
  vw_LastEventID :: string
  vw_LastMessage :: string
  vw_LastActivityAt :: int
  vw_ProjectionState :: string
  vw_ProjectionReason :: string
  vw_ChannelType :: string
  vw_CommentsEnabled :: bool

record group_agent_binding =
  gb_RoomID :: string
  gb_Enabled :: bool
  gb_OwnerMXID :: string
  gb_AgentMXID :: string
  gb_DisplayName :: string
  gb_AvatarURL :: string
  gb_Revision :: int
  gb_MemberPolicy :: string
  gb_Status :: string
  gb_AccountGeneration :: int
  gb_EnabledAt :: int

record group_agent_request =
  gq_RequestID :: string
  gq_RoomID :: string
  gq_EventID :: string
  gq_SenderMXID :: string
  gq_OwnerMXID :: string
  gq_AgentMXID :: string
  gq_BindingRevision :: int
  gq_AccountGeneration :: int
  gq_OriginServerTS :: int
  gq_Body :: string
  gq_ScheduledBy :: string
  gq_SenderDisplayName :: string
  gq_Status :: string
  gq_ReplyEventID :: string
  gq_ReplyDigest :: string

text \<open>A \<open>*time.Time\<close> is an optional instant in nanoseconds.\<close>

record group_agent_schedule =
  gs_RoomID :: string
  gs_ScheduleID :: string
  gs_Name :: string
  gs_Capability :: string
  gs_Cron :: string
  gs_RunAt :: "int option"
  gs_Timezone :: string
  gs_NextRunAt :: "int option"
  gs_CreatedBy :: string
  gs_BindingRevision :: int
  gs_UpdatedAt :: int

record completion_receipt =
  cr_EventID :: string
  cr_ExecutionID :: string
  cr_RunID :: string
  cr_ConversationID :: string
  cr_TurnID :: string
  cr_TerminalState :: string
  cr_CompletedAt :: string
  cr_PayloadDigest :: string
  cr_OwnerID :: string
  cr_AccountGeneration :: int

record plugin_instance =
  pl_ID :: string
  pl_Name :: string
  pl_Version :: string
  pl_Image :: string
  pl_Digest :: string
  pl_Status :: string
  pl_Enabled :: bool
  pl_Config :: content
  pl_LastJobID :: string
  pl_CreatedAt :: int
  pl_UpdatedAt :: int

record plugin_job =
  pj_JobID :: string
  pj_PluginID :: string
  pj_Action :: string
  pj_Status :: string
  pj_Message :: string
  pj_CreatedAt :: int
  pj_UpdatedAt :: int

record plugin_secret =
  pk_PluginID :: string
  pk_Name :: string
  pk_Value :: string
  pk_UpdatedAt :: int

record operation_record =
  oq_OperationID :: string
  oq_Action :: string
  oq_Status :: string
  oq_Phase :: string
  oq_RoomID :: string
  oq_CurrentRoomID :: string
  oq_UserID :: string
  oq_PeerMXID :: string
  oq_RequestID :: string
  oq_BaseRequestID :: string
  oq_ResultJSON :: string
  oq_ErrorCode :: string
  oq_Revision :: int
  oq_LeaseOwner :: string
  oq_LeaseUntil :: int
  oq_CreatedAt :: int
  oq_UpdatedAt :: int

end
