(* ===== verification/Domain.thy ===== *)
theory Domain
  imports Domain_Records
begin

text \<open>
  Package \<open>internal/dirextalkdomain\<close>: the normalisers and predicates on product values, and the
  conversation record derived from a contact, a group or a channel.  The lemmas show that every
  normaliser is idempotent and has exactly its documented range.
\<close>

named_theorems domain_defs \<open>definitions of the domain predicates, for evaluation\<close>

section \<open>Memberships, visibilities, roles, states\<close>

definition NormalizeMemberMembership :: "string \<Rightarrow> string" where
  "NormalizeMemberMembership membership =
     (let m = go_lower (go_trim membership) in if m = ''joined'' then ''join'' else m)"

definition MemberMembershipJoined :: "string \<Rightarrow> bool" where
  "MemberMembershipJoined membership \<longleftrightarrow> go_equal_fold (go_trim membership) ''join''"

definition NormalizeChannelPostVisibility :: "string \<Rightarrow> string" where
  "NormalizeChannelPostVisibility visibility =
     (if go_equal_fold (go_trim visibility) ''public'' then ''public'' else ''private'')"

definition NormalizeBlockTargetType :: "string \<Rightarrow> string" where
  "NormalizeBlockTargetType value =
     (if go_lower (go_trim value) \<in> set [''friend'', ''user'', ''member'', ''contact'']
      then ''contact'' else [])"

definition BlockKey :: "string \<Rightarrow> string \<Rightarrow> string" where
  "BlockKey targetType targetID = NormalizeBlockTargetType targetType @ ''|'' @ go_trim targetID"

definition FallbackString :: "string \<Rightarrow> string \<Rightarrow> string" where
  "FallbackString value fallback = (if go_trim value \<noteq> [] then value else fallback)"

definition DisplayNameFromMXID :: "string \<Rightarrow> string" where
  "DisplayNameFromMXID mxid =
     (let localpart = go_trim_prefix mxid ''@'';
          localpart = (case go_index localpart (CHR '':'') of Some i \<Rightarrow> take i localpart | None \<Rightarrow> localpart)
      in FallbackString localpart mxid)"

definition DomainFromMXID :: "string \<Rightarrow> string" where
  "DomainFromMXID mxid =
     (let trimmed = go_trim_prefix mxid ''@'' in
      case go_index trimmed (CHR '':'') of
        None \<Rightarrow> []
      | Some i \<Rightarrow>
          (let index = i + (length mxid - length trimmed) in
           if index + 1 \<ge> length mxid then [] else drop (index + 1) mxid))"

definition TerminalCallState :: "string \<Rightarrow> bool" where
  "TerminalCallState state \<longleftrightarrow>
     go_lower (go_trim state) \<in> set [''ended'', ''rejected'', ''missed'', ''failed'']"

definition hidden_memberships :: "string list" where
  "hidden_memberships =
     [''leave'', ''left'', ''remove'', ''removed'', ''reject'', ''rejected'', ''ban'', ''banned'']"

definition MemberHidden :: "string \<Rightarrow> bool" where
  "MemberHidden membership \<longleftrightarrow> go_lower (go_trim membership) \<in> set hidden_memberships"

definition ProductOwnerRole :: "string \<Rightarrow> bool" where
  "ProductOwnerRole role \<longleftrightarrow> go_equal_fold (go_trim role) ''owner''"

definition NormalizeProductMemberRole :: "string \<Rightarrow> string" where
  "NormalizeProductMemberRole role = (if ProductOwnerRole role then ''owner'' else ''member'')"

definition ContactDeleted :: "string \<Rightarrow> bool" where
  "ContactDeleted status \<longleftrightarrow> go_equal_fold (go_trim status) ''deleted''"

lemmas domain_string_defs [domain_defs] =
  NormalizeMemberMembership_def MemberMembershipJoined_def NormalizeChannelPostVisibility_def
  NormalizeBlockTargetType_def BlockKey_def FallbackString_def TerminalCallState_def
  hidden_memberships_def MemberHidden_def ProductOwnerRole_def NormalizeProductMemberRole_def
  ContactDeleted_def

section \<open>Conversations\<close>

definition ConversationIDForRoomID :: "string \<Rightarrow> string" where
  "ConversationIDForRoomID roomID = ''conv_'' @ hex_encode (take 12 (sha256_sum (go_trim roomID)))"

text \<open>\<open>now\<close> is \<open>time.Now().UTC().UnixMilli()\<close>.\<close>

definition NormalizeConversationRecord :: "int \<Rightarrow> conversation_record \<Rightarrow> conversation_record" where
  "NormalizeConversationRecord now record =
     (let r = record\<lparr>
            cv_ConversationID := go_trim (cv_ConversationID record),
            cv_MatrixRoomID := go_trim (cv_MatrixRoomID record),
            cv_CreatedByMXID := go_trim (cv_CreatedByMXID record),
            cv_PeerMXID := go_trim (cv_PeerMXID record),
            cv_Title := go_trim (cv_Title record),
            cv_AvatarURL := go_trim (cv_AvatarURL record),
            cv_LastEventID := go_trim (cv_LastEventID record),
            cv_LastMessage := go_trim (cv_LastMessage record),
            cv_ProjectionReason := go_trim (cv_ProjectionReason record)\<rparr>;
          r = (if cv_ConversationID r = [] \<and> cv_MatrixRoomID r \<noteq> []
               then r\<lparr>cv_ConversationID := ConversationIDForRoomID (cv_MatrixRoomID r)\<rparr> else r);
          r = (if cv_Lifecycle r = [] then r\<lparr>cv_Lifecycle := ''active''\<rparr> else r);
          r = (if cv_ProjectionState r = [] then r\<lparr>cv_ProjectionState := ''ready''\<rparr> else r);
          r = (if cv_CreatedAt r \<le> 0 then r\<lparr>cv_CreatedAt := now\<rparr> else r);
          r = (if cv_UpdatedAt r \<le> 0 then r\<lparr>cv_UpdatedAt := cv_CreatedAt r\<rparr> else r)
      in r)"

text \<open>The zero value of the struct.\<close>

definition zero_conversation :: conversation_record where
  "zero_conversation = \<lparr>
     cv_ConversationID = [], cv_MatrixRoomID = [], cv_Kind = [], cv_Lifecycle = [],
     cv_CreatedByMXID = [], cv_PeerMXID = [], cv_Title = [], cv_AvatarURL = [], cv_LastEventID = [],
     cv_LastMessage = [], cv_LastActivityAt = 0, cv_ProjectionState = [], cv_ProjectionReason = [],
     cv_CreatedAt = 0, cv_UpdatedAt = 0\<rparr>"

definition ConversationFromContact :: "contact_record \<Rightarrow> conversation_record" where
  "ConversationFromContact contact =
     (let lifecycle = (if ContactDeleted (ct_Status contact) then ''deleted''
                       else if \<not> go_equal_fold (ct_Status contact) ''accepted'' then ''pending''
                       else ''active'')
      in zero_conversation\<lparr>
           cv_MatrixRoomID := ct_RoomID contact,
           cv_Kind := ''direct'',
           cv_Lifecycle := lifecycle,
           cv_PeerMXID := ct_PeerMXID contact,
           cv_Title := FallbackString (ct_DisplayName contact) (ct_PeerMXID contact),
           cv_AvatarURL := ct_AvatarURL contact,
           cv_ProjectionState := ''ready''\<rparr>)"

definition ConversationFromGroup :: "group_record \<Rightarrow> conversation_record" where
  "ConversationFromGroup g = zero_conversation\<lparr>
     cv_MatrixRoomID := gr_RoomID g, cv_Kind := ''group'', cv_Lifecycle := ''active'',
     cv_Title := gr_Name g, cv_AvatarURL := gr_AvatarURL g, cv_ProjectionState := ''ready''\<rparr>"

definition ConversationFromChannel :: "channel \<Rightarrow> conversation_record" where
  "ConversationFromChannel ch = zero_conversation\<lparr>
     cv_MatrixRoomID := ch_RoomID ch, cv_Kind := ''channel'', cv_Lifecycle := ''active'',
     cv_Title := ch_Name ch, cv_AvatarURL := ch_AvatarURL ch, cv_ProjectionState := ''ready''\<rparr>"

section \<open>Properties\<close>

lemmas literal_eval = go_trim_ascii ascii_graph_def ascii_lower_def go_equal_fold_def

lemma NormalizeMemberMembership_idem [simp]:
  "NormalizeMemberMembership (NormalizeMemberMembership m) = NormalizeMemberMembership m"
  by (simp add: NormalizeMemberMembership_def Let_def literal_eval)

lemma NormalizeMemberMembership_trimmed [simp]:
  "go_trim (NormalizeMemberMembership m) = NormalizeMemberMembership m"
  by (simp add: NormalizeMemberMembership_def Let_def literal_eval)

lemma NormalizeMemberMembership_join_iff:
  "NormalizeMemberMembership m = ''join'' \<longleftrightarrow> go_lower (go_trim m) \<in> {''join'', ''joined''}"
  by (auto simp: NormalizeMemberMembership_def Let_def)

lemma NormalizeChannelPostVisibility_idem [simp]:
  "NormalizeChannelPostVisibility (NormalizeChannelPostVisibility v) = NormalizeChannelPostVisibility v"
  by (simp add: NormalizeChannelPostVisibility_def literal_eval)

lemma NormalizeChannelPostVisibility_range:
  "NormalizeChannelPostVisibility v \<in> {''public'', ''private''}"
  by (simp add: NormalizeChannelPostVisibility_def)

lemma NormalizeBlockTargetType_idem [simp]:
  "NormalizeBlockTargetType (NormalizeBlockTargetType t) = NormalizeBlockTargetType t"
  by (simp add: NormalizeBlockTargetType_def literal_eval)

lemma BlockKey_normal [simp]: "BlockKey (NormalizeBlockTargetType t) (go_trim i) = BlockKey t i"
  by (simp add: BlockKey_def)

lemma BlockKey_eq_iff:
  "BlockKey s i = BlockKey t j \<longleftrightarrow>
     NormalizeBlockTargetType s = NormalizeBlockTargetType t \<and> go_trim i = go_trim j"
  by (simp add: BlockKey_def NormalizeBlockTargetType_def)

lemma NormalizeProductMemberRole_idem [simp]:
  "NormalizeProductMemberRole (NormalizeProductMemberRole r) = NormalizeProductMemberRole r"
  by (simp add: NormalizeProductMemberRole_def ProductOwnerRole_def literal_eval)

text \<open>The two halves of a Matrix user identifier.\<close>

lemma mxid_parts:
  assumes "CHR '':'' \<notin> set l"
  shows "DomainFromMXID (CHR ''@'' # l @ CHR '':'' # d) = d"
    and "go_trim l \<noteq> [] \<Longrightarrow> DisplayNameFromMXID (CHR ''@'' # l @ CHR '':'' # d) = l"
  using assms
  by (simp_all add: DomainFromMXID_def DisplayNameFromMXID_def FallbackString_def Let_def
      go_trim_prefix_def go_has_prefix_def go_index_append)

text \<open>The fields of a normalised conversation.\<close>

lemma hex_digit_graph: "d < 16 \<Longrightarrow> ascii_graph (hex_digit d)"
  by (auto simp: hex_digit_def ascii_graph_def less_eq_char_def)

lemma hex_encode_graph: "c \<in> set (hex_encode s) \<Longrightarrow> ascii_graph c"
  by (auto simp: hex_encode_def intro!: hex_digit_graph) (simp add: less_mult_imp_div_less)

lemma ConversationIDForRoomID_trimmed [simp]:
  "go_trim (ConversationIDForRoomID r) = ConversationIDForRoomID r"
proof -
  have "length (hex_encode (take 12 (sha256_sum (go_trim r)))) = 24"
    by (simp add: length_sha256_sum)
  then have "hex_encode (take 12 (sha256_sum (go_trim r))) \<noteq> []"
    by (metis list.size(3) zero_neq_numeral)
  then have "ascii_graph (last (ConversationIDForRoomID r))"
    using hex_encode_graph [OF last_in_set] by (simp add: ConversationIDForRoomID_def)
  moreover have "ascii_graph (hd (ConversationIDForRoomID r))"
    by (simp add: ConversationIDForRoomID_def ascii_graph_def)
  ultimately show ?thesis
    by (intro go_trim_ascii) (simp_all add: ConversationIDForRoomID_def)
qed

lemma ConversationIDForRoomID_nonempty [simp]: "ConversationIDForRoomID r \<noteq> []"
  by (simp add: ConversationIDForRoomID_def)

lemma NormalizeConversationRecord_fields [simp]:
  "cv_ConversationID (NormalizeConversationRecord now r) =
     (if go_trim (cv_ConversationID r) = [] \<and> go_trim (cv_MatrixRoomID r) \<noteq> []
      then ConversationIDForRoomID (go_trim (cv_MatrixRoomID r)) else go_trim (cv_ConversationID r))"
  "cv_MatrixRoomID (NormalizeConversationRecord now r) = go_trim (cv_MatrixRoomID r)"
  "cv_Kind (NormalizeConversationRecord now r) = cv_Kind r"
  "cv_Lifecycle (NormalizeConversationRecord now r) =
     (if cv_Lifecycle r = [] then ''active'' else cv_Lifecycle r)"
  "cv_CreatedByMXID (NormalizeConversationRecord now r) = go_trim (cv_CreatedByMXID r)"
  "cv_PeerMXID (NormalizeConversationRecord now r) = go_trim (cv_PeerMXID r)"
  "cv_Title (NormalizeConversationRecord now r) = go_trim (cv_Title r)"
  "cv_AvatarURL (NormalizeConversationRecord now r) = go_trim (cv_AvatarURL r)"
  "cv_LastEventID (NormalizeConversationRecord now r) = go_trim (cv_LastEventID r)"
  "cv_LastMessage (NormalizeConversationRecord now r) = go_trim (cv_LastMessage r)"
  "cv_LastActivityAt (NormalizeConversationRecord now r) = cv_LastActivityAt r"
  "cv_ProjectionState (NormalizeConversationRecord now r) =
     (if cv_ProjectionState r = [] then ''ready'' else cv_ProjectionState r)"
  "cv_ProjectionReason (NormalizeConversationRecord now r) = go_trim (cv_ProjectionReason r)"
  "cv_CreatedAt (NormalizeConversationRecord now r) =
     (if cv_CreatedAt r \<le> 0 then now else cv_CreatedAt r)"
  "cv_UpdatedAt (NormalizeConversationRecord now r) =
     (if cv_UpdatedAt r \<le> 0 then if cv_CreatedAt r \<le> 0 then now else cv_CreatedAt r
      else cv_UpdatedAt r)"
  by (simp_all add: NormalizeConversationRecord_def Let_def) blast

lemma NormalizeConversationRecord_idem:
  "0 < now \<Longrightarrow> NormalizeConversationRecord now' (NormalizeConversationRecord now r) =
     NormalizeConversationRecord now r"
  by (rule conversation_record.equality) simp_all

end
