(* ===== verification/Store.thy ===== *)
theory Store
  imports Domain
begin

text \<open>
  The product-state store \<open>MemoryStore\<close> of \<open>p2p/storage\<close>: its state record, the empty store, the
  representation invariant of its tables and the contract of a keyed table.  Every method of the
  source runs under the store's mutex, so one method is one atomic function on the record.  A table
  is a Go map whose key is computed from the stored record (\<open>keyed\<close>); \<open>store_wf\<close> says so for every
  table.  The locale \<open>table\<close> is the contract the tables share, and its lemmas say what a listing
  contains after a write.
\<close>

named_theorems store_ops \<open>the store methods, for unfolding\<close>

record memory_store =
  ms_groupAgentBindings :: "(string, group_agent_binding) gomap"
  ms_groupAgentRequests :: "(string, group_agent_request) gomap"
  ms_groupAgentSchedules :: "(string, group_agent_schedule) gomap"
  ms_portal :: "portal_state option"
  ms_readMarks :: "(string, read_marker) gomap"
  ms_conversations :: "(string, conversation_record) gomap"
  ms_channels :: "(string, channel) gomap"
  ms_inviteGrants :: "(string, channel_invite_grant) gomap"
  ms_posts :: "channel_post list"
  ms_postSettings :: "(string, channel_post_settings) gomap"
  ms_comments :: "channel_comment list"
  ms_contacts :: "(string, contact_record) gomap"
  ms_blocks :: "(string, block_record) gomap"
  ms_groups :: "(string, group_record) gomap"
  ms_calls :: "(string, call_record) gomap"
  ms_favorites :: "(int, favorite_record) gomap"
  ms_follows :: "(string, follow_record) gomap"
  ms_reactions :: "(string, reaction_record) gomap"
  ms_members :: "(string, member_record) gomap"
  ms_events :: "p2p_event list"
  ms_eventSeq :: "(int, unit) gomap"
  ms_eventDedupe :: "(string, int) gomap"
  ms_completionReceipts :: "(string, completion_receipt) gomap"
  ms_completionExecutions :: "(string, string) gomap"
  ms_completionEventSeq :: "(string, int) gomap"
  ms_plugins :: "(string, plugin_instance) gomap"
  ms_pluginJobs :: "(string, plugin_job) gomap"
  ms_pluginSecrets :: "(string, (string, plugin_secret) gomap) gomap"
  ms_reports :: "(string, report_record) gomap"
  ms_operations :: "(string, operation_record) gomap"

definition NewMemoryStore :: memory_store where
  "NewMemoryStore = \<lparr>
     ms_groupAgentBindings = gempty, ms_groupAgentRequests = gempty, ms_groupAgentSchedules = gempty,
     ms_portal = None, ms_readMarks = gempty, ms_conversations = gempty, ms_channels = gempty,
     ms_inviteGrants = gempty, ms_posts = [], ms_postSettings = gempty, ms_comments = [],
     ms_contacts = gempty, ms_blocks = gempty, ms_groups = gempty, ms_calls = gempty,
     ms_favorites = gempty, ms_follows = gempty, ms_reactions = gempty, ms_members = gempty,
     ms_events = [], ms_eventSeq = gempty, ms_eventDedupe = gempty, ms_completionReceipts = gempty,
     ms_completionExecutions = gempty, ms_completionEventSeq = gempty, ms_plugins = gempty,
     ms_pluginJobs = gempty, ms_pluginSecrets = gempty, ms_reports = gempty,
     ms_operations = gempty\<rparr>"

section \<open>Keyed tables\<close>

definition keyed :: "('v \<Rightarrow> 'k) \<Rightarrow> ('k, 'v) gomap \<Rightarrow> bool" where
  "keyed f m \<longleftrightarrow> gmap_ok m \<and> list_all (\<lambda>(k, v). k = f v) m"

lemma keyed_gempty [simp]: "keyed f gempty"
  by (simp add: keyed_def) (simp add: gempty_def)

lemma keyed_gmap_ok: "keyed f m \<Longrightarrow> gmap_ok m"
  by (simp add: keyed_def)

lemma keyed_key: "keyed f m \<Longrightarrow> gget m k = Some v \<Longrightarrow> f v = k"
  by (auto simp: keyed_def list_all_iff dest: gget_mem)

lemma keyedI: "gmap_ok m \<Longrightarrow> (\<And>k v. gget m k = Some v \<Longrightarrow> k = f v) \<Longrightarrow> keyed f m"
  by (auto simp: keyed_def list_all_iff gget_iff_mem)

lemma keyed_gput [simp]: "keyed f m \<Longrightarrow> k = f v \<Longrightarrow> keyed f (gput k v m)"
  by (rule keyedI) (auto simp: keyed_gmap_ok dest: keyed_key split: if_splits)

lemma keyed_gdel [simp]: "keyed f m \<Longrightarrow> keyed f (gdel k m)"
  by (rule keyedI) (auto simp: keyed_gmap_ok dest: keyed_key split: if_splits)

lemma keyed_gkeep [simp]: "keyed f m \<Longrightarrow> keyed f (gkeep p m)"
  by (auto simp: keyed_def list_all_iff gkeep_def split_def) (simp add: gkeep_def [symmetric, of p m, unfolded split_def])

lemma gget_vals: "gget m k = Some v \<Longrightarrow> v \<in> set (gvals m)"
  by (force simp: gvals_def dest: gget_mem)

lemma keyed_vals: "keyed f m \<Longrightarrow> v \<in> set (gvals m) \<longleftrightarrow> gget m (f v) = Some v"
  by (auto simp: gvals_set keyed_gmap_ok ran_def dest: keyed_key)

lemma keyed_distinct:
  assumes "keyed f m"
  shows "distinct (map f (gvals m))"
proof -
  have "map f (gvals m) = map fst m"
    using assms by (auto simp: keyed_def list_all_iff gvals_def)
  then show ?thesis
    using assms by (simp add: keyed_def gmap_ok_def)
qed

text \<open>The listed rows after a write, as a multiset.\<close>

lemma mset_gvals_gput:
  "gget m k = Some v \<Longrightarrow> mset (gvals (gput k w m)) = add_mset w (mset (gvals m) - {#v#})"
proof (induction m)
  case (Cons e m)
  then show ?case
  proof (cases "fst e = k")
    case False
    with Cons have "gget m k = Some v" by (cases e) (simp add: gget_def)
    then have "v \<in># mset (gvals m)" by (auto dest: gget_vals)
    with Cons False show ?thesis
      by (cases e) (auto simp: gvals_def gput_def gget_def)
  qed (cases e, auto simp: gvals_def gput_def gget_def)
qed (simp add: gget_def)

lemma mset_gvals_gput_new:
  "gget m k = None \<Longrightarrow> mset (gvals (gput k w m)) = add_mset w (mset (gvals m))"
  by (induction m) (auto simp: gvals_def gput_def gget_def split: if_splits)

text \<open>A property of every row.\<close>

definition vals_all :: "('v \<Rightarrow> bool) \<Rightarrow> ('k, 'v) gomap \<Rightarrow> bool" where
  "vals_all P m \<longleftrightarrow> list_all P (gvals m)"

lemma vals_all_gempty [simp]: "vals_all P gempty"
  by (simp add: vals_all_def gvals_def gempty_def)

lemma vals_all_gput [simp]: "vals_all P m \<Longrightarrow> P v \<Longrightarrow> vals_all P (gput k v m)"
  by (induction m) (auto simp: vals_all_def gvals_def gput_def)

lemma vals_all_gdel [simp]: "vals_all P m \<Longrightarrow> vals_all P (gdel k m)"
  by (auto simp: vals_all_def gvals_def gdel_def list_all_iff AList.delete_eq)

lemma vals_all_gkeep [simp]: "vals_all P m \<Longrightarrow> vals_all P (gkeep p m)"
  by (auto simp: vals_all_def gvals_def gkeep_def list_all_iff)

lemma vals_all_gget: "vals_all P m \<Longrightarrow> gget m k = Some v \<Longrightarrow> P v"
  by (auto simp: vals_all_def list_all_iff dest: gget_vals)

text \<open>A relation between any two rows.\<close>

definition rows_agree :: "('v \<Rightarrow> 'v \<Rightarrow> bool) \<Rightarrow> ('k, 'v) gomap \<Rightarrow> bool" where
  "rows_agree R m \<longleftrightarrow> list_all (\<lambda>a. list_all (R a) (gvals m)) (gvals m)"

lemma rows_agreeD: "rows_agree R m \<Longrightarrow> gget m i = Some a \<Longrightarrow> gget m j = Some b \<Longrightarrow> R a b"
  by (auto simp: rows_agree_def list_all_iff dest!: gget_vals)

lemma rows_agreeI:
  assumes "gmap_ok m" and "\<And>i j a b. gget m i = Some a \<Longrightarrow> gget m j = Some b \<Longrightarrow> R a b"
  shows "rows_agree R m"
  using assms by (auto simp: rows_agree_def list_all_iff gvals_set ran_def)

text \<open>The first entry a \<open>range\<close> loop that returns on a match finds.\<close>

definition gfind :: "('k \<Rightarrow> 'v \<Rightarrow> bool) \<Rightarrow> ('k, 'v) gomap \<Rightarrow> ('k \<times> 'v) option" where
  "gfind p m = find (\<lambda>(k, v). p k v) m"

lemma gfind_SomeD:
  "gfind p m = Some (k, v) \<Longrightarrow> (k, v) \<in> set m \<and> p k v"
  by (auto simp: gfind_def find_Some_iff) (metis nth_mem)

lemma gfind_None_iff: "gfind p m = None \<longleftrightarrow> (\<forall>(k, v)\<in>set m. \<not> p k v)"
  by (auto simp: gfind_def find_None_iff)

lemma gfind_gget: "gmap_ok m \<Longrightarrow> gfind p m = Some (k, v) \<Longrightarrow> gget m k = Some v \<and> p k v"
  by (auto simp: gget_iff_mem dest: gfind_SomeD)

lemma gfind_None: "gmap_ok m \<Longrightarrow> gfind p m = None \<longleftrightarrow> (\<forall>k v. gget m k = Some v \<longrightarrow> \<not> p k v)"
  by (auto simp: gfind_None_iff gget_iff_mem)

text \<open>When at most one entry matches, the iteration order does not show.\<close>

lemma gfind_unique:
  assumes "gmap_ok m" and "gget m k = Some v" and "p k v"
    and "\<And>k' v'. gget m k' = Some v' \<Longrightarrow> p k' v' \<Longrightarrow> k' = k"
  shows "gfind p m = Some (k, v)"
proof (cases "gfind p m")
  case None
  then have "\<not> p k v"
    using gfind_None [OF assms(1), of p] assms(2) by simp
  with assms(3) show ?thesis by simp
next
  case (Some e)
  obtain k' v' where e: "e = (k', v')" by (cases e)
  with Some have "gget m k' = Some v'" "p k' v'"
    using gfind_gget [OF assms(1), of p k' v'] by simp_all
  with assms(2) assms(4) [of k' v'] Some e show ?thesis by simp
qed

text \<open>
  The contract of a table: rows are written by key, and a listing yields exactly the rows that a
  lookup finds.  The second locale adds removal.
\<close>

locale row_table =
  fixes look :: "'s \<Rightarrow> 'k \<Rightarrow> 'v option"
    and put_row :: "'v \<Rightarrow> 's \<Rightarrow> 's"
    and rows :: "'s \<Rightarrow> 'v list"
    and row_key :: "'v \<Rightarrow> 'k"
    and ok :: "'s \<Rightarrow> bool"
  assumes look_put: "ok s \<Longrightarrow> look (put_row v s) k = (if k = row_key v then Some v else look s k)"
    and ok_put: "ok s \<Longrightarrow> ok (put_row v s)"
    and rows_look: "ok s \<Longrightarrow> v \<in> set (rows s) \<longleftrightarrow> look s (row_key v) = Some v"
    and rows_distinct: "ok s \<Longrightarrow> distinct (map row_key (rows s))"
begin

lemma rows_put: "ok s \<Longrightarrow> set (rows (put_row v s)) = insert v {w \<in> set (rows s). row_key w \<noteq> row_key v}"
  by (auto simp: rows_look ok_put look_put split: if_splits)

lemma put_idem: "ok s \<Longrightarrow> set (rows (put_row v (put_row v s))) = set (rows (put_row v s))"
  by (auto simp: rows_put ok_put)

lemma length_rows: "ok s \<Longrightarrow> length (rows s) = card (set (rows s))"
  using rows_distinct [of s] by (metis distinct_card distinct_map)

lemma rows_mset:
  assumes "ok s" and "ok t" and "look s = look t"
  shows "mset (rows s) = mset (rows t)"
proof -
  have "set (rows s) = set (rows t)"
    using assms rows_look by auto
  moreover have "distinct (rows s)" "distinct (rows t)"
    using assms(1,2) rows_distinct by (auto simp: distinct_map)
  ultimately show ?thesis by (simp add: set_eq_iff_mset_eq_distinct)
qed

end

locale table = row_table look put_row rows row_key ok
  for look :: "'s \<Rightarrow> 'k \<Rightarrow> 'v option" and put_row rows row_key ok +
  fixes del_row :: "'k \<Rightarrow> 's \<Rightarrow> 's"
  assumes look_del: "ok s \<Longrightarrow> look (del_row k s) k' = (if k' = k then None else look s k')"
    and ok_del: "ok s \<Longrightarrow> ok (del_row k s)"
begin

lemma rows_del: "ok s \<Longrightarrow> set (rows (del_row k s)) = {w \<in> set (rows s). row_key w \<noteq> k}"
  by (auto simp: rows_look ok_del look_del split: if_splits)

lemma rows_del_put:
  "ok s \<Longrightarrow> set (rows (del_row (row_key v) (put_row v s))) = set (rows (del_row (row_key v) s))"
  by (auto simp: rows_del rows_put ok_put)

end

end
