(* ===== verification/Store_Members.thy ===== *)
theory Store_Members
  imports Store
begin

text \<open>
  The members table (\<open>p2p/storage/memory_members.go\<close>).  Rows are keyed by room and user and hold a
  normalised membership; the lemmas give the behaviour of the guarded writes, show that a stale
  generation never overwrites a newer one, and that the listing of a room does not depend on the
  iteration order of the map.
\<close>

section \<open>Definitions\<close>

definition memoryMemberKey :: "string \<Rightarrow> string \<Rightarrow> string" where
  "memoryMemberKey roomID userID = roomID @ ''|'' @ userID"

definition normalizeMemberRecord :: "member_record \<Rightarrow> member_record" where
  "normalizeMemberRecord r = r\<lparr>mb_Membership := NormalizeMemberMembership (mb_Membership r)\<rparr>"

definition normalizeStoredProductMemberRole :: "string \<Rightarrow> string" where
  "normalizeStoredProductMemberRole role =
     (if go_equal_fold (go_trim role) ''owner'' then ''owner'' else ''member'')"

definition UpsertMember :: "member_record \<Rightarrow> memory_store \<Rightarrow> memory_store" where
  "UpsertMember member s =
     (let member = normalizeMemberRecord member in
      s\<lparr>ms_members := gput (memoryMemberKey (mb_RoomID member) (mb_UserID member)) member (ms_members s)\<rparr>)"

definition InsertMemberIfAbsent :: "member_record \<Rightarrow> memory_store \<Rightarrow> bool \<times> memory_store" where
  "InsertMemberIfAbsent member s =
     (let member = normalizeMemberRecord member;
          key = memoryMemberKey (mb_RoomID member) (mb_UserID member)
      in if gget (ms_members s) key \<noteq> None then (False, s)
         else (True, s\<lparr>ms_members := gput key member (ms_members s)\<rparr>))"

definition CompareAndSwapMemberGeneration ::
  "member_record \<Rightarrow> string \<Rightarrow> string \<Rightarrow> memory_store \<Rightarrow> bool \<times> memory_store" where
  "CompareAndSwapMemberGeneration member expectedRequestID expectedMembership s =
     (let member = normalizeMemberRecord member;
          expectedMembership = NormalizeMemberMembership expectedMembership;
          key = memoryMemberKey (mb_RoomID member) (mb_UserID member)
      in case gget (ms_members s) key of
           None \<Rightarrow> (False, s)
         | Some current \<Rightarrow>
             if mb_RequestID current \<noteq> expectedRequestID
                \<or> expectedMembership \<noteq> []
                  \<and> \<not> go_equal_fold (go_trim (mb_Membership current)) (go_trim expectedMembership)
             then (False, s)
             else (True, s\<lparr>ms_members := gput key member (ms_members s)\<rparr>))"

definition LookupMember :: "memory_store \<Rightarrow> string \<Rightarrow> string \<Rightarrow> member_record option" where
  "LookupMember s roomID userID = gget (ms_members s) (memoryMemberKey roomID userID)"

definition memoryMemberHidden :: "string \<Rightarrow> bool" where
  "memoryMemberHidden membership \<longleftrightarrow> go_lower (go_trim membership) \<in> set
     [''leave'', ''left'', ''remove'', ''removed'', ''reject'', ''rejected'', ''ban'', ''banned'']"

text \<open>The comparator of \<open>sortMemoryMembers\<close>: by joining time, unknown times last, then by user.\<close>

definition memberLess :: "member_record \<Rightarrow> member_record \<Rightarrow> bool" where
  "memberLess left right =
     (if mb_JoinedAt left \<noteq> mb_JoinedAt right then
        if mb_JoinedAt left = 0 then False
        else if mb_JoinedAt right = 0 then True
        else mb_JoinedAt left < mb_JoinedAt right
      else mb_UserID left < mb_UserID right)"

definition sortMemoryMembers :: "member_record list \<Rightarrow> member_record list" where
  "sortMemoryMembers = go_sort memberLess"

definition member_scope :: "string \<Rightarrow> string \<Rightarrow> member_record \<Rightarrow> bool" where
  "member_scope roomID channelID m \<longleftrightarrow>
     \<not> (roomID \<noteq> [] \<and> mb_RoomID m \<noteq> roomID) \<and> \<not> (channelID \<noteq> [] \<and> mb_ChannelID m \<noteq> channelID)"

definition ListMembers :: "memory_store \<Rightarrow> string \<Rightarrow> string \<Rightarrow> member_record list" where
  "ListMembers s roomID channelID =
     sortMemoryMembers (filter (member_scope roomID channelID) (gvals (ms_members s)))"

definition ListMembersForUser :: "memory_store \<Rightarrow> string \<Rightarrow> member_record list" where
  "ListMembersForUser s userID =
     filter (\<lambda>m. mb_UserID m = userID \<and> \<not> memoryMemberHidden (mb_Membership m)) (gvals (ms_members s))"

definition count_member :: "string \<Rightarrow> string \<Rightarrow> member_record \<Rightarrow> int \<times> int \<Rightarrow> int \<times> int" where
  "count_member roomID channelID m = (\<lambda>(joined, pending).
     if roomID = [] \<and> channelID = [] then (joined, pending)
     else if \<not> member_scope roomID channelID m then (joined, pending)
     else if go_lower (go_trim (mb_Membership m)) = ''join'' then (joined + 1, pending)
     else if go_lower (go_trim (mb_Membership m)) = ''pending'' then (joined, pending + 1)
     else (joined, pending))"

definition CountProductMembers :: "memory_store \<Rightarrow> string \<Rightarrow> string \<Rightarrow> int \<times> int" where
  "CountProductMembers s roomID channelID =
     fold (count_member roomID channelID) (gvals (ms_members s)) (0, 0)"

definition CountJoinedMembers :: "memory_store \<Rightarrow> string \<Rightarrow> string \<Rightarrow> int" where
  "CountJoinedMembers s roomID channelID = fst (CountProductMembers s roomID channelID)"

text \<open>The zero value of the struct.\<close>

definition zero_member :: member_record where
  "zero_member = \<lparr>mb_RoomID = [], mb_ChannelID = [], mb_UserID = [], mb_DisplayName = [],
     mb_AvatarURL = [], mb_Domain = [], mb_Membership = [], mb_Role = [], mb_Muted = False,
     mb_JoinedAt = 0, mb_RequesterNodeBaseURL = [], mb_RequestID = []\<rparr>"

text \<open>The invariant of the table: keyed rows with normalised memberships.\<close>

definition member_row_key :: "member_record \<Rightarrow> string" where
  "member_row_key m = memoryMemberKey (mb_RoomID m) (mb_UserID m)"

definition members_ok :: "memory_store \<Rightarrow> bool" where
  "members_ok s \<longleftrightarrow> keyed member_row_key (ms_members s) \<and>
     vals_all (\<lambda>m. NormalizeMemberMembership (mb_Membership m) = mb_Membership m) (ms_members s)"

lemmas member_ops [store_ops] =
  UpsertMember_def InsertMemberIfAbsent_def CompareAndSwapMemberGeneration_def LookupMember_def

section \<open>The invariant\<close>

lemma members_okD:
  assumes "members_ok s" and "LookupMember s r u = Some m"
  shows "member_row_key m = memoryMemberKey r u"
    and "NormalizeMemberMembership (mb_Membership m) = mb_Membership m"
  using assms
  by (auto simp: members_ok_def LookupMember_def dest: keyed_key vals_all_gget)

lemma members_ok_put:
  assumes "members_ok s" and "NormalizeMemberMembership (mb_Membership m) = mb_Membership m"
  shows "members_ok (s\<lparr>ms_members := gput (member_row_key m) m (ms_members s)\<rparr>)"
  using assms
  by (simp add: members_ok_def)

lemma normalize_row [simp]:
  "member_row_key (normalizeMemberRecord m) = member_row_key m"
  "mb_RoomID (normalizeMemberRecord m) = mb_RoomID m"
  "mb_UserID (normalizeMemberRecord m) = mb_UserID m"
  "mb_RequestID (normalizeMemberRecord m) = mb_RequestID m"
  "mb_Membership (normalizeMemberRecord m) = NormalizeMemberMembership (mb_Membership m)"
  "normalizeMemberRecord (normalizeMemberRecord m) = normalizeMemberRecord m"
  by (simp_all add: normalizeMemberRecord_def member_row_key_def)

lemma members_ok_new: "members_ok NewMemoryStore"
  by (simp add: members_ok_def NewMemoryStore_def)

lemma members_ok_UpsertMember: "members_ok s \<Longrightarrow> members_ok (UpsertMember m s)"
  using members_ok_put [of s "normalizeMemberRecord m"]
  by (simp add: UpsertMember_def Let_def member_row_key_def)

lemma members_ok_InsertMemberIfAbsent:
  "members_ok s \<Longrightarrow> members_ok (snd (InsertMemberIfAbsent m s))"
  using members_ok_put [of s "normalizeMemberRecord m"]
  by (simp add: InsertMemberIfAbsent_def Let_def member_row_key_def)

lemma members_ok_CompareAndSwap:
  "members_ok s \<Longrightarrow> members_ok (snd (CompareAndSwapMemberGeneration m e x s))"
  using members_ok_put [of s "normalizeMemberRecord m"]
  by (simp add: CompareAndSwapMemberGeneration_def Let_def member_row_key_def split: option.split)

section \<open>Guarded writes\<close>

lemma CompareAndSwap_iff:
  "fst (CompareAndSwapMemberGeneration m e x s) \<longleftrightarrow>
     (\<exists>c. LookupMember s (mb_RoomID m) (mb_UserID m) = Some c \<and> mb_RequestID c = e \<and>
        (NormalizeMemberMembership x = [] \<or>
         go_equal_fold (go_trim (mb_Membership c)) (NormalizeMemberMembership x)))"
  by (auto simp: CompareAndSwapMemberGeneration_def LookupMember_def Let_def split: option.split)

lemma CompareAndSwap_state:
  "snd (CompareAndSwapMemberGeneration m e x s) =
     (if fst (CompareAndSwapMemberGeneration m e x s) then UpsertMember m s else s)"
  by (auto simp: CompareAndSwapMemberGeneration_def UpsertMember_def Let_def split: option.split)

lemma Lookup_UpsertMember:
  "LookupMember (UpsertMember m s) r u =
     (if memoryMemberKey r u = member_row_key m then Some (normalizeMemberRecord m)
      else LookupMember s r u)"
  by (auto simp: LookupMember_def UpsertMember_def Let_def member_row_key_def)

section \<open>Listings and counts\<close>

interpretation member_order: key_comparator memberLess
  "\<lambda>m. (mb_JoinedAt m = 0, mb_JoinedAt m, mb_UserID m)"
  by unfold_locales (auto simp: memberLess_def less_prod_def' )

lemma member_row_key_room:
  "mb_RoomID m = mb_RoomID n \<Longrightarrow> member_row_key m = member_row_key n \<longleftrightarrow> mb_UserID m = mb_UserID n"
  by (simp add: member_row_key_def memoryMemberKey_def)

lemma fold_count_member:
  "roomID \<noteq> [] \<or> channelID \<noteq> [] \<Longrightarrow>
   fold (count_member roomID channelID) ms (j, p) =
     (j + int (length (filter (\<lambda>m. member_scope roomID channelID m \<and>
                        go_lower (go_trim (mb_Membership m)) = ''join'') ms)),
      p + int (length (filter (\<lambda>m. member_scope roomID channelID m \<and>
                        go_lower (go_trim (mb_Membership m)) = ''pending'') ms)))"
  by (induction ms arbitrary: j p) (auto simp: count_member_def)

lemma scoped_members_distinct:
  assumes "members_ok s" and "roomID \<noteq> []"
  shows "distinct (map mb_UserID (filter (member_scope roomID channelID) (gvals (ms_members s))))"
proof -
  let ?xs = "filter (member_scope roomID channelID) (gvals (ms_members s))"
  have "distinct (map member_row_key (gvals (ms_members s)))"
    using assms(1) by (simp add: members_ok_def keyed_distinct)
  then have "distinct (map member_row_key ?xs)" by (rule distinct_map_filter)
  moreover have "mb_RoomID m = roomID" if "m \<in> set ?xs" for m
    using that assms(2) by (simp add: member_scope_def)
  ultimately show ?thesis
    unfolding distinct_map inj_on_def using member_row_key_room by metis
qed

section \<open>Properties\<close>

text \<open>A request generation is consumed at most once.  After a successful
  \<open>CompareAndSwapMemberGeneration\<close> whose row carries a new request id, every further swap of the
  same room and user that still expects the old id is refused and leaves the store as it is; the row
  written is the normalised one.\<close>

theorem member_generation_once:
  assumes "CompareAndSwapMemberGeneration m e x s = (True, s')"
    and "mb_RequestID m \<noteq> e"
    and "mb_RoomID n = mb_RoomID m" and "mb_UserID n = mb_UserID m"
  shows "LookupMember s' (mb_RoomID m) (mb_UserID m) = Some (normalizeMemberRecord m) \<and>
         CompareAndSwapMemberGeneration n e y s' = (False, s')"
proof -
  have s': "s' = UpsertMember m s"
    using CompareAndSwap_state [of m e x s] assms(1) by simp
  then have look: "LookupMember s' (mb_RoomID m) (mb_UserID m) = Some (normalizeMemberRecord m)"
    by (simp add: Lookup_UpsertMember member_row_key_def)
  then have "\<not> fst (CompareAndSwapMemberGeneration n e y s')"
    using assms(2-4) by (simp add: CompareAndSwap_iff)
  then show ?thesis
    using look CompareAndSwap_state [of n e y s'] by (simp add: prod_eq_iff)
qed

theorem member_generation_once_witness:
  "let m = zero_member\<lparr>mb_RoomID := ''!r:x'', mb_UserID := ''@u:x'', mb_Membership := '' Joined '',
             mb_RequestID := ''q1''\<rparr>;
       n = m\<lparr>mb_RequestID := ''q2'', mb_Membership := ''leave''\<rparr>;
       s = UpsertMember m NewMemoryStore;
       s' = snd (CompareAndSwapMemberGeneration n ''q1'' ''joined'' s)
   in fst (CompareAndSwapMemberGeneration n ''q1'' ''joined'' s) \<and>
      CompareAndSwapMemberGeneration m ''q1'' [] s' = (False, s')"
proof -
  define m where "m = zero_member\<lparr>mb_RoomID := ''!r:x'', mb_UserID := ''@u:x'',
    mb_Membership := '' Joined '', mb_RequestID := ''q1''\<rparr>"
  define n where "n = m\<lparr>mb_RequestID := ''q2'', mb_Membership := ''leave''\<rparr>"
  define s where "s = UpsertMember m NewMemoryStore"
  have norm: "NormalizeMemberMembership '' Joined '' = ''join''"
    "NormalizeMemberMembership ''joined'' = ''join''" by code_simp+
  have ok: "fst (CompareAndSwapMemberGeneration n ''q1'' ''joined'' s)"
    by (simp add: CompareAndSwap_iff s_def Lookup_UpsertMember n_def m_def zero_member_def
        member_row_key_def norm literal_eval)
  then have "CompareAndSwapMemberGeneration n ''q1'' ''joined'' s =
      (True, snd (CompareAndSwapMemberGeneration n ''q1'' ''joined'' s))"
    by (simp add: prod_eq_iff)
  from member_generation_once [OF this, of m "[]"] ok show ?thesis
    by (simp add: Let_def n_def m_def s_def zero_member_def)
qed

text \<open>The member listing of a room does not depend on the iteration order of the Go map: two
  stores that hold the same rows list them in the same order, and the order is by joining time with
  unknown times last, then by user.\<close>

theorem ListMembers_deterministic:
  assumes "members_ok s" and "members_ok t" and "gget (ms_members s) = gget (ms_members t)"
    and "roomID \<noteq> []"
  shows "ListMembers s roomID channelID = ListMembers t roomID channelID \<and>
         sorted_wrt memberLess (ListMembers s roomID channelID)"
proof -
  let ?k = "\<lambda>m. (mb_JoinedAt m = 0, mb_JoinedAt m, mb_UserID m)"
  let ?xs = "filter (member_scope roomID channelID) (gvals (ms_members s))"
  have "mset (gvals (ms_members s)) = mset (gvals (ms_members t))"
    using assms(1-3) by (intro gvals_unique) (auto simp: members_ok_def keyed_gmap_ok)
  then have "mset ?xs = mset (filter (member_scope roomID channelID) (gvals (ms_members t)))"
    by (simp add: mset_filter)
  moreover have d: "distinct (map ?k ?xs)"
    by (rule distinct_map_via [OF scoped_members_distinct [OF assms(1,4)]]) simp
  ultimately show ?thesis
    unfolding ListMembers_def sortMemoryMembers_def
    using member_order.go_sort_order_independent member_order.sorted_strict [OF d] by blast
qed

theorem ListMembers_deterministic_witness:
  "let a = zero_member\<lparr>mb_RoomID := ''!r:x'', mb_UserID := ''@a:x''\<rparr>;
       b = a\<lparr>mb_UserID := ''@b:x'', mb_JoinedAt := 7\<rparr>
   in ListMembers (UpsertMember a (UpsertMember b NewMemoryStore)) ''!r:x'' [] =
      ListMembers (UpsertMember b (UpsertMember a NewMemoryStore)) ''!r:x'' []"
proof -
  define a where "a = zero_member\<lparr>mb_RoomID := ''!r:x'', mb_UserID := ''@a:x''\<rparr>"
  define b where "b = a\<lparr>mb_UserID := ''@b:x'', mb_JoinedAt := 7\<rparr>"
  have "gget (ms_members (UpsertMember a (UpsertMember b NewMemoryStore))) =
      gget (ms_members (UpsertMember b (UpsertMember a NewMemoryStore)))"
    by (auto simp: UpsertMember_def Let_def a_def b_def zero_member_def memoryMemberKey_def)
  from ListMembers_deterministic [OF _ _ this, of "''!r:x''" "[]"] show ?thesis
    by (simp add: members_ok_UpsertMember members_ok_new a_def b_def)
qed

text \<open>The two counters of \<open>CountProductMembers\<close> are the numbers of rows of the scope whose
  membership is join and pending; without a room and a channel they are zero.\<close>

theorem CountProductMembers_spec:
  "CountProductMembers s roomID channelID =
     (let n = (\<lambda>status. int (length (filter (\<lambda>m. member_scope roomID channelID m \<and>
                 go_lower (go_trim (mb_Membership m)) = status) (gvals (ms_members s)))))
      in if roomID = [] \<and> channelID = [] then (0, 0) else (n ''join'', n ''pending''))"
proof (cases "roomID = [] \<and> channelID = []")
  case True
  have "fold (count_member roomID channelID) ms (0, 0) = (0, 0)" for ms
    by (induction ms) (auto simp: count_member_def True)
  with True show ?thesis by (simp add: CountProductMembers_def)
next
  case False
  then have ne: "roomID \<noteq> [] \<or> channelID \<noteq> []" by blast
  with False show ?thesis
    by (simp only: CountProductMembers_def fold_count_member [OF ne] Let_def if_False) simp
qed

end
