(* ===== verification/Store_Tables.thy ===== *)
theory Store_Tables
  imports Store_Members
begin

text \<open>
  The tables of \<open>p2p/storage/memory_channels.go\<close>, \<open>memory_social.go\<close>, \<open>memory_reports.go\<close>,
  \<open>memory_plugins.go\<close> and of the groups, calls and blocks of \<open>memory_relationships.go\<close>.  The tables
  interpret the contract of \<open>Store\<close>; the listings that sort are shown to be independent of the
  iteration order of the map, or shown not to be.
\<close>

section \<open>Channels\<close>

definition UpsertChannel :: "channel \<Rightarrow> memory_store \<Rightarrow> memory_store" where
  "UpsertChannel ch s = s\<lparr>ms_channels := gput (ch_ChannelID ch) ch (ms_channels s)\<rparr>"

definition DeleteChannel :: "string \<Rightarrow> memory_store \<Rightarrow> memory_store" where
  "DeleteChannel channelID s = s\<lparr>ms_channels := gdel channelID (ms_channels s)\<rparr>"

definition ListChannels :: "memory_store \<Rightarrow> channel list" where
  "ListChannels s = gvals (ms_channels s)"

definition GetChannelByIDOrRoom :: "memory_store \<Rightarrow> string \<Rightarrow> string \<Rightarrow> channel option" where
  "GetChannelByIDOrRoom s channelID roomID =
     (if channelID = [] \<and> roomID = [] then None
      else map_option snd (gfind (\<lambda>_ ch. channelID \<noteq> [] \<and> ch_ChannelID ch = channelID
                                      \<or> roomID \<noteq> [] \<and> ch_RoomID ch = roomID) (ms_channels s)))"

text \<open>One pass over the members fills the two indexes; a later row of the same channel replaces an
  earlier one.\<close>

definition index_member ::
  "string \<Rightarrow> member_record
   \<Rightarrow> (string, member_record) gomap \<times> (string, member_record) gomap
   \<Rightarrow> (string, member_record) gomap \<times> (string, member_record) gomap" where
  "index_member userID m = (\<lambda>(byChannel, byRoom).
     if mb_UserID m \<noteq> userID \<or> memoryMemberHidden (mb_Membership m)
        \<or> \<not> go_equal_fold (go_trim (mb_Membership m)) ''join''
     then (byChannel, byRoom)
     else (if mb_ChannelID m \<noteq> [] then gput (mb_ChannelID m) m byChannel else byChannel,
           if mb_RoomID m \<noteq> [] then gput (mb_RoomID m) m byRoom else byRoom))"

definition joined_view :: "member_record \<Rightarrow> channel \<Rightarrow> channel" where
  "joined_view member ch =
     (let role = normalizeStoredProductMemberRole (mb_Role member)
      in ch\<lparr>ch_Role := role, ch_MemberStatus := ''join'', ch_IsOwned := go_equal_fold role ''owner''\<rparr>)"

definition ListJoinedChannelsForUser :: "memory_store \<Rightarrow> string \<Rightarrow> channel list" where
  "ListJoinedChannelsForUser s userID =
     (let (byChannel, byRoom) = fold (index_member userID) (gvals (ms_members s)) (gempty, gempty)
      in List.map_filter
           (\<lambda>ch. case gget byChannel (ch_ChannelID ch) of
                   Some member \<Rightarrow> Some (joined_view member ch)
                 | None \<Rightarrow> map_option (\<lambda>member. joined_view member ch) (gget byRoom (ch_RoomID ch)))
           (gvals (ms_channels s)))"

text \<open>\<open>to_lower\<close> is \<open>strings.ToLower\<close>, whose Unicode case table is not spelled out.\<close>

definition SearchPublicChannels ::
  "(string \<Rightarrow> string) \<Rightarrow> memory_store \<Rightarrow> string \<Rightarrow> int \<Rightarrow> channel list" where
  "SearchPublicChannels to_lower s query limit =
     (let limit = (if limit \<le> 0 \<or> limit > 100 then 20 else limit);
          query = to_lower (go_trim query)
      in take (nat limit) (filter
           (\<lambda>ch. go_equal_fold (ch_Visibility ch) ''public'' \<and>
              (query = [] \<or> go_contains (to_lower (ch_ChannelID ch @ '' '' @ ch_RoomID ch @ '' ''
                              @ ch_Name ch @ '' '' @ ch_Description ch)) query))
           (gvals (ms_channels s))))"

definition channelLess :: "channel \<Rightarrow> channel \<Rightarrow> bool" where
  "channelLess a b = (if ch_Name a = ch_Name b then ch_ChannelID a < ch_ChannelID b
                      else ch_Name a < ch_Name b)"

definition owned_row :: "string \<Rightarrow> member_record \<Rightarrow> bool" where
  "owned_row userID m \<longleftrightarrow> \<not> (mb_UserID m \<noteq> userID \<or> memoryMemberHidden (mb_Membership m)
                                  \<or> \<not> go_equal_fold (mb_Role m) ''owner'')"

definition ListPublicChannelsForOwner :: "memory_store \<Rightarrow> string \<Rightarrow> channel list" where
  "ListPublicChannelsForOwner s userID =
     (let owned = filter (owned_row userID) (gvals (ms_members s));
          ownedChannelIDs = filter (\<lambda>i. i \<noteq> []) (map mb_ChannelID owned);
          ownedRoomIDs = filter (\<lambda>i. i \<noteq> []) (map mb_RoomID owned)
      in go_sort channelLess (filter
           (\<lambda>ch. \<not> ((ch_ChannelID ch \<notin> set ownedChannelIDs \<and> ch_RoomID ch \<notin> set ownedRoomIDs)
                     \<or> \<not> go_equal_fold (ch_Visibility ch) ''public''))
           (gvals (ms_channels s))))"

definition UpsertChannelInviteGrant :: "channel_invite_grant \<Rightarrow> memory_store \<Rightarrow> memory_store" where
  "UpsertChannelInviteGrant g s = s\<lparr>ms_inviteGrants := gput (ig_GrantID g) g (ms_inviteGrants s)\<rparr>"

definition grantLess :: "channel_invite_grant \<Rightarrow> channel_invite_grant \<Rightarrow> bool" where
  "grantLess a b = (if ig_CreatedAt a = ig_CreatedAt b then ig_GrantID a < ig_GrantID b
                    else ig_CreatedAt a > ig_CreatedAt b)"

definition ListChannelInviteGrants :: "memory_store \<Rightarrow> channel_invite_grant list" where
  "ListChannelInviteGrants s = go_sort grantLess (gvals (ms_inviteGrants s))"

section \<open>Blocks, groups and calls\<close>

definition block_row_key :: "block_record \<Rightarrow> string" where
  "block_row_key b = BlockKey (bl_TargetType b) (bl_TargetID b)"

definition UpsertBlock :: "block_record \<Rightarrow> memory_store \<Rightarrow> memory_store" where
  "UpsertBlock block s =
     s\<lparr>ms_blocks := gput (BlockKey (bl_TargetType block) (bl_TargetID block)) block (ms_blocks s)\<rparr>"

definition DeleteBlock :: "string \<Rightarrow> string \<Rightarrow> memory_store \<Rightarrow> bool \<times> memory_store" where
  "DeleteBlock targetType targetID s =
     (let key = BlockKey targetType targetID
      in (gget (ms_blocks s) key \<noteq> None, s\<lparr>ms_blocks := gdel key (ms_blocks s)\<rparr>))"

definition blockLess :: "(string \<Rightarrow> string) \<Rightarrow> block_record \<Rightarrow> block_record \<Rightarrow> bool" where
  "blockLess to_lower a b =
     (if bl_TargetType a \<noteq> bl_TargetType b then bl_TargetType a < bl_TargetType b
      else if bl_DisplayName a \<noteq> bl_DisplayName b
      then to_lower (bl_DisplayName a) < to_lower (bl_DisplayName b)
      else bl_TargetID a < bl_TargetID b)"

definition ListBlocks :: "(string \<Rightarrow> string) \<Rightarrow> memory_store \<Rightarrow> block_record list" where
  "ListBlocks to_lower s = go_sort (blockLess to_lower) (gvals (ms_blocks s))"

definition UpsertGroup :: "group_record \<Rightarrow> memory_store \<Rightarrow> memory_store" where
  "UpsertGroup g s = s\<lparr>ms_groups := gput (gr_RoomID g) g (ms_groups s)\<rparr>"

definition DeleteGroup :: "string \<Rightarrow> memory_store \<Rightarrow> memory_store" where
  "DeleteGroup roomID s = s\<lparr>ms_groups := gdel roomID (ms_groups s)\<rparr>"

definition ListGroups :: "memory_store \<Rightarrow> group_record list" where
  "ListGroups s = gvals (ms_groups s)"

definition GetGroupByRoom :: "memory_store \<Rightarrow> string \<Rightarrow> group_record option" where
  "GetGroupByRoom s roomID = (if roomID = [] then None else gget (ms_groups s) roomID)"

definition ListJoinedGroupsForUser :: "memory_store \<Rightarrow> string \<Rightarrow> group_record list" where
  "ListJoinedGroupsForUser s userID =
     (let joinedRooms = map mb_RoomID (filter
            (\<lambda>m. mb_UserID m = userID \<and> mb_ChannelID m = [] \<and> \<not> memoryMemberHidden (mb_Membership m)
                \<and> go_equal_fold (go_trim (mb_Membership m)) ''join'') (gvals (ms_members s)))
      in filter (\<lambda>g. gr_RoomID g \<in> set joinedRooms) (gvals (ms_groups s)))"

definition UpsertCall :: "call_record \<Rightarrow> memory_store \<Rightarrow> memory_store" where
  "UpsertCall call s = s\<lparr>ms_calls := gput (ca_CallID call) call (ms_calls s)\<rparr>"

definition ListCalls :: "memory_store \<Rightarrow> string \<Rightarrow> bool \<Rightarrow> call_record list" where
  "ListCalls s roomID activeOnly =
     filter (\<lambda>call. \<not> (roomID \<noteq> [] \<and> ca_RoomID call \<noteq> roomID) \<and>
                    \<not> (activeOnly \<and> TerminalCallState (ca_State call))) (gvals (ms_calls s))"

section \<open>Favorites, follows, reactions, reports\<close>

definition UpsertFavorite :: "favorite_record \<Rightarrow> memory_store \<Rightarrow> memory_store" where
  "UpsertFavorite f s = s\<lparr>ms_favorites := gput (fv_ID f) f (ms_favorites s)\<rparr>"

definition FindFavoriteByEvent :: "memory_store \<Rightarrow> string \<Rightarrow> string \<Rightarrow> favorite_record option" where
  "FindFavoriteByEvent s eventID roomID = map_option snd (gfind
     (\<lambda>_ f. \<not> (eventID = [] \<or> fv_EventID f \<noteq> eventID) \<and>
            \<not> (roomID \<noteq> [] \<and> fv_RoomID f \<noteq> [] \<and> fv_RoomID f \<noteq> roomID)) (ms_favorites s))"

definition ListFavorites :: "memory_store \<Rightarrow> string \<Rightarrow> favorite_record list" where
  "ListFavorites s messageType =
     filter (\<lambda>f. messageType = [] \<or> fv_MessageType f = messageType) (gvals (ms_favorites s))"

definition DeleteFavorite :: "int \<Rightarrow> memory_store \<Rightarrow> memory_store" where
  "DeleteFavorite i s = s\<lparr>ms_favorites := gdel i (ms_favorites s)\<rparr>"

definition UpsertFollow :: "follow_record \<Rightarrow> memory_store \<Rightarrow> memory_store" where
  "UpsertFollow f s = s\<lparr>ms_follows := gput (fo_Domain f) f (ms_follows s)\<rparr>"

definition ListFollows :: "memory_store \<Rightarrow> follow_record list" where
  "ListFollows s = gvals (ms_follows s)"

definition DeleteFollow :: "string \<Rightarrow> memory_store \<Rightarrow> memory_store" where
  "DeleteFollow domain s = s\<lparr>ms_follows := gdel domain (ms_follows s)\<rparr>"

definition memoryReactionKey :: "string \<Rightarrow> string \<Rightarrow> string \<Rightarrow> string \<Rightarrow> string" where
  "memoryReactionKey targetType targetID reaction userID =
     targetType @ ''|'' @ targetID @ ''|'' @ reaction @ ''|'' @ userID"

definition reaction_row_key :: "reaction_record \<Rightarrow> string" where
  "reaction_row_key r = memoryReactionKey (re_TargetType r) (re_TargetID r) (re_Reaction r) (re_UserID r)"

definition UpsertReaction :: "reaction_record \<Rightarrow> memory_store \<Rightarrow> memory_store" where
  "UpsertReaction r s = s\<lparr>ms_reactions := gput
     (memoryReactionKey (re_TargetType r) (re_TargetID r) (re_Reaction r) (re_UserID r)) r (ms_reactions s)\<rparr>"

definition GetReaction ::
  "memory_store \<Rightarrow> string \<Rightarrow> string \<Rightarrow> string \<Rightarrow> string \<Rightarrow> reaction_record option" where
  "GetReaction s targetType targetID reaction userID =
     gget (ms_reactions s) (memoryReactionKey targetType targetID reaction userID)"

definition DeactivateReactionByEventID :: "string \<Rightarrow> memory_store \<Rightarrow> bool \<times> memory_store" where
  "DeactivateReactionByEventID eventID s =
     (case gfind (\<lambda>_ r. re_EventID r = eventID \<and> re_Active r) (ms_reactions s) of
        Some (key, r) \<Rightarrow> (True, s\<lparr>ms_reactions := gput key (r\<lparr>re_Active := False\<rparr>) (ms_reactions s)\<rparr>)
      | None \<Rightarrow> (False, s))"

definition CountActiveReactions :: "memory_store \<Rightarrow> string \<Rightarrow> string \<Rightarrow> string \<Rightarrow> int" where
  "CountActiveReactions s targetType targetID reaction = int (length (filter
     (\<lambda>r. re_TargetType r = targetType \<and> re_TargetID r = targetID \<and> re_Reaction r = reaction \<and> re_Active r)
     (gvals (ms_reactions s))))"

definition ListReactions :: "memory_store \<Rightarrow> string \<Rightarrow> reaction_record list" where
  "ListReactions s userID = filter (\<lambda>r. re_UserID r = userID \<and> re_Active r) (gvals (ms_reactions s))"

definition InsertReport :: "report_record \<Rightarrow> memory_store \<Rightarrow> memory_store" where
  "InsertReport r s = s\<lparr>ms_reports := gput (rp_ReportID r) r (ms_reports s)\<rparr>"

section \<open>Plugins\<close>

definition UpsertPlugin :: "plugin_instance \<Rightarrow> memory_store \<Rightarrow> memory_store" where
  "UpsertPlugin p s = s\<lparr>ms_plugins := gput (pl_ID p) p (ms_plugins s)\<rparr>"

definition ListPlugins :: "memory_store \<Rightarrow> plugin_instance list" where
  "ListPlugins s = gvals (ms_plugins s)"

definition GetPlugin :: "memory_store \<Rightarrow> string \<Rightarrow> plugin_instance option" where
  "GetPlugin s i = gget (ms_plugins s) i"

definition UpsertPluginJob :: "plugin_job \<Rightarrow> memory_store \<Rightarrow> memory_store" where
  "UpsertPluginJob j s = s\<lparr>ms_pluginJobs := gput (pj_JobID j) j (ms_pluginJobs s)\<rparr>"

definition GetPluginJob :: "memory_store \<Rightarrow> string \<Rightarrow> plugin_job option" where
  "GetPluginJob s i = gget (ms_pluginJobs s) i"

definition UpsertPluginSecret :: "plugin_secret \<Rightarrow> memory_store \<Rightarrow> memory_store" where
  "UpsertPluginSecret k s =
     (let secrets = (case gget (ms_pluginSecrets s) (pk_PluginID k) of None \<Rightarrow> gempty | Some m \<Rightarrow> m)
      in s\<lparr>ms_pluginSecrets := gput (pk_PluginID k) (gput (pk_Name k) k secrets) (ms_pluginSecrets s)\<rparr>)"

definition GetPluginSecret :: "memory_store \<Rightarrow> string \<Rightarrow> string \<Rightarrow> plugin_secret option" where
  "GetPluginSecret s pluginID name =
     (case gget (ms_pluginSecrets s) pluginID of None \<Rightarrow> None | Some m \<Rightarrow> gget m name)"

lemmas table_ops [store_ops] =
  UpsertChannel_def DeleteChannel_def UpsertChannelInviteGrant_def UpsertBlock_def DeleteBlock_def
  UpsertGroup_def DeleteGroup_def UpsertCall_def UpsertFavorite_def DeleteFavorite_def
  UpsertFollow_def DeleteFollow_def UpsertReaction_def InsertReport_def UpsertPlugin_def
  UpsertPluginJob_def UpsertPluginSecret_def

section \<open>The table contract\<close>

lemmas table_intros = keyed_vals keyed_distinct

interpretation channels: table
  "\<lambda>s. gget (ms_channels s)" UpsertChannel ListChannels ch_ChannelID
  "\<lambda>s. keyed ch_ChannelID (ms_channels s)" DeleteChannel
  by unfold_locales
    (auto simp: UpsertChannel_def DeleteChannel_def ListChannels_def table_intros)

interpretation groups: table
  "\<lambda>s. gget (ms_groups s)" UpsertGroup ListGroups gr_RoomID
  "\<lambda>s. keyed gr_RoomID (ms_groups s)" DeleteGroup
  by unfold_locales (auto simp: UpsertGroup_def DeleteGroup_def ListGroups_def table_intros)

interpretation follows: table
  "\<lambda>s. gget (ms_follows s)" UpsertFollow ListFollows fo_Domain
  "\<lambda>s. keyed fo_Domain (ms_follows s)" DeleteFollow
  by unfold_locales (auto simp: UpsertFollow_def DeleteFollow_def ListFollows_def table_intros)

interpretation favorites: table
  "\<lambda>s. gget (ms_favorites s)" UpsertFavorite "\<lambda>s. ListFavorites s []" fv_ID
  "\<lambda>s. keyed fv_ID (ms_favorites s)" DeleteFavorite
  by unfold_locales (auto simp: UpsertFavorite_def DeleteFavorite_def ListFavorites_def table_intros)

interpretation blocks: row_table
  "\<lambda>s. gget (ms_blocks s)" UpsertBlock "\<lambda>s. gvals (ms_blocks s)" block_row_key
  "\<lambda>s. keyed block_row_key (ms_blocks s)"
  by unfold_locales (auto simp: UpsertBlock_def block_row_key_def [abs_def] table_intros)

interpretation calls: row_table
  "\<lambda>s. gget (ms_calls s)" UpsertCall "\<lambda>s. ListCalls s [] False" ca_CallID
  "\<lambda>s. keyed ca_CallID (ms_calls s)"
  by unfold_locales (auto simp: UpsertCall_def ListCalls_def table_intros)

interpretation grants: row_table
  "\<lambda>s. gget (ms_inviteGrants s)" UpsertChannelInviteGrant ListChannelInviteGrants ig_GrantID
  "\<lambda>s. keyed ig_GrantID (ms_inviteGrants s)"
proof unfold_locales
  fix s :: memory_store assume "keyed ig_GrantID (ms_inviteGrants s)"
  then show "distinct (map ig_GrantID (ListChannelInviteGrants s))"
    unfolding ListChannelInviteGrants_def
    by (metis keyed_distinct mset_eq_imp_distinct_iff mset_go_sort mset_map)
qed (auto simp: UpsertChannelInviteGrant_def ListChannelInviteGrants_def table_intros)

interpretation plugins: row_table
  "\<lambda>s. gget (ms_plugins s)" UpsertPlugin ListPlugins pl_ID "\<lambda>s. keyed pl_ID (ms_plugins s)"
  by unfold_locales (auto simp: UpsertPlugin_def ListPlugins_def table_intros)

interpretation reactions: row_table
  "\<lambda>s. gget (ms_reactions s)" UpsertReaction "\<lambda>s. gvals (ms_reactions s)" reaction_row_key
  "\<lambda>s. keyed reaction_row_key (ms_reactions s)"
  by unfold_locales (auto simp: UpsertReaction_def reaction_row_key_def [abs_def] table_intros)

interpretation channel_order: key_comparator channelLess "\<lambda>c. (ch_Name c, ch_ChannelID c)"
  by unfold_locales (auto simp: channelLess_def less_prod_def')

interpretation grant_order: key_comparator grantLess "\<lambda>g. (- ig_CreatedAt g, ig_GrantID g)"
  by unfold_locales (auto simp: grantLess_def less_prod_def')

text \<open>Zero values of the structs.\<close>

definition zero_channel :: channel where
  "zero_channel = \<lparr>ch_ChannelID = [], ch_RoomID = [], ch_Name = [], ch_Description = [],
     ch_AvatarURL = [], ch_Visibility = [], ch_JoinPolicy = [], ch_ChannelType = [],
     ch_CommentsEnabled = False, ch_Muted = False, ch_MemberCount = 0, ch_PendingJoinCount = 0,
     ch_IsOwned = False, ch_Role = [], ch_MemberStatus = []\<rparr>"

definition zero_block :: block_record where
  "zero_block = \<lparr>bl_TargetType = [], bl_TargetID = [], bl_RoomID = [], bl_ChannelID = [],
     bl_PeerMXID = [], bl_DisplayName = [], bl_AvatarURL = [], bl_CreatedAt = 0\<rparr>"

definition zero_reaction :: reaction_record where
  "zero_reaction = \<lparr>re_EventID = [], re_TargetType = [], re_TargetID = [], re_ChannelID = [],
     re_PostID = [], re_CommentID = [], re_Reaction = [], re_UserID = [], re_Active = False,
     re_CreatedAt = []\<rparr>"

text \<open>The order \<open>blockLess\<close> is meant to be, a comparison of type, lower-cased name and identifier.\<close>

definition blockKeyLess :: "(string \<Rightarrow> string) \<Rightarrow> block_record \<Rightarrow> block_record \<Rightarrow> bool" where
  "blockKeyLess to_lower a b \<longleftrightarrow>
     (bl_TargetType a, to_lower (bl_DisplayName a), bl_TargetID a) <
     (bl_TargetType b, to_lower (bl_DisplayName b), bl_TargetID b)"

interpretation block_order: key_comparator "blockKeyLess to_lower"
  "\<lambda>b. (bl_TargetType b, to_lower (bl_DisplayName b), bl_TargetID b)" for to_lower
  by unfold_locales (simp add: blockKeyLess_def)

section \<open>Joined channels\<close>

definition joined_row :: "string \<Rightarrow> member_record \<Rightarrow> bool" where
  "joined_row userID m \<longleftrightarrow> mb_UserID m = userID \<and> \<not> memoryMemberHidden (mb_Membership m)
     \<and> go_equal_fold (go_trim (mb_Membership m)) ''join''"

text \<open>An index holds a row for an identifier exactly when some joined row has it.\<close>

lemma fold_index_member:
  "fold (index_member userID) ms (bc, br) = (bc', br') \<Longrightarrow>
     (gget bc' c \<noteq> None \<longleftrightarrow> gget bc c \<noteq> None \<or> (c \<noteq> [] \<and> (\<exists>m\<in>set ms. joined_row userID m \<and> mb_ChannelID m = c))) \<and>
     (gget br' r \<noteq> None \<longleftrightarrow> gget br r \<noteq> None \<or> (r \<noteq> [] \<and> (\<exists>m\<in>set ms. joined_row userID m \<and> mb_RoomID m = r)))"
proof (induction ms arbitrary: bc br)
  case (Cons m ms)
  obtain bc1 br1 where step: "index_member userID m (bc, br) = (bc1, br1)" by (cases "index_member userID m (bc, br)")
  then have tail: "fold (index_member userID) ms (bc1, br1) = (bc', br')" using Cons.prems by simp
  have a: "gget bc1 c \<noteq> None \<longleftrightarrow> gget bc c \<noteq> None \<or> (c \<noteq> [] \<and> joined_row userID m \<and> mb_ChannelID m = c)"
    and b: "gget br1 r \<noteq> None \<longleftrightarrow> gget br r \<noteq> None \<or> (r \<noteq> [] \<and> joined_row userID m \<and> mb_RoomID m = r)"
    using step by (auto simp: index_member_def joined_row_def split: if_splits)
  show ?case
    unfolding Cons.IH [OF tail, THEN conjunct1] Cons.IH [OF tail, THEN conjunct2] a b
      list.set(2) bex_simps(5) by blast
qed simp

lemma joined_view_id [simp]:
  "ch_ChannelID (joined_view m ch) = ch_ChannelID ch" "ch_MemberStatus (joined_view m ch) = ''join''"
  "ch_RoomID (joined_view m ch) = ch_RoomID ch"
  by (simp_all add: joined_view_def Let_def)

lemma set_map_filter: "set (List.map_filter f xs) = {y. \<exists>x\<in>set xs. f x = Some y}"
  by (force simp: List.map_filter_def image_def)

section \<open>Properties\<close>

text \<open>\<open>ListJoinedChannelsForUser\<close> returns a channel exactly when the user has a joined, not
  hidden member row with the channel's id or with its room id, and every returned channel is marked
  as joined.\<close>

theorem ListJoinedChannelsForUser_spec:
  "((\<exists>v\<in>set (ListJoinedChannelsForUser s userID). ch_ChannelID v = c) \<longleftrightarrow>
     (\<exists>ch\<in>set (ListChannels s). ch_ChannelID ch = c \<and>
        (\<exists>m\<in>set (gvals (ms_members s)). joined_row userID m \<and>
           (mb_ChannelID m \<noteq> [] \<and> mb_ChannelID m = ch_ChannelID ch \<or>
            mb_RoomID m \<noteq> [] \<and> mb_RoomID m = ch_RoomID ch)))) \<and>
   list_all (\<lambda>v. ch_MemberStatus v = ''join'') (ListJoinedChannelsForUser s userID)"
proof -
  obtain bc br where f: "fold (index_member userID) (gvals (ms_members s)) (gempty, gempty) = (bc, br)"
    by (cases "fold (index_member userID) (gvals (ms_members s)) (gempty, gempty)")
  define v where "v = (\<lambda>ch. case gget bc (ch_ChannelID ch) of
                   Some member \<Rightarrow> Some (joined_view member ch)
                 | None \<Rightarrow> map_option (\<lambda>member. joined_view member ch) (gget br (ch_RoomID ch)))"
  have eq: "set (ListJoinedChannelsForUser s userID) = {y. \<exists>ch\<in>set (ListChannels s). v ch = Some y}"
    by (simp add: ListJoinedChannelsForUser_def f set_map_filter ListChannels_def v_def)
  have row: "(\<exists>y. v ch = Some y) \<longleftrightarrow>
      (\<exists>m\<in>set (gvals (ms_members s)). joined_row userID m \<and>
           (mb_ChannelID m \<noteq> [] \<and> mb_ChannelID m = ch_ChannelID ch \<or>
            mb_RoomID m \<noteq> [] \<and> mb_RoomID m = ch_RoomID ch))" for ch
  proof -
    have "(\<exists>y. v ch = Some y) \<longleftrightarrow> gget bc (ch_ChannelID ch) \<noteq> None \<or> gget br (ch_RoomID ch) \<noteq> None"
      by (auto simp: v_def split: option.split)
    then show ?thesis
      using fold_index_member [OF f, of "ch_ChannelID ch" "ch_RoomID ch"] by auto
  qed
  have ids: "ch_ChannelID y = ch_ChannelID ch" "ch_MemberStatus y = ''join''" if "v ch = Some y" for ch y
    using that by (auto simp: v_def split: option.splits)
  have "(\<exists>w\<in>set (ListJoinedChannelsForUser s userID). ch_ChannelID w = c) \<longleftrightarrow>
      (\<exists>ch\<in>set (ListChannels s). \<exists>y. v ch = Some y \<and> ch_ChannelID y = c)"
    unfolding eq by blast
  then have "(\<exists>w\<in>set (ListJoinedChannelsForUser s userID). ch_ChannelID w = c) \<longleftrightarrow>
      (\<exists>ch\<in>set (ListChannels s). ch_ChannelID ch = c \<and> (\<exists>y. v ch = Some y))"
    using ids(1) by metis
  moreover have "list_all (\<lambda>v. ch_MemberStatus v = ''join'') (ListJoinedChannelsForUser s userID)"
    unfolding list_all_iff eq using ids(2) by blast
  ultimately show ?thesis
    unfolding row by blast
qed

text \<open>\<open>ListPublicChannelsForOwner\<close> does not depend on the iteration order of the two maps it
  reads, and its result is in strictly ascending order of name and channel id.\<close>

theorem ListPublicChannelsForOwner_deterministic:
  assumes "keyed ch_ChannelID (ms_channels s)" and "keyed ch_ChannelID (ms_channels t)"
    and "members_ok s" and "members_ok t"
    and "gget (ms_channels s) = gget (ms_channels t)" and "gget (ms_members s) = gget (ms_members t)"
  shows "ListPublicChannelsForOwner s userID = ListPublicChannelsForOwner t userID \<and>
         sorted_wrt channelLess (ListPublicChannelsForOwner s userID)"
proof -
  define owned where "owned = (\<lambda>(field :: member_record \<Rightarrow> string) ms.
      set (filter (\<lambda>i. i \<noteq> []) (map field (filter (owned_row userID) ms))))"
  define keep where "keep = (\<lambda>ms (ch :: channel).
      \<not> ((ch_ChannelID ch \<notin> owned mb_ChannelID ms \<and> ch_RoomID ch \<notin> owned mb_RoomID ms)
         \<or> \<not> go_equal_fold (ch_Visibility ch) ''public''))"
  have list: "ListPublicChannelsForOwner u userID =
      go_sort channelLess (filter (keep (gvals (ms_members u))) (gvals (ms_channels u)))" for u
    by (simp add: ListPublicChannelsForOwner_def Let_def keep_def owned_def)
  have "mset (gvals (ms_members s)) = mset (gvals (ms_members t))"
    using assms(3,4,6) by (intro gvals_unique) (auto simp: members_ok_def keyed_gmap_ok)
  then have "set (gvals (ms_members s)) = set (gvals (ms_members t))" by (metis mset_eq_setD)
  then have keep: "keep (gvals (ms_members s)) = keep (gvals (ms_members t))"
    by (simp add: keep_def owned_def)
  have "mset (gvals (ms_channels s)) = mset (gvals (ms_channels t))"
    using assms(1,2,5) by (intro gvals_unique) (auto simp: keyed_gmap_ok)
  then have m: "mset (filter (keep (gvals (ms_members s))) (gvals (ms_channels s))) =
      mset (filter (keep (gvals (ms_members t))) (gvals (ms_channels t)))"
    by (simp add: mset_filter keep)
  have d: "distinct (map (\<lambda>c. (ch_Name c, ch_ChannelID c))
      (filter (keep (gvals (ms_members s))) (gvals (ms_channels s))))"
    by (rule distinct_map_via [OF distinct_map_filter [OF keyed_distinct [OF assms(1)]]]) simp
  show ?thesis
    unfolding list
    using channel_order.go_sort_order_independent [OF m d] channel_order.sorted_strict [OF d] by blast
qed

theorem ListPublicChannelsForOwner_deterministic_witness:
  "let a = zero_channel\<lparr>ch_ChannelID := ''c1'', ch_Visibility := ''public''\<rparr>;
       b = zero_channel\<lparr>ch_ChannelID := ''c2'', ch_Visibility := ''public''\<rparr>;
       m = zero_member\<lparr>mb_UserID := ''@o:x'', mb_ChannelID := ''c1'', mb_Role := ''owner''\<rparr>;
       s = UpsertMember m NewMemoryStore
   in ListPublicChannelsForOwner (UpsertChannel a (UpsertChannel b s)) ''@o:x'' =
      ListPublicChannelsForOwner (UpsertChannel b (UpsertChannel a s)) ''@o:x''"
proof -
  define a where "a = zero_channel\<lparr>ch_ChannelID := ''c1'', ch_Visibility := ''public''\<rparr>"
  define b where "b = zero_channel\<lparr>ch_ChannelID := ''c2'', ch_Visibility := ''public''\<rparr>"
  define s where "s = UpsertMember (zero_member\<lparr>mb_UserID := ''@o:x'', mb_ChannelID := ''c1'',
    mb_Role := ''owner''\<rparr>) NewMemoryStore"
  have ok: "members_ok s" by (simp add: s_def members_ok_UpsertMember members_ok_new)
  have k: "keyed ch_ChannelID (ms_channels s)"
    by (simp add: s_def UpsertMember_def Let_def NewMemoryStore_def)
  have ids: "ch_ChannelID a \<noteq> ch_ChannelID b" by (simp add: a_def b_def)
  have "ListPublicChannelsForOwner (UpsertChannel a (UpsertChannel b s)) ''@o:x'' =
      ListPublicChannelsForOwner (UpsertChannel b (UpsertChannel a s)) ''@o:x''"
    by (rule ListPublicChannelsForOwner_deterministic [THEN conjunct1])
      (use ok k ids in \<open>auto simp: UpsertChannel_def members_ok_def\<close>)
  then show ?thesis by (simp add: Let_def a_def b_def s_def)
qed

text \<open>\<open>ListBlocks\<close> is independent of the iteration order of the map as long as no two blocked
  targets have names that differ but agree after lower-casing.\<close>

theorem ListBlocks_deterministic:
  assumes "keyed block_row_key (ms_blocks s)" and "keyed block_row_key (ms_blocks t)"
    and "gget (ms_blocks s) = gget (ms_blocks t)"
    and "\<And>k b k' b'. gget (ms_blocks s) k = Some b \<Longrightarrow> gget (ms_blocks s) k' = Some b' \<Longrightarrow>
           to_lower (bl_DisplayName b) = to_lower (bl_DisplayName b') \<Longrightarrow>
           bl_DisplayName b = bl_DisplayName b'"
  shows "ListBlocks to_lower s = ListBlocks to_lower t"
proof -
  have less: "blockLess to_lower a b = blockKeyLess to_lower a b"
    if "a \<in> set (gvals (ms_blocks s))" "b \<in> set (gvals (ms_blocks s))" for a b
  proof -
    have "to_lower (bl_DisplayName a) = to_lower (bl_DisplayName b) \<longleftrightarrow> bl_DisplayName a = bl_DisplayName b"
      using assms(4) that by (auto simp: keyed_vals [OF assms(1)])
    then show ?thesis by (auto simp: blockLess_def blockKeyLess_def less_prod_def')
  qed
  have m: "mset (gvals (ms_blocks s)) = mset (gvals (ms_blocks t))"
    by (rule blocks.rows_mset [OF assms(1-3)])
  then have same: "set (gvals (ms_blocks s)) = set (gvals (ms_blocks t))"
    by (metis mset_eq_setD)
  have "ListBlocks to_lower s = go_sort (blockKeyLess to_lower) (gvals (ms_blocks s))"
    unfolding ListBlocks_def by (rule go_sort_cong) (rule less)
  also have "\<dots> = go_sort (blockKeyLess to_lower) (gvals (ms_blocks t))"
    by (rule block_order.go_sort_order_independent [OF m])
      (rule distinct_map_via [OF keyed_distinct [OF assms(1)]], simp add: block_row_key_def)
  also have "\<dots> = ListBlocks to_lower t"
    unfolding ListBlocks_def by (rule go_sort_cong [symmetric]) (rule less, simp_all add: same)
  finally show ?thesis .
qed

theorem ListBlocks_deterministic_witness:
  "let a = zero_block\<lparr>bl_TargetType := ''contact'', bl_TargetID := ''@1:x'', bl_DisplayName := ''bo''\<rparr>;
       b = zero_block\<lparr>bl_TargetType := ''contact'', bl_TargetID := ''@2:x'', bl_DisplayName := ''al''\<rparr>
   in ListBlocks go_lower (UpsertBlock a (UpsertBlock b NewMemoryStore)) =
      ListBlocks go_lower (UpsertBlock b (UpsertBlock a NewMemoryStore))"
proof -
  define a where "a = zero_block\<lparr>bl_TargetType := ''contact'', bl_TargetID := ''@1:x'', bl_DisplayName := ''bo''\<rparr>"
  define b where "b = zero_block\<lparr>bl_TargetType := ''contact'', bl_TargetID := ''@2:x'', bl_DisplayName := ''al''\<rparr>"
  have names: "go_lower (bl_DisplayName a) = ''bo''" "go_lower (bl_DisplayName b) = ''al''"
    "bl_DisplayName a = ''bo''" "bl_DisplayName b = ''al''"
    by (simp_all add: a_def b_def zero_block_def) code_simp+
  have keys: "block_row_key a = ''contact|@1:x''" "block_row_key b = ''contact|@2:x''"
    by (simp_all add: block_row_key_def BlockKey_def NormalizeBlockTargetType_def literal_eval a_def b_def zero_block_def)
  have k: "keyed block_row_key (ms_blocks NewMemoryStore)" by (simp add: NewMemoryStore_def)
  have "ListBlocks go_lower (UpsertBlock a (UpsertBlock b NewMemoryStore)) =
      ListBlocks go_lower (UpsertBlock b (UpsertBlock a NewMemoryStore))"
    by (rule ListBlocks_deterministic)
      (use k keys names in \<open>auto simp: UpsertBlock_def block_row_key_def NewMemoryStore_def split: if_splits\<close>)
  then show ?thesis by (simp add: Let_def a_def b_def)
qed

text \<open>Without that condition the comparator leaves the order to the map: two stores with the
  same blocked targets, named \<open>Al\<close> and \<open>al\<close>, list them in different orders.\<close>

theorem ListBlocks_order_dependent:
  "let a = zero_block\<lparr>bl_TargetType := ''contact'', bl_TargetID := ''@1:x'', bl_DisplayName := ''Al''\<rparr>;
       b = zero_block\<lparr>bl_TargetType := ''contact'', bl_TargetID := ''@2:x'', bl_DisplayName := ''al''\<rparr>;
       s = UpsertBlock a (UpsertBlock b NewMemoryStore);
       t = UpsertBlock b (UpsertBlock a NewMemoryStore)
   in (\<forall>k. gget (ms_blocks s) k = gget (ms_blocks t) k) \<and> ListBlocks go_lower s \<noteq> ListBlocks go_lower t"
proof -
  define a where "a = zero_block\<lparr>bl_TargetType := ''contact'', bl_TargetID := ''@1:x'', bl_DisplayName := ''Al''\<rparr>"
  define b where "b = zero_block\<lparr>bl_TargetType := ''contact'', bl_TargetID := ''@2:x'', bl_DisplayName := ''al''\<rparr>"
  define s where "s = UpsertBlock a (UpsertBlock b NewMemoryStore)"
  define t where "t = UpsertBlock b (UpsertBlock a NewMemoryStore)"
  have keys: "block_row_key a = ''contact|@1:x''" "block_row_key b = ''contact|@2:x''"
    by (simp_all add: block_row_key_def BlockKey_def NormalizeBlockTargetType_def literal_eval a_def b_def zero_block_def)
  have "ms_blocks s = [(block_row_key b, b), (block_row_key a, a)]"
    "ms_blocks t = [(block_row_key a, a), (block_row_key b, b)]"
    using keys by (simp_all add: s_def t_def UpsertBlock_def NewMemoryStore_def gput_def gempty_def block_row_key_def)
  moreover have "go_lower ''Al'' = ''al''" "go_lower ''al'' = ''al''" by code_simp+
  then have "\<not> blockLess go_lower a b" "\<not> blockLess go_lower b a"
    by (simp_all del: go_lower.simps add: blockLess_def a_def b_def zero_block_def)
  ultimately have "ListBlocks go_lower s = [b, a]" "ListBlocks go_lower t = [a, b]"
    by (simp_all add: ListBlocks_def gvals_def go_sort_def)
  moreover have "a \<noteq> b" by (simp add: a_def b_def zero_block_def)
  moreover have "\<forall>k. gget (ms_blocks s) k = gget (ms_blocks t) k"
    using keys by (simp add: s_def t_def UpsertBlock_def block_row_key_def)
  ultimately show ?thesis by (simp add: Let_def a_def b_def s_def t_def)
qed

lemma count_filter_mset: "int (length (filter P xs)) = int (size (filter_mset P (mset xs)))"
  by (metis mset_filter size_mset)

text \<open>\<open>DeactivateReactionByEventID\<close> reports whether an active reaction carries the event id;
  if so it deactivates one such row and nothing else, and the count of active reactions drops by one
  for that row's target and stays the same for every other.\<close>

theorem DeactivateReaction_spec:
  assumes "keyed reaction_row_key (ms_reactions s)"
    and "DeactivateReactionByEventID e s = (found, s')"
  shows "(found \<longleftrightarrow> (\<exists>r\<in>set (gvals (ms_reactions s)). re_EventID r = e \<and> re_Active r)) \<and>
    (if found then
       \<exists>r\<in>set (gvals (ms_reactions s)). re_EventID r = e \<and> re_Active r \<and>
         s' = UpsertReaction (r\<lparr>re_Active := False\<rparr>) s \<and>
         (\<forall>ty i re. CountActiveReactions s' ty i re = CountActiveReactions s ty i re -
            (if re_TargetType r = ty \<and> re_TargetID r = i \<and> re_Reaction r = re then 1 else 0))
     else s' = s)"
proof (cases "gfind (\<lambda>_ r. re_EventID r = e \<and> re_Active r) (ms_reactions s)")
  case None
  with assms(2) have "\<not> found" "s' = s" by (simp_all add: DeactivateReactionByEventID_def)
  moreover from None have "\<not> (\<exists>r\<in>set (gvals (ms_reactions s)). re_EventID r = e \<and> re_Active r)"
    by (auto simp: gfind_None_iff gvals_def)
  ultimately show ?thesis by simp
next
  case (Some kr)
  obtain k r where kr: "kr = (k, r)" by (cases kr)
  with Some have get: "gget (ms_reactions s) k = Some r" and hit: "re_EventID r = e" "re_Active r"
    using gfind_gget [OF keyed_gmap_ok [OF assms(1)], of _ k r] by auto
  have k: "k = reaction_row_key r" using keyed_key [OF assms(1) get] by simp
  have found: "found" and s': "s' = UpsertReaction (r\<lparr>re_Active := False\<rparr>) s"
    using assms(2) Some kr k
    by (simp_all add: DeactivateReactionByEventID_def UpsertReaction_def reaction_row_key_def)
  have mem: "r \<in> set (gvals (ms_reactions s))" using get by (rule gget_vals)
  then obtain X where X: "mset (gvals (ms_reactions s)) = add_mset r X"
    by (metis mset_add set_mset_mset)
  then have X': "mset (gvals (ms_reactions s')) = add_mset (r\<lparr>re_Active := False\<rparr>) X"
    using mset_gvals_gput [OF get] k by (simp add: s' UpsertReaction_def reaction_row_key_def)
  have "CountActiveReactions s' ty i re = CountActiveReactions s ty i re -
      (if re_TargetType r = ty \<and> re_TargetID r = i \<and> re_Reaction r = re then 1 else 0)" for ty i re
    unfolding CountActiveReactions_def count_filter_mset X X' using hit(2) by simp
  then show ?thesis using found s' mem hit by auto
qed

theorem DeactivateReaction_spec_witness:
  "let r = zero_reaction\<lparr>re_EventID := ''$e'', re_TargetType := ''post'', re_TargetID := ''p1'',
             re_Reaction := ''like'', re_UserID := ''@u:x'', re_Active := True\<rparr>;
       s = UpsertReaction r NewMemoryStore
   in \<exists>s'. DeactivateReactionByEventID ''$e'' s = (True, s') \<and>
        CountActiveReactions s' ''post'' ''p1'' ''like'' = CountActiveReactions s ''post'' ''p1'' ''like'' - 1"
proof -
  define r where "r = zero_reaction\<lparr>re_EventID := ''$e'', re_TargetType := ''post'', re_TargetID := ''p1'',
             re_Reaction := ''like'', re_UserID := ''@u:x'', re_Active := True\<rparr>"
  define s where "s = UpsertReaction r NewMemoryStore"
  obtain found s' where d: "DeactivateReactionByEventID ''$e'' s = (found, s')"
    by (cases "DeactivateReactionByEventID ''$e'' s")
  have rows: "gvals (ms_reactions s) = [r]"
    by (simp add: s_def UpsertReaction_def NewMemoryStore_def gvals_def gput_def gempty_def)
  have "keyed reaction_row_key (ms_reactions s)"
    by (simp add: s_def UpsertReaction_def NewMemoryStore_def reaction_row_key_def)
  from DeactivateReaction_spec [OF this d] rows d show ?thesis
    by (auto simp: Let_def s_def r_def zero_reaction_def split: if_splits)
qed

text \<open>Plugin secrets are kept apart by plugin and by name: a write is visible under its own
  plugin and name and under no other.\<close>

theorem PluginSecret_isolated:
  "GetPluginSecret (UpsertPluginSecret k s) p n =
     (if p = pk_PluginID k \<and> n = pk_Name k then Some k else GetPluginSecret s p n)"
  by (auto simp: GetPluginSecret_def UpsertPluginSecret_def Let_def split: option.split)

end
