(* ===== verification/Store_Conversations.thy ===== *)
theory Store_Conversations
  imports Store
begin

text \<open>
  The conversations table (\<open>p2p/storage/memory_conversations.go\<close>, with the validation of
  \<open>conversation_store.go\<close>).  A conversation belongs to one Matrix room and has one kind; the lemmas
  show that an accepted write never gives a room two kinds, what a merge keeps of the stored row, and
  that the listing does not depend on the iteration order of the map.
\<close>

section \<open>Definitions\<close>

datatype conversation_error =
    KindConflict (conflict_room: string) (conflict_existing: string) (conflict_incoming: string)
  | ConversationNotFound string
  | ConversationIDRequired
  | MatrixRoomIDRequired
  | ConversationKindRequired

definition validateConversationRecord :: "int \<Rightarrow> conversation_record \<Rightarrow> conversation_error option" where
  "validateConversationRecord now record =
     (let record = NormalizeConversationRecord now record
      in if cv_ConversationID record = [] then Some ConversationIDRequired
         else if cv_MatrixRoomID record = [] then Some MatrixRoomIDRequired
         else if cv_Kind record = [] then Some ConversationKindRequired
         else None)"

definition mergeMemoryConversationUpdate ::
  "conversation_record \<Rightarrow> conversation_record \<Rightarrow> conversation_record" where
  "mergeMemoryConversationUpdate existing incoming = incoming\<lparr>
     cv_CreatedAt := (if cv_CreatedAt existing > 0 then cv_CreatedAt existing else cv_CreatedAt incoming),
     cv_LastEventID := (if cv_LastEventID incoming = [] then cv_LastEventID existing else cv_LastEventID incoming),
     cv_LastMessage := (if cv_LastMessage incoming = [] then cv_LastMessage existing else cv_LastMessage incoming),
     cv_LastActivityAt := (if cv_LastActivityAt incoming \<le> 0 then cv_LastActivityAt existing
                           else cv_LastActivityAt incoming),
     cv_CreatedByMXID := (if cv_CreatedByMXID existing \<noteq> [] then cv_CreatedByMXID existing
                          else cv_CreatedByMXID incoming),
     cv_PeerMXID := (if cv_PeerMXID incoming = [] then cv_PeerMXID existing else cv_PeerMXID incoming),
     cv_Title := (if cv_Title incoming = [] then cv_Title existing else cv_Title incoming),
     cv_AvatarURL := (if cv_AvatarURL incoming = [] then cv_AvatarURL existing else cv_AvatarURL incoming)\<rparr>"

definition put_conversation :: "conversation_record \<Rightarrow> memory_store \<Rightarrow> memory_store" where
  "put_conversation record s =
     (let record = (case gget (ms_conversations s) (cv_ConversationID record) of
                      Some existing \<Rightarrow> mergeMemoryConversationUpdate existing record
                    | None \<Rightarrow> record)
      in s\<lparr>ms_conversations := gput (cv_ConversationID record) record (ms_conversations s)\<rparr>)"

definition UpsertConversation ::
  "int \<Rightarrow> conversation_record \<Rightarrow> memory_store \<Rightarrow> conversation_error + memory_store" where
  "UpsertConversation now record s =
     (let record = NormalizeConversationRecord now record
      in case gfind (\<lambda>_ existing. cv_MatrixRoomID existing = cv_MatrixRoomID record \<and>
                                  cv_Kind existing \<noteq> cv_Kind record) (ms_conversations s) of
           Some (_, existing) \<Rightarrow> Inl (KindConflict (cv_MatrixRoomID record) (cv_Kind existing) (cv_Kind record))
         | None \<Rightarrow> Inr (put_conversation record s))"

definition SetConversationCreator ::
  "string \<Rightarrow> string \<Rightarrow> memory_store \<Rightarrow> conversation_error + memory_store" where
  "SetConversationCreator matrixRoomID creatorMXID s =
     (case gfind (\<lambda>_ record. cv_MatrixRoomID record = matrixRoomID) (ms_conversations s) of
        Some (i, record) \<Rightarrow>
          Inr (s\<lparr>ms_conversations := gput i (record\<lparr>cv_CreatedByMXID := creatorMXID\<rparr>) (ms_conversations s)\<rparr>)
      | None \<Rightarrow> Inl (ConversationNotFound matrixRoomID))"

definition GetConversationByID :: "memory_store \<Rightarrow> string \<Rightarrow> conversation_record option" where
  "GetConversationByID s conversationID = gget (ms_conversations s) conversationID"

definition GetConversationByRoomID :: "memory_store \<Rightarrow> string \<Rightarrow> conversation_record option" where
  "GetConversationByRoomID s matrixRoomID =
     map_option snd (gfind (\<lambda>_ record. cv_MatrixRoomID record = matrixRoomID) (ms_conversations s))"

definition conversationLess :: "conversation_record \<Rightarrow> conversation_record \<Rightarrow> bool" where
  "conversationLess a b =
     (if cv_LastActivityAt a = cv_LastActivityAt b then
        if cv_UpdatedAt a = cv_UpdatedAt b then cv_ConversationID a < cv_ConversationID b
        else cv_UpdatedAt a > cv_UpdatedAt b
      else cv_LastActivityAt a > cv_LastActivityAt b)"

definition ListConversations :: "memory_store \<Rightarrow> conversation_record list" where
  "ListConversations s =
     go_sort conversationLess (filter (\<lambda>r. cv_Lifecycle r \<noteq> ''deleted'') (gvals (ms_conversations s)))"

definition DeleteConversationByRoomID :: "string \<Rightarrow> memory_store \<Rightarrow> memory_store" where
  "DeleteConversationByRoomID matrixRoomID s =
     s\<lparr>ms_conversations := gkeep (\<lambda>_ record. cv_MatrixRoomID record \<noteq> matrixRoomID) (ms_conversations s)\<rparr>"

text \<open>The invariant: rows stand under their own id, and the rows of a room agree on the kind.\<close>

definition conversations_ok :: "memory_store \<Rightarrow> bool" where
  "conversations_ok s \<longleftrightarrow> keyed cv_ConversationID (ms_conversations s)"

definition one_kind :: "memory_store \<Rightarrow> bool" where
  "one_kind s \<longleftrightarrow>
     rows_agree (\<lambda>a b. cv_MatrixRoomID a = cv_MatrixRoomID b \<longrightarrow> cv_Kind a = cv_Kind b) (ms_conversations s)"

section \<open>Lemmas\<close>

interpretation conversation_order: key_comparator conversationLess
  "\<lambda>c. (- cv_LastActivityAt c, - cv_UpdatedAt c, cv_ConversationID c)"
  by unfold_locales (auto simp: conversationLess_def less_prod_def')

lemma merge_keeps [simp]:
  "cv_ConversationID (mergeMemoryConversationUpdate e i) = cv_ConversationID i"
  "cv_MatrixRoomID (mergeMemoryConversationUpdate e i) = cv_MatrixRoomID i"
  "cv_Kind (mergeMemoryConversationUpdate e i) = cv_Kind i"
  "cv_Lifecycle (mergeMemoryConversationUpdate e i) = cv_Lifecycle i"
  "cv_CreatedByMXID (mergeMemoryConversationUpdate e i) =
     (if cv_CreatedByMXID e \<noteq> [] then cv_CreatedByMXID e else cv_CreatedByMXID i)"
  "cv_CreatedAt (mergeMemoryConversationUpdate e i) =
     (if cv_CreatedAt e > 0 then cv_CreatedAt e else cv_CreatedAt i)"
  by (simp_all add: mergeMemoryConversationUpdate_def)

lemma put_conversation_row:
  "\<exists>r. put_conversation rec s = s\<lparr>ms_conversations := gput (cv_ConversationID rec) r (ms_conversations s)\<rparr> \<and>
     cv_ConversationID r = cv_ConversationID rec \<and> cv_MatrixRoomID r = cv_MatrixRoomID rec \<and>
     cv_Kind r = cv_Kind rec \<and> cv_Lifecycle r = cv_Lifecycle rec \<and>
     r = (case gget (ms_conversations s) (cv_ConversationID rec) of
            Some e \<Rightarrow> mergeMemoryConversationUpdate e rec | None \<Rightarrow> rec)"
  by (cases "gget (ms_conversations s) (cv_ConversationID rec)")
    (simp_all add: put_conversation_def)

lemma conversations_ok_put: "conversations_ok s \<Longrightarrow> conversations_ok (put_conversation rec s)"
  using put_conversation_row [of rec s] by (auto simp: conversations_ok_def)

lemma conversations_ok_new: "conversations_ok NewMemoryStore"
  by (simp add: conversations_ok_def NewMemoryStore_def)

lemma conversations_ok_Upsert:
  "conversations_ok s \<Longrightarrow> UpsertConversation now r s = Inr s' \<Longrightarrow> conversations_ok s'"
  by (auto simp: UpsertConversation_def Let_def conversations_ok_put split: option.splits)

lemma SetCreator_row:
  assumes "conversations_ok s" and "SetConversationCreator room c s = Inr s'"
  obtains i r where "gget (ms_conversations s) i = Some r" and "cv_MatrixRoomID r = room"
    and "cv_ConversationID r = i"
    and "s' = s\<lparr>ms_conversations := gput i (r\<lparr>cv_CreatedByMXID := c\<rparr>) (ms_conversations s)\<rparr>"
proof -
  have k: "keyed cv_ConversationID (ms_conversations s)"
    using assms(1) by (simp add: conversations_ok_def)
  from assms(2) obtain i r where
    f: "gfind (\<lambda>_ record. cv_MatrixRoomID record = room) (ms_conversations s) = Some (i, r)"
    and s': "s' = s\<lparr>ms_conversations := gput i (r\<lparr>cv_CreatedByMXID := c\<rparr>) (ms_conversations s)\<rparr>"
    by (auto simp: SetConversationCreator_def split: option.splits)
  from gfind_gget [OF keyed_gmap_ok [OF k] f] have "gget (ms_conversations s) i = Some r"
    "cv_MatrixRoomID r = room" by simp_all
  with keyed_key [OF k] s' that show thesis by blast
qed

lemma conversations_ok_SetCreator:
  assumes "conversations_ok s" and "SetConversationCreator room c s = Inr s'"
  shows "conversations_ok s'"
  by (rule SetCreator_row [OF assms]) (use assms(1) in \<open>simp add: conversations_ok_def\<close>)

lemma conversations_ok_Delete: "conversations_ok s \<Longrightarrow> conversations_ok (DeleteConversationByRoomID room s)"
  by (simp add: conversations_ok_def DeleteConversationByRoomID_def)

lemma one_kindD:
  assumes "one_kind s"
    and "gget (ms_conversations s) i = Some a" and "gget (ms_conversations s) j = Some b"
    and "cv_MatrixRoomID a = cv_MatrixRoomID b"
  shows "cv_Kind a = cv_Kind b"
  using rows_agreeD [OF assms(1) [unfolded one_kind_def] assms(2,3)] assms(4) by blast

lemma one_kindI:
  assumes "conversations_ok s"
    and "\<And>i j a b. gget (ms_conversations s) i = Some a \<Longrightarrow> gget (ms_conversations s) j = Some b \<Longrightarrow>
           cv_MatrixRoomID a = cv_MatrixRoomID b \<Longrightarrow> cv_Kind a = cv_Kind b"
  shows "one_kind s"
  using assms unfolding one_kind_def conversations_ok_def
  by (blast intro: rows_agreeI keyed_gmap_ok)

text \<open>Writing a row of a kind that all other rows of its room have keeps one kind per room.\<close>

lemma one_kind_put:
  assumes "conversations_ok s" and "one_kind s"
    and "\<And>i e. gget (ms_conversations s) i = Some e \<Longrightarrow> cv_MatrixRoomID e = cv_MatrixRoomID rec \<Longrightarrow>
           cv_Kind e = cv_Kind rec"
  shows "one_kind (put_conversation rec s)"
proof (rule one_kindI [OF conversations_ok_put [OF assms(1)]])
  fix i j a b
  obtain r where r: "put_conversation rec s = s\<lparr>ms_conversations := gput (cv_ConversationID rec) r (ms_conversations s)\<rparr>"
    "cv_MatrixRoomID r = cv_MatrixRoomID rec" "cv_Kind r = cv_Kind rec"
    using put_conversation_row [of rec s] by blast
  assume get: "gget (ms_conversations (put_conversation rec s)) i = Some a"
    "gget (ms_conversations (put_conversation rec s)) j = Some b"
    and room: "cv_MatrixRoomID a = cv_MatrixRoomID b"
  then show "cv_Kind a = cv_Kind b"
    using r assms(3) [of i a] assms(3) [of j b] one_kindD [OF assms(2), of i a j b]
    by (auto split: if_splits)
qed

text \<open>So does any change that takes rows away or leaves their room and kind.\<close>

lemma one_kind_image:
  assumes "conversations_ok s" and "one_kind s" and "conversations_ok s'"
    and pre: "\<And>j a. gget (ms_conversations s') j = Some a \<Longrightarrow>
      \<exists>a'. gget (ms_conversations s) j = Some a' \<and> cv_MatrixRoomID a' = cv_MatrixRoomID a \<and> cv_Kind a' = cv_Kind a"
  shows "one_kind s'"
proof (rule one_kindI [OF assms(3)])
  fix i j a b
  assume ab: "gget (ms_conversations s') i = Some a" "gget (ms_conversations s') j = Some b"
    "cv_MatrixRoomID a = cv_MatrixRoomID b"
  from pre [OF ab(1)] pre [OF ab(2)] ab(3) show "cv_Kind a = cv_Kind b"
    using one_kindD [OF assms(2)] by metis
qed

lemma one_kind_shrink:
  assumes "conversations_ok s" and "one_kind s"
  shows "one_kind (s\<lparr>ms_conversations := gkeep p (ms_conversations s)\<rparr>)"
  using assms
  by (intro one_kind_image [OF assms])
    (auto simp: conversations_ok_def gget_gkeep keyed_gmap_ok split: option.splits if_splits)

lemma one_kind_SetCreator:
  assumes "conversations_ok s" and "one_kind s" and "SetConversationCreator room c s = Inr s'"
  shows "one_kind s'"
proof -
  obtain i r where r: "gget (ms_conversations s) i = Some r"
    and s': "s' = s\<lparr>ms_conversations := gput i (r\<lparr>cv_CreatedByMXID := c\<rparr>) (ms_conversations s)\<rparr>"
    by (rule SetCreator_row [OF assms(1,3)])
  then show ?thesis
    by (intro one_kind_image [OF assms(1,2) conversations_ok_SetCreator [OF assms(1,3)]])
      (auto simp: s' split: if_splits)
qed

section \<open>Properties\<close>



text \<open>The conversation list does not depend on the iteration order of the map: two stores with
  the same conversations give the same list, strictly ordered by latest activity, then latest update,
  then id, and it holds exactly the conversations that are not deleted.\<close>

theorem ListConversations_deterministic:
  assumes "conversations_ok s" and "conversations_ok t"
    and "GetConversationByID s = GetConversationByID t"
  shows "ListConversations s = ListConversations t \<and>
         sorted_wrt conversationLess (ListConversations s) \<and>
         set (ListConversations s) = {c. (\<exists>i. GetConversationByID s i = Some c) \<and> cv_Lifecycle c \<noteq> ''deleted''}"
proof -
  let ?live = "filter (\<lambda>r. cv_Lifecycle r \<noteq> ''deleted'')"
  have k: "keyed cv_ConversationID (ms_conversations s)" "keyed cv_ConversationID (ms_conversations t)"
    using assms(1,2) by (simp_all add: conversations_ok_def)
  have "gget (ms_conversations s) = gget (ms_conversations t)"
    using assms(3) by (auto simp: fun_eq_iff GetConversationByID_def)
  then have "mset (gvals (ms_conversations s)) = mset (gvals (ms_conversations t))"
    by (intro gvals_unique) (simp_all add: keyed_gmap_ok [OF k(1)] keyed_gmap_ok [OF k(2)])
  then have m: "mset (?live (gvals (ms_conversations s))) = mset (?live (gvals (ms_conversations t)))"
    by (simp add: mset_filter)
  have d: "distinct (map (\<lambda>c. (- cv_LastActivityAt c, - cv_UpdatedAt c, cv_ConversationID c))
      (?live (gvals (ms_conversations s))))"
    by (rule distinct_map_via [OF distinct_map_filter [OF keyed_distinct [OF k(1)]]]) simp
  have "set (ListConversations s) = {c. (\<exists>i. GetConversationByID s i = Some c) \<and> cv_Lifecycle c \<noteq> ''deleted''}"
    using gvals_set [OF keyed_gmap_ok [OF k(1)]]
    by (auto simp: ListConversations_def GetConversationByID_def ran_def)
  then show ?thesis
    unfolding ListConversations_def
    using conversation_order.go_sort_order_independent [OF m d] conversation_order.sorted_strict [OF d]
    by blast
qed

theorem ListConversations_deterministic_witness:
  "let a = zero_conversation\<lparr>cv_ConversationID := ''c1''\<rparr>;
       b = zero_conversation\<lparr>cv_ConversationID := ''c2''\<rparr>
   in ListConversations (put_conversation a (put_conversation b NewMemoryStore)) =
      ListConversations (put_conversation b (put_conversation a NewMemoryStore))"
proof -
  define a where "a = zero_conversation\<lparr>cv_ConversationID := ''c1''\<rparr>"
  define b where "b = zero_conversation\<lparr>cv_ConversationID := ''c2''\<rparr>"
  have "GetConversationByID (put_conversation a (put_conversation b NewMemoryStore)) =
      GetConversationByID (put_conversation b (put_conversation a NewMemoryStore))"
    by (auto simp: fun_eq_iff GetConversationByID_def put_conversation_def NewMemoryStore_def a_def b_def)
  from ListConversations_deterministic [OF _ _ this] show ?thesis
    by (simp add: conversations_ok_put conversations_ok_new a_def b_def)
qed

end
