(* ===== verification/Store_Contacts.thy ===== *)
theory Store_Contacts
  imports Store_Conversations
begin

text \<open>
  The contacts table (\<open>p2p/storage/memory_relationships.go\<close>).  A contact row belongs to a room, and a
  peer has at most one row; the guarded writes replace the row of one peer only if room, request and
  status are still the expected ones.  \<open>CompareAndSwapContactProjection\<close> changes the contact, the
  group and the conversation of the room in one step.
\<close>

section \<open>Definitions\<close>

definition UpsertContact :: "contact_record \<Rightarrow> memory_store \<Rightarrow> memory_store" where
  "UpsertContact contact s =
     (let contacts = (if ct_PeerMXID contact \<noteq> []
                      then gkeep (\<lambda>roomID existing. \<not> (roomID \<noteq> ct_RoomID contact \<and>
                                    ct_PeerMXID existing = ct_PeerMXID contact)) (ms_contacts s)
                      else ms_contacts s)
      in s\<lparr>ms_contacts := gput (ct_RoomID contact) contact contacts\<rparr>)"

text \<open>The row the guarded writes compare with, as the loop and the guard find it: \<open>None\<close> when the
  write is refused.\<close>

definition expected_contact :: "contact_record \<Rightarrow> memory_store \<Rightarrow> string option" where
  "expected_contact expected s =
     (case gfind (\<lambda>_ candidate. ct_PeerMXID candidate = ct_PeerMXID expected) (ms_contacts s) of
        None \<Rightarrow> None
      | Some (currentRoomID, current) \<Rightarrow>
          if ct_PeerMXID current = [] \<or> ct_RoomID current \<noteq> ct_RoomID expected
             \<or> ct_RequestID current \<noteq> ct_RequestID expected
             \<or> \<not> go_equal_fold (go_trim (ct_Status current)) (go_trim (ct_Status expected))
          then None else Some currentRoomID)"

definition replace_contact :: "string \<Rightarrow> contact_record \<Rightarrow> memory_store \<Rightarrow> memory_store" where
  "replace_contact currentRoomID contact s =
     s\<lparr>ms_contacts := gput (ct_RoomID contact) contact (gdel currentRoomID (ms_contacts s))\<rparr>"

definition CompareAndSwapContact ::
  "contact_record \<Rightarrow> contact_record \<Rightarrow> memory_store \<Rightarrow> bool \<times> memory_store" where
  "CompareAndSwapContact contact expected s =
     (case expected_contact expected s of
        None \<Rightarrow> (False, s)
      | Some currentRoomID \<Rightarrow> (True, replace_contact currentRoomID contact s))"

text \<open>The conversations the projection removes: those of the contact's room that are not direct, and
  direct ones of the same peer in another room.\<close>

definition projection_drops :: "contact_record \<Rightarrow> conversation_record \<Rightarrow> bool" where
  "projection_drops contact existing \<longleftrightarrow>
     cv_MatrixRoomID existing = ct_RoomID contact \<and> cv_Kind existing \<noteq> ''direct''
     \<or> ct_PeerMXID contact \<noteq> [] \<and> cv_Kind existing = ''direct'' \<and>
       cv_PeerMXID existing = ct_PeerMXID contact \<and> cv_MatrixRoomID existing \<noteq> ct_RoomID contact"

definition CompareAndSwapContactProjection ::
  "int \<Rightarrow> contact_record \<Rightarrow> contact_record \<Rightarrow> memory_store \<Rightarrow> conversation_error + bool \<times> memory_store" where
  "CompareAndSwapContactProjection now contact expected s =
     (let conversation = NormalizeConversationRecord now (ConversationFromContact contact)
      in case validateConversationRecord now conversation of
           Some err \<Rightarrow> Inl err
         | None \<Rightarrow>
             (case expected_contact expected s of
                None \<Rightarrow> Inr (False, s)
              | Some currentRoomID \<Rightarrow>
                  let s = replace_contact currentRoomID contact s;
                      s = s\<lparr>ms_groups := gdel (ct_RoomID contact) (ms_groups s)\<rparr>;
                      s = s\<lparr>ms_conversations :=
                              gkeep (\<lambda>_ existing. \<not> projection_drops contact existing) (ms_conversations s)\<rparr>
                  in Inr (True, put_conversation conversation s)))"

definition ListContacts :: "memory_store \<Rightarrow> contact_record list" where
  "ListContacts s = gvals (ms_contacts s)"

definition zero_contact :: contact_record where
  "zero_contact = \<lparr>ct_PeerMXID = [], ct_DisplayName = [], ct_DisplayNameOverride = False,
     ct_AvatarURL = [], ct_Domain = [], ct_RoomID = [], ct_Status = [], ct_Remark = [], ct_RequestID = []\<rparr>"

definition contacts_ok :: "memory_store \<Rightarrow> bool" where
  "contacts_ok s \<longleftrightarrow> keyed ct_RoomID (ms_contacts s)"

definition one_row_per_peer :: "memory_store \<Rightarrow> bool" where
  "one_row_per_peer s \<longleftrightarrow> rows_agree (\<lambda>a b. ct_PeerMXID a = ct_PeerMXID b \<and> ct_PeerMXID a \<noteq> [] \<longrightarrow>
     ct_RoomID a = ct_RoomID b) (ms_contacts s)"

section \<open>Lemmas\<close>

lemma one_row_per_peerD:
  assumes "contacts_ok s" and "one_row_per_peer s"
    and "gget (ms_contacts s) i = Some a" and "gget (ms_contacts s) j = Some b"
    and "ct_PeerMXID a = ct_PeerMXID b" and "ct_PeerMXID a \<noteq> []"
  shows "i = j"
proof -
  have "ct_RoomID a = ct_RoomID b"
    using rows_agreeD [OF assms(2) [unfolded one_row_per_peer_def] assms(3,4)] assms(5,6) by blast
  then show ?thesis
    using assms(1,3,4) keyed_key unfolding contacts_ok_def by metis
qed

lemma one_row_per_peerI:
  assumes "contacts_ok s"
    and "\<And>i j a b. gget (ms_contacts s) i = Some a \<Longrightarrow> gget (ms_contacts s) j = Some b \<Longrightarrow>
           ct_PeerMXID a = ct_PeerMXID b \<Longrightarrow> ct_PeerMXID a \<noteq> [] \<Longrightarrow> i = j"
  shows "one_row_per_peer s"
  unfolding one_row_per_peer_def
proof (rule rows_agreeI, rule keyed_gmap_ok [OF assms(1) [unfolded contacts_ok_def]], intro impI, elim conjE)
  fix i j a b
  assume "gget (ms_contacts s) i = Some a" "gget (ms_contacts s) j = Some b"
    "ct_PeerMXID a = ct_PeerMXID b" "ct_PeerMXID a \<noteq> []"
  with assms(2) [of i a j b] show "ct_RoomID a = ct_RoomID b" by auto
qed

lemma contacts_ok_UpsertContact: "contacts_ok s \<Longrightarrow> contacts_ok (UpsertContact c s)"
  by (simp add: contacts_ok_def UpsertContact_def Let_def)

lemma contacts_ok_replace: "contacts_ok s \<Longrightarrow> contacts_ok (replace_contact k c s)"
  by (simp add: contacts_ok_def replace_contact_def)

lemma contacts_ok_new: "contacts_ok NewMemoryStore"
  by (simp add: contacts_ok_def NewMemoryStore_def)

lemma Upsert_contact_rows:
  assumes "contacts_ok s"
  shows "gget (ms_contacts (UpsertContact c s)) k =
    (if k = ct_RoomID c then Some c
     else case gget (ms_contacts s) k of
            None \<Rightarrow> None
          | Some e \<Rightarrow> if ct_PeerMXID c \<noteq> [] \<and> ct_PeerMXID e = ct_PeerMXID c then None else Some e)"
  using assms
  by (simp add: UpsertContact_def Let_def contacts_ok_def gget_gkeep keyed_gmap_ok split: option.split)

lemma Upsert_contact_cases:
  assumes "contacts_ok s" and "gget (ms_contacts (UpsertContact c s)) k = Some a"
  shows "k = ct_RoomID c \<and> a = c \<or>
    gget (ms_contacts s) k = Some a \<and> (ct_PeerMXID c = [] \<or> ct_PeerMXID a \<noteq> ct_PeerMXID c)"
  using assms(2) unfolding Upsert_contact_rows [OF assms(1)]
  by (auto split: if_splits option.splits)

lemma one_row_per_peer_UpsertContact:
  assumes "contacts_ok s" and "one_row_per_peer s"
  shows "one_row_per_peer (UpsertContact c s)"
proof (rule one_row_per_peerI [OF contacts_ok_UpsertContact [OF assms(1)]])
  fix i j a b
  assume ab: "gget (ms_contacts (UpsertContact c s)) i = Some a"
    "gget (ms_contacts (UpsertContact c s)) j = Some b"
    "ct_PeerMXID a = ct_PeerMXID b" "ct_PeerMXID a \<noteq> []"
  show "i = j"
    using Upsert_contact_cases [OF assms(1) ab(1)] Upsert_contact_cases [OF assms(1) ab(2)] ab(3,4)
      one_row_per_peerD [OF assms, of i a j b] by metis
qed

lemma expected_contactD:
  assumes "contacts_ok s" and "expected_contact e s = Some k"
  obtains c where "gget (ms_contacts s) k = Some c" and "k = ct_RoomID e"
    and "ct_PeerMXID c = ct_PeerMXID e" and "ct_PeerMXID e \<noteq> []"
    and "ct_RequestID c = ct_RequestID e"
    and "go_equal_fold (go_trim (ct_Status c)) (go_trim (ct_Status e))"
proof -
  have ok: "gmap_ok (ms_contacts s)" using assms(1) by (simp add: contacts_ok_def keyed_gmap_ok)
  obtain c where f: "gfind (\<lambda>_ candidate. ct_PeerMXID candidate = ct_PeerMXID e) (ms_contacts s) = Some (k, c)"
    and c: "ct_PeerMXID c \<noteq> []" "ct_RoomID c = ct_RoomID e" "ct_RequestID c = ct_RequestID e"
      "go_equal_fold (go_trim (ct_Status c)) (go_trim (ct_Status e))"
    using assms(2) by (auto simp: expected_contact_def split: option.splits if_splits)
  note get = gfind_gget [OF ok f]
  then have "k = ct_RoomID c" using assms(1) by (auto simp: contacts_ok_def dest: keyed_key)
  with get c that show thesis by simp
qed

text \<open>The row of a peer is unique, so the loop finds it whatever order it visits the map in.\<close>

lemma expected_contact_iff:
  assumes "contacts_ok s" and "one_row_per_peer s"
  shows "expected_contact e s = Some k \<longleftrightarrow>
    (\<exists>c. gget (ms_contacts s) k = Some c \<and> k = ct_RoomID e \<and> ct_PeerMXID c = ct_PeerMXID e \<and>
         ct_PeerMXID e \<noteq> [] \<and> ct_RequestID c = ct_RequestID e \<and>
         go_equal_fold (go_trim (ct_Status c)) (go_trim (ct_Status e)))"
    (is "?L = ?R")
proof
  assume ?L
  then show ?R by (rule expected_contactD [OF assms(1)]) blast
next
  assume ?R
  then obtain c where c: "gget (ms_contacts s) k = Some c" "k = ct_RoomID e"
    "ct_PeerMXID c = ct_PeerMXID e" "ct_PeerMXID e \<noteq> []" "ct_RequestID c = ct_RequestID e"
    "go_equal_fold (go_trim (ct_Status c)) (go_trim (ct_Status e))" by blast
  have "gfind (\<lambda>_ candidate. ct_PeerMXID candidate = ct_PeerMXID e) (ms_contacts s) = Some (k, c)"
  proof (rule gfind_unique)
    show "gmap_ok (ms_contacts s)" using assms(1) by (simp add: contacts_ok_def keyed_gmap_ok)
    show "j = k" if "gget (ms_contacts s) j = Some d" "ct_PeerMXID d = ct_PeerMXID e" for j d
      using one_row_per_peerD [OF assms that(1) c(1)] that(2) c(3,4) by simp
  qed (use c in auto)
  moreover have "ct_RoomID c = k"
    using c(1) assms(1) by (auto simp: contacts_ok_def dest: keyed_key)
  ultimately show ?L using c by (simp add: expected_contact_def)
qed

lemma one_row_per_peer_replace:
  assumes "contacts_ok s" and "one_row_per_peer s" and "expected_contact e s = Some k"
    and "ct_PeerMXID c = ct_PeerMXID e"
  shows "one_row_per_peer (replace_contact k c s)"
proof (rule one_row_per_peerI [OF contacts_ok_replace [OF assms(1)]])
  obtain d where d: "gget (ms_contacts s) k = Some d" "ct_PeerMXID d = ct_PeerMXID c" "ct_PeerMXID c \<noteq> []"
    using assms(4) by (auto intro: expected_contactD [OF assms(1,3)])
  have row: "i = ct_RoomID c \<and> a = c \<or> gget (ms_contacts s) i = Some a \<and> i \<noteq> k"
    if "gget (ms_contacts (replace_contact k c s)) i = Some a" for i a
    using that by (auto simp: replace_contact_def split: if_splits)
  fix i j a b
  assume ab: "gget (ms_contacts (replace_contact k c s)) i = Some a"
    "gget (ms_contacts (replace_contact k c s)) j = Some b"
    "ct_PeerMXID a = ct_PeerMXID b" "ct_PeerMXID a \<noteq> []"
  show "i = j"
    using row [OF ab(1)] row [OF ab(2)] ab(3,4) d one_row_per_peerD [OF assms(1,2)] by metis
qed

section \<open>Properties\<close>



text \<open>C22: a successful \<open>CompareAndSwapContactProjection\<close> leaves the three tables in step: the contact
  is stored under its room, the room is no longer a group, every conversation of the room is direct, and
  the peer has no direct conversation in any other room.  A refused swap changes nothing, and the only
  error is a contact without a room.\<close>

theorem ContactProjection_consistent:
  assumes "contacts_ok s" and "conversations_ok s" and "go_trim (ct_RoomID c) = ct_RoomID c"
  shows "case CompareAndSwapContactProjection now c e s of
      Inl err \<Rightarrow> ct_RoomID c = []
    | Inr (swapped, s') \<Rightarrow> swapped = (expected_contact e s \<noteq> None) \<and>
        (if swapped then
           gget (ms_contacts s') (ct_RoomID c) = Some c \<and> GetConversationByID s' (ConversationIDForRoomID (ct_RoomID c)) \<noteq> None \<and>
           gget (ms_groups s') (ct_RoomID c) = None \<and>
           (\<forall>i v. GetConversationByID s' i = Some v \<longrightarrow>
              (cv_MatrixRoomID v = ct_RoomID c \<longrightarrow> cv_Kind v = ''direct'') \<and>
              (cv_Kind v = ''direct'' \<and> cv_PeerMXID v = ct_PeerMXID c \<and> ct_PeerMXID c \<noteq> [] \<longrightarrow>
                 cv_MatrixRoomID v = ct_RoomID c))
         else s' = s)"
proof -
  let ?n = "NormalizeConversationRecord now (ConversationFromContact c)"
  have n: "cv_MatrixRoomID ?n = ct_RoomID c" "cv_Kind ?n = ''direct''"
    "ct_RoomID c \<noteq> [] \<Longrightarrow> cv_ConversationID ?n = ConversationIDForRoomID (ct_RoomID c)"
    using assms(3) by (simp_all add: ConversationFromContact_def zero_conversation_def)
  have valid: "validateConversationRecord now ?n = None" if "ct_RoomID c \<noteq> []"
    using that n by (simp add: validateConversationRecord_def Let_def
        del: NormalizeConversationRecord_fields(1)) (simp add: n assms(3))
  show ?thesis
  proof (cases "validateConversationRecord now ?n")
    case (Some err)
    with valid show ?thesis by (auto simp: CompareAndSwapContactProjection_def Let_def)
  next
    case valid: None
    show ?thesis
    proof (cases "expected_contact e s")
      case None
      with valid show ?thesis by (simp add: CompareAndSwapContactProjection_def Let_def)
    next
      case (Some k)
      define t where "t = s\<lparr>ms_contacts := gput (ct_RoomID c) c (gdel k (ms_contacts s)),
          ms_groups := gdel (ct_RoomID c) (ms_groups s),
          ms_conversations := gkeep (\<lambda>_ v. \<not> projection_drops c v) (ms_conversations s)\<rparr>"
      have result: "CompareAndSwapContactProjection now c e s = Inr (True, put_conversation ?n t)"
        using valid Some by (simp add: CompareAndSwapContactProjection_def Let_def replace_contact_def t_def)
      obtain r where r: "put_conversation ?n t =
            t\<lparr>ms_conversations := gput (cv_ConversationID ?n) r (ms_conversations t)\<rparr>"
          "cv_MatrixRoomID r = ct_RoomID c" "cv_Kind r = ''direct''"
        using put_conversation_row [of ?n t] n by auto
      have survivor: "\<not> projection_drops c v" if "gget (ms_conversations t) i = Some v" for i v
        using that assms(2)
        by (auto simp: t_def gget_gkeep conversations_ok_def keyed_gmap_ok split: option.splits if_splits)
      have direct: "(cv_MatrixRoomID v = ct_RoomID c \<longrightarrow> cv_Kind v = ''direct'') \<and>
          (cv_Kind v = ''direct'' \<and> cv_PeerMXID v = ct_PeerMXID c \<and> ct_PeerMXID c \<noteq> [] \<longrightarrow>
             cv_MatrixRoomID v = ct_RoomID c)"
        if "GetConversationByID (put_conversation ?n t) i = Some v" for i v
        using that survivor [of i v] r
        by (auto simp: GetConversationByID_def projection_drops_def split: if_splits)
      have "ct_RoomID c \<noteq> []"
      proof
        assume "ct_RoomID c = []"
        then have "cv_MatrixRoomID (NormalizeConversationRecord now ?n) = []"
          by (simp add: ConversationFromContact_def zero_conversation_def)
        then have "validateConversationRecord now ?n \<noteq> None"
          unfolding validateConversationRecord_def Let_def
          by (simp del: NormalizeConversationRecord_fields)
        with valid show False by simp
      qed
      then have "GetConversationByID (put_conversation ?n t) (ConversationIDForRoomID (ct_RoomID c)) \<noteq> None"
        using r(1) n(3) by (simp add: GetConversationByID_def)
      moreover have "gget (ms_contacts (put_conversation ?n t)) (ct_RoomID c) = Some c"
        "gget (ms_groups (put_conversation ?n t)) (ct_RoomID c) = None"
        using r(1) by (simp_all add: t_def)
      ultimately show ?thesis
        using Some direct by (simp add: result)
    qed
  qed
qed

theorem ContactProjection_consistent_witness:
  "let e = zero_contact\<lparr>ct_PeerMXID := ''@p:x'', ct_RoomID := ''!a:x'', ct_RequestID := ''q1'', ct_Status := ''pending''\<rparr>;
       c = e\<lparr>ct_RoomID := ''!b:x'', ct_Status := ''accepted''\<rparr>;
       s = UpsertContact e NewMemoryStore
   in \<exists>s'. CompareAndSwapContactProjection 7 c e s = Inr (True, s') \<and>
        gget (ms_contacts s') ''!b:x'' = Some c \<and>
        GetConversationByID s' (ConversationIDForRoomID ''!b:x'') \<noteq> None"
proof -
  define e where "e = zero_contact\<lparr>ct_PeerMXID := ''@p:x'', ct_RoomID := ''!a:x'', ct_RequestID := ''q1'',
    ct_Status := ''pending''\<rparr>"
  define c where "c = e\<lparr>ct_RoomID := ''!b:x'', ct_Status := ''accepted''\<rparr>"
  define s where "s = UpsertContact e NewMemoryStore"
  have ok: "contacts_ok s" "conversations_ok s"
    unfolding s_def by (rule contacts_ok_UpsertContact [OF contacts_ok_new])
      (simp add: conversations_ok_def UpsertContact_def Let_def NewMemoryStore_def)
  have "ms_contacts s = [(''!a:x'', e)]"
    by (simp add: s_def UpsertContact_def Let_def NewMemoryStore_def e_def gput_def gkeep_def gempty_def)
  then have x: "expected_contact e s = Some ''!a:x''"
    by (simp add: expected_contact_def gfind_def e_def)
  have room: "ct_RoomID c = ''!b:x''" "go_trim (ct_RoomID c) = ct_RoomID c"
    by (simp_all add: c_def go_trim_ascii ascii_graph_def)
  have "\<exists>s'. CompareAndSwapContactProjection 7 c e s = Inr (True, s') \<and>
      gget (ms_contacts s') ''!b:x'' = Some c \<and> GetConversationByID s' (ConversationIDForRoomID ''!b:x'') \<noteq> None"
    using ContactProjection_consistent [OF ok room(2), of e 7] x room(1)
    by (auto split: sum.splits if_splits)
  then show ?thesis by (simp add: Let_def c_def e_def s_def)
qed

end
