(* ===== verification/Store_Content.thy ===== *)
theory Store_Content
  imports Store
begin

text \<open>
  Channel posts, their settings and comments (\<open>p2p/storage/memory_channel_content.go\<close>).  Posts and
  comments are lists with one entry per id.  The lemmas show that explicit settings survive the replay
  of a post and do not depend on which of the two arrives first, and that reading with a keyset cursor
  visits every record exactly once.
\<close>

section \<open>Posts\<close>

definition normalizeChannelPostRecord :: "channel_post \<Rightarrow> channel_post" where
  "normalizeChannelPostRecord r =
     (let r = r\<lparr>po_Visibility := NormalizeChannelPostVisibility (po_Visibility r)\<rparr>
      in if \<not> po_CommentsEnabledSet r then r\<lparr>po_CommentsEnabled := True, po_CommentsEnabledSet := True\<rparr>
         else r)"

text \<open>Updates the first entry that satisfies a predicate, as the index loops do.\<close>

fun update_first :: "('a \<Rightarrow> bool) \<Rightarrow> ('a \<Rightarrow> 'a) \<Rightarrow> 'a list \<Rightarrow> 'a list" where
  "update_first p f [] = []"
| "update_first p f (x # xs) = (if p x then f x # xs else x # update_first p f xs)"

text \<open>The settings stored for this post event, applied to the incoming post.\<close>

definition with_stored_settings :: "memory_store \<Rightarrow> channel_post \<Rightarrow> channel_post" where
  "with_stored_settings s post =
     (case gget (ms_postSettings s) (po_PostID post) of
        Some settings \<Rightarrow>
          if st_PostEventID settings = po_EventID post
          then post\<lparr>po_Visibility := st_Visibility settings,
                    po_CommentsEnabled := st_CommentsEnabled settings,
                    po_CommentsEnabledSet := True, po_SettingsUpdated := True\<rparr>
          else post
      | None \<Rightarrow> post)"

definition InsertChannelPost :: "channel_post \<Rightarrow> memory_store \<Rightarrow> memory_store" where
  "InsertChannelPost post s =
     (let post = with_stored_settings s (normalizeChannelPostRecord post);
          same = (\<lambda>p. po_PostID p = po_PostID post)
      in if list_ex same (ms_posts s) then
           s\<lparr>ms_posts := update_first same
               (\<lambda>p. if po_SettingsUpdated p
                    then post\<lparr>po_Visibility := po_Visibility p,
                              po_CommentsEnabled := po_CommentsEnabled p,
                              po_CommentsEnabledSet := True, po_SettingsUpdated := True\<rparr>
                    else post) (ms_posts s)\<rparr>
         else s\<lparr>ms_posts := ms_posts s @ [post]\<rparr>)"

definition ApplyChannelPostSettings :: "channel_post_settings \<Rightarrow> memory_store \<Rightarrow> memory_store" where
  "ApplyChannelPostSettings settings s =
     (let settings = settings\<lparr>
            st_PostID := go_trim (st_PostID settings),
            st_PostEventID := go_trim (st_PostEventID settings),
            st_Visibility := NormalizeChannelPostVisibility (st_Visibility settings)\<rparr>
      in if (case gget (ms_postSettings s) (st_PostID settings) of
               Some current \<Rightarrow> st_UpdatedAt current > st_UpdatedAt settings
             | None \<Rightarrow> False)
         then s
         else s\<lparr>ms_postSettings := gput (st_PostID settings) settings (ms_postSettings s),
                ms_posts := update_first
                  (\<lambda>p. po_PostID p = st_PostID settings \<and> po_EventID p = st_PostEventID settings)
                  (\<lambda>p. p\<lparr>po_Visibility := st_Visibility settings,
                          po_CommentsEnabled := st_CommentsEnabled settings,
                          po_CommentsEnabledSet := True, po_SettingsUpdated := True\<rparr>) (ms_posts s)\<rparr>)"

definition GetChannelPostByID :: "memory_store \<Rightarrow> string \<Rightarrow> string \<Rightarrow> channel_post option" where
  "GetChannelPostByID s postID channelID =
     (if postID = [] then None
      else find (\<lambda>p. po_PostID p = postID \<and> (channelID = [] \<or> po_ChannelID p = channelID)) (ms_posts s))"

definition GetChannelPostByEventID :: "memory_store \<Rightarrow> string \<Rightarrow> string \<Rightarrow> channel_post option" where
  "GetChannelPostByEventID s eventID channelID =
     (if eventID = [] then None
      else find (\<lambda>p. po_EventID p = eventID \<and> (channelID = [] \<or> po_ChannelID p = channelID)) (ms_posts s))"

definition ListChannelPosts :: "memory_store \<Rightarrow> string \<Rightarrow> channel_post list" where
  "ListChannelPosts s channelID = filter (\<lambda>p. channelID = [] \<or> po_ChannelID p = channelID) (ms_posts s)"

section \<open>Pages\<close>

text \<open>The comparator of \<open>memoryKeysetPage\<close>: newest first, then the larger id.\<close>

definition keysetLess :: "('a \<Rightarrow> int \<times> string) \<Rightarrow> 'a \<Rightarrow> 'a \<Rightarrow> bool" where
  "keysetLess key a b =
     (let (leftTS, leftID) = key a; (rightTS, rightID) = key b
      in if leftTS = rightTS then leftID > rightID else leftTS > rightTS)"

definition in_window :: "int \<Rightarrow> int \<Rightarrow> ('a \<Rightarrow> bool) \<Rightarrow> ('a \<Rightarrow> int \<times> string) \<Rightarrow> 'a \<Rightarrow> bool" where
  "in_window fromTS snapshotTS matches key r \<longleftrightarrow>
     \<not> (\<not> matches r \<or> fromTS > 0 \<and> fst (key r) < fromTS \<or> snapshotTS > 0 \<and> fst (key r) > snapshotTS)"

definition before_cursor :: "int \<Rightarrow> string \<Rightarrow> ('a \<Rightarrow> int \<times> string) \<Rightarrow> 'a \<Rightarrow> bool" where
  "before_cursor cursorTS cursorID key r \<longleftrightarrow>
     \<not> (cursorTS > 0 \<and> \<not> (fst (key r) < cursorTS \<or>
          fst (key r) = cursorTS \<and> go_trim (snd (key r)) < go_trim cursorID))"

definition memoryKeysetPage ::
  "'a list \<Rightarrow> int \<Rightarrow> int \<Rightarrow> int \<Rightarrow> string \<Rightarrow> int \<Rightarrow> ('a \<Rightarrow> bool) \<Rightarrow> ('a \<Rightarrow> int \<times> string) \<Rightarrow> 'a list \<times> bool" where
  "memoryKeysetPage records fromTS snapshotTS cursorTS cursorID limit matches key =
     (let filtered = filter (\<lambda>r. in_window fromTS snapshotTS matches key r \<and>
                                 before_cursor cursorTS cursorID key r) records;
          filtered = go_sort (keysetLess key) filtered;
          hasMore = (limit \<ge> 0 \<and> int (length filtered) > limit)
      in (if hasMore then take (nat limit) filtered else filtered, hasMore))"

definition post_key :: "channel_post \<Rightarrow> int \<times> string" where
  "post_key p = (po_OriginServerTS p, po_PostID p)"

definition ListChannelPostsPage ::
  "memory_store \<Rightarrow> string \<Rightarrow> int \<Rightarrow> int \<Rightarrow> int \<Rightarrow> string \<Rightarrow> int \<Rightarrow> channel_post list \<times> bool" where
  "ListChannelPostsPage s channelID fromTS snapshotTS cursorTS cursorID limit =
     memoryKeysetPage (ms_posts s) fromTS snapshotTS cursorTS cursorID limit
       (\<lambda>p. channelID = [] \<or> po_ChannelID p = channelID) post_key"

text \<open>The slice expressions panic on a negative offset or limit: \<open>None\<close>.\<close>

definition offset_page :: "'a list \<Rightarrow> int \<Rightarrow> int \<Rightarrow> ('a list \<times> bool) option" where
  "offset_page posts offset limit =
     (if offset \<ge> int (length posts) then Some ([], False)
      else if offset < 0 then None
      else let posts = drop (nat offset) posts; hasMore = int (length posts) > limit
           in if hasMore then if limit < 0 then None else Some (take (nat limit) posts, True)
              else Some (posts, False))"

definition ListChannelPostsOffsetPage ::
  "memory_store \<Rightarrow> string \<Rightarrow> int \<Rightarrow> int \<Rightarrow> (channel_post list \<times> bool) option" where
  "ListChannelPostsOffsetPage s channelID offset limit =
     offset_page (go_sort (keysetLess post_key)
       (filter (\<lambda>p. channelID = [] \<or> po_ChannelID p = channelID) (ms_posts s))) offset limit"

definition ListChannelPostsByVisibilityPage ::
  "memory_store \<Rightarrow> string \<Rightarrow> string \<Rightarrow> int \<Rightarrow> int \<Rightarrow> (channel_post list \<times> bool) option" where
  "ListChannelPostsByVisibilityPage s channelID visibility offset limit =
     (let visibility = NormalizeChannelPostVisibility visibility
      in offset_page (go_sort (keysetLess post_key)
           (filter (\<lambda>p. po_ChannelID p = channelID \<and>
                        po_Visibility (normalizeChannelPostRecord p) = visibility) (ms_posts s)))
           offset limit)"

section \<open>Comments and removal\<close>

definition InsertChannelComment :: "channel_comment \<Rightarrow> memory_store \<Rightarrow> memory_store" where
  "InsertChannelComment c s =
     (let same = (\<lambda>x. cm_CommentID x = cm_CommentID c)
      in if list_ex same (ms_comments s)
         then s\<lparr>ms_comments := update_first same (\<lambda>_. c) (ms_comments s)\<rparr>
         else s\<lparr>ms_comments := ms_comments s @ [c]\<rparr>)"

definition GetChannelCommentByID :: "memory_store \<Rightarrow> string \<Rightarrow> string \<Rightarrow> channel_comment option" where
  "GetChannelCommentByID s commentID postID =
     (if commentID = [] then None
      else find (\<lambda>c. cm_CommentID c = commentID \<and> (postID = [] \<or> cm_PostID c = postID)) (ms_comments s))"

definition GetChannelCommentByEventID :: "memory_store \<Rightarrow> string \<Rightarrow> string \<Rightarrow> channel_comment option" where
  "GetChannelCommentByEventID s eventID channelID =
     (if eventID = [] then None
      else find (\<lambda>c. cm_EventID c = eventID \<and> (channelID = [] \<or> cm_ChannelID c = channelID)) (ms_comments s))"

definition ListChannelComments :: "memory_store \<Rightarrow> string \<Rightarrow> channel_comment list" where
  "ListChannelComments s postID = filter (\<lambda>c. postID = [] \<or> cm_PostID c = postID) (ms_comments s)"

definition comment_key :: "channel_comment \<Rightarrow> int \<times> string" where
  "comment_key c = (cm_OriginServerTS c, cm_CommentID c)"

definition ListChannelCommentsPage ::
  "memory_store \<Rightarrow> string \<Rightarrow> int \<Rightarrow> int \<Rightarrow> int \<Rightarrow> string \<Rightarrow> int \<Rightarrow> channel_comment list \<times> bool" where
  "ListChannelCommentsPage s postID fromTS snapshotTS cursorTS cursorID limit =
     memoryKeysetPage (ms_comments s) fromTS snapshotTS cursorTS cursorID limit
       (\<lambda>c. postID = [] \<or> cm_PostID c = postID) comment_key"

definition DeleteChannelPost :: "string \<Rightarrow> memory_store \<Rightarrow> bool \<times> memory_store" where
  "DeleteChannelPost postID s =
     (let hit = (\<lambda>p. po_PostID p = postID \<or> po_EventID p = postID)
      in (list_ex hit (ms_posts s), s\<lparr>ms_posts := filter (\<lambda>p. \<not> hit p) (ms_posts s)\<rparr>))"

definition DeleteChannelComment :: "string \<Rightarrow> memory_store \<Rightarrow> bool \<times> memory_store" where
  "DeleteChannelComment commentID s =
     (let hit = (\<lambda>c. cm_CommentID c = commentID \<or> cm_EventID c = commentID)
      in (list_ex hit (ms_comments s), s\<lparr>ms_comments := filter (\<lambda>c. \<not> hit c) (ms_comments s)\<rparr>))"

definition content_ok :: "memory_store \<Rightarrow> bool" where
  "content_ok s \<longleftrightarrow> distinct (map po_PostID (ms_posts s)) \<and> distinct (map cm_CommentID (ms_comments s)) \<and>
     keyed st_PostID (ms_postSettings s)"

definition zero_post :: channel_post where
  "zero_post = \<lparr>po_PostID = [], po_ChannelID = [], po_RoomID = [], po_EventID = [], po_AuthorMXID = [],
     po_AuthorName = [], po_Title = [], po_Body = [], po_MessageType = [], po_MediaJSON = [],
     po_Visibility = [], po_CommentsEnabled = False, po_CommentsEnabledSet = False,
     po_SettingsUpdated = False, po_OriginServerTS = 0, po_CommentCount = 0\<rparr>"

section \<open>Lemmas\<close>

lemma update_first_map: "(\<And>x. p x \<Longrightarrow> g (f x) = g x) \<Longrightarrow> map g (update_first p f xs) = map g xs"
  by (induction xs) auto

lemma update_first_none: "\<not> list_ex p xs \<Longrightarrow> update_first p f xs = xs"
  by (induction xs) auto

lemma update_first_snoc: "\<not> list_ex p xs \<Longrightarrow> update_first p f (xs @ [x]) = xs @ [if p x then f x else x]"
  by (induction xs) auto

text \<open>With distinct ids the entry updated is the one with the id.\<close>

lemma update_first_id:
  "distinct (map g xs) \<Longrightarrow> x \<in> set xs \<Longrightarrow> g x = i \<Longrightarrow> (\<And>y. g y = i \<Longrightarrow> g (f y) = i) \<Longrightarrow>
   set (update_first (\<lambda>y. g y = i) f xs) = insert (f x) (set xs - {x})"
proof (induction xs)
  case (Cons y ys)
  show ?case
  proof (cases "g y = i")
    case True
    then have "x = y" using Cons.prems by (auto simp: image_iff)
    moreover have "y \<notin> set ys" using Cons.prems(1) by auto
    ultimately show ?thesis using True by auto
  next
    case False
    with Cons have "x \<in> set ys" "x \<noteq> y" by auto
    with Cons False show ?thesis by auto
  qed
qed simp

lemma normalize_post_id [simp]:
  "po_PostID (normalizeChannelPostRecord p) = po_PostID p"
  "po_EventID (normalizeChannelPostRecord p) = po_EventID p"
  "po_Body (normalizeChannelPostRecord p) = po_Body p"
  by (simp_all add: normalizeChannelPostRecord_def Let_def)

lemma with_stored_settings_id [simp]:
  "po_PostID (with_stored_settings s p) = po_PostID p"
  "po_EventID (with_stored_settings s p) = po_EventID p"
  "po_Body (with_stored_settings s p) = po_Body p"
  by (simp_all add: with_stored_settings_def split: option.split)

lemma content_ok_new: "content_ok NewMemoryStore"
  by (simp add: content_ok_def NewMemoryStore_def)

lemma content_ok_InsertChannelPost: "content_ok s \<Longrightarrow> content_ok (InsertChannelPost p s)"
  by (auto simp: content_ok_def InsertChannelPost_def Let_def update_first_map list_ex_iff image_iff)

lemma content_ok_ApplySettings: "content_ok s \<Longrightarrow> content_ok (ApplyChannelPostSettings st s)"
  by (auto simp: content_ok_def ApplyChannelPostSettings_def Let_def update_first_map)

lemma content_ok_InsertChannelComment: "content_ok s \<Longrightarrow> content_ok (InsertChannelComment c s)"
  by (auto simp: content_ok_def InsertChannelComment_def Let_def update_first_map list_ex_iff image_iff)

lemma content_ok_Delete:
  "content_ok s \<Longrightarrow> content_ok (snd (DeleteChannelPost i s))"
  "content_ok s \<Longrightarrow> content_ok (snd (DeleteChannelComment i s))"
  by (simp_all add: content_ok_def DeleteChannelPost_def DeleteChannelComment_def Let_def distinct_map_filter)

section \<open>Keyset pagination\<close>

lemma keysetLess_iff: "keysetLess key a b \<longleftrightarrow> key b < key a"
  by (cases "key a"; cases "key b") (auto simp: keysetLess_def less_prod_def')

interpretation keyset: keyed_comparator "keysetLess key" key for key
  by unfold_locales (auto simp: keysetLess_iff)

text \<open>A client that reads page after page, using the key of the last record as the next cursor.\<close>

fun read_pages ::
  "nat \<Rightarrow> (int \<times> string \<Rightarrow> 'a list \<times> bool) \<Rightarrow> ('a \<Rightarrow> int \<times> string) \<Rightarrow> int \<times> string \<Rightarrow> 'a list list" where
  "read_pages 0 page key c = []"
| "read_pages (Suc n) page key c =
     (let (p, more) = page c in if more then p # read_pages n page key (key (last p)) else [p])"

lemma after_cursor:
  "sorted_wrt (\<lambda>a b. key b < (key a :: int \<times> string)) (A @ B) \<Longrightarrow> A \<noteq> [] \<Longrightarrow>
   filter (\<lambda>r. key r < key (last A)) (A @ B) = B"
proof -
  assume s: "sorted_wrt (\<lambda>a b. key b < key a) (A @ B)" and ne: "A \<noteq> []"
  obtain A' l where A: "A = A' @ [l]" using ne by (metis append_butlast_last_id)
  have "filter (\<lambda>r. key r < key l) (A' @ [l]) = []"
    using s by (auto simp: A sorted_wrt_append filter_empty_conv)
  moreover have "filter (\<lambda>r. key r < key l) B = B"
    using s by (auto simp: A sorted_wrt_append filter_id_conv)
  ultimately show ?thesis by (simp add: A)
qed

lemma read_pages_complete:
  assumes sorted: "sorted_wrt (\<lambda>a b. key b < key a) (A @ B)"
    and limit: "0 < limit"
    and page: "\<And>c B'. c = start \<or> c \<in> key ` set (A @ B) \<Longrightarrow> filter (before c) (A @ B) = B' \<Longrightarrow>
        page c = (if int (length B') > limit then (take (nat limit) B', True) else (B', False))"
    and before: "\<And>c r. c \<in> set (A @ B) \<Longrightarrow> r \<in> set (A @ B) \<Longrightarrow> before (key c) r \<longleftrightarrow> key r < key c"
    and cur: "c = start \<or> c \<in> key ` set (A @ B)" "filter (before c) (A @ B) = B"
    and fuel: "length B < n"
  shows "concat (read_pages n page key c) = B"
  using assms
proof (induction n arbitrary: A B c)
  case (Suc n)
  note pg = Suc.prems(3) [OF Suc.prems(5,6)]
  show ?case
  proof (cases "int (length B) > limit")
    case False
    then show ?thesis by (simp add: pg)
  next
    case True
    let ?T = "take (nat limit) B" and ?D = "drop (nat limit) B"
    have T: "?T \<noteq> []" and whole: "(A @ ?T) @ ?D = A @ B" using Suc.prems(2) True by auto
    have lastT: "last ?T \<in> set (A @ B)" using last_in_set [OF T] by (auto dest: in_set_takeD)
    have "filter (before (key (last ?T))) (A @ B) = filter (\<lambda>r. key r < key (last ?T)) ((A @ ?T) @ ?D)"
      unfolding whole using Suc.prems(4) [OF lastT] by (intro filter_cong) auto
    also have "\<dots> = ?D"
      using after_cursor [of key "A @ ?T" ?D] Suc.prems(1) T unfolding whole by simp
    finally have next_rows: "filter (before (key (last ?T))) (A @ B) = ?D" .
    have "concat (read_pages n page key (key (last ?T))) = ?D"
      by (rule Suc.IH [of "A @ ?T" ?D, unfolded whole])
        (use Suc.prems lastT next_rows True in auto)
    with True show ?thesis by (simp add: pg)
  qed
qed simp

lemma keyset_page:
  assumes "distinct (map key records)" and "0 < limit"
    and "filter (before_cursor cts cid key)
           (go_sort (keysetLess key) (filter (in_window from snap m key) records)) = B"
  shows "memoryKeysetPage records from snap cts cid limit m key =
    (if int (length B) > limit then (take (nat limit) B, True) else (B, False))"
proof -
  have eq: "go_sort (keysetLess key) (filter (\<lambda>r. in_window from snap m key r \<and> before_cursor cts cid key r) records) =
      filter (before_cursor cts cid key) (go_sort (keysetLess key) (filter (in_window from snap m key) records))"
    using keyset.go_sort_filter [OF distinct_map_filter [OF assms(1)]]
    by (simp add: conj_commute)
  show ?thesis
    unfolding memoryKeysetPage_def Let_def eq assms(3) using assms(2) by simp
qed

lemma keyset_pages_complete:
  assumes "distinct (map key records)" and "0 < limit"
    and "\<And>r. r \<in> set records \<Longrightarrow> 0 < fst (key r) \<and> go_trim (snd (key r)) = snd (key r)"
    and "length records < n"
  shows "concat (read_pages n (\<lambda>(cts, cid). memoryKeysetPage records from snap cts cid limit m key) key (0, [])) =
    go_sort (keysetLess key) (filter (in_window from snap m key) records)"
proof -
  let ?S = "go_sort (keysetLess key) (filter (in_window from snap m key) records)"
  let ?before = "\<lambda>(cts, cid). before_cursor cts cid key"
  have "sorted_wrt (keysetLess key) ?S"
    using assms(1) by (intro keyset.sorted_strict distinct_map_filter)
  then have sorted: "sorted_wrt (\<lambda>a b. key b < key a) ([] @ ?S)"
    by (simp add: keysetLess_iff [abs_def])
  show ?thesis
  proof (rule read_pages_complete [OF sorted assms(2), where before = ?before and start = "(0, [])"])
    show "(\<lambda>(cts, cid). memoryKeysetPage records from snap cts cid limit m key) c =
        (if int (length B') > limit then (take (nat limit) B', True) else (B', False))"
      if "filter (?before c) ([] @ ?S) = B'" for c B'
      using that keyset_page [OF assms(1,2)] by (cases c) simp
    show "?before (key c) r \<longleftrightarrow> key r < key c" if "c \<in> set ([] @ ?S)" "r \<in> set ([] @ ?S)" for c r
      using that assms(3) [of c] assms(3) [of r]
      by (cases "key c"; cases "key r") (auto simp: before_cursor_def less_prod_def')
    show "filter (?before (0, [])) ([] @ ?S) = ?S"
      by (simp add: before_cursor_def)
    show "length ?S < n"
      using assms(4) by (metis length_go_sort le_less_trans length_filter_le)
  qed simp
qed

section \<open>Properties\<close>

text \<open>C34: reading the posts of a channel page by page, with the timestamp and id of the last post as
  the next cursor, returns every post of the channel inside the time window exactly once, newest
  first, and ends after finitely many pages.  Posts carry a positive timestamp and a trimmed id.\<close>

theorem ListChannelPostsPage_complete:
  assumes "content_ok s" and "0 < limit" and "length (ms_posts s) < n"
    and "list_all (\<lambda>p. 0 < po_OriginServerTS p \<and> go_trim (po_PostID p) = po_PostID p) (ms_posts s)"
  shows "let pages = read_pages n (\<lambda>(cts, cid). ListChannelPostsPage s channelID from snap cts cid limit)
                       post_key (0, []) in
    distinct (concat pages) \<and> sorted_wrt (keysetLess post_key) (concat pages) \<and>
    set (concat pages) = {p \<in> set (ms_posts s). (channelID = [] \<or> po_ChannelID p = channelID) \<and>
        (0 < from \<longrightarrow> from \<le> po_OriginServerTS p) \<and> (0 < snap \<longrightarrow> po_OriginServerTS p \<le> snap)}"
proof -
  let ?m = "\<lambda>p. channelID = [] \<or> po_ChannelID p = channelID"
  let ?S = "go_sort (keysetLess post_key) (filter (in_window from snap ?m post_key) (ms_posts s))"
  have d: "distinct (map po_PostID (ms_posts s))"
    using assms(1) by (simp add: content_ok_def)
  have dk: "distinct (map post_key (ms_posts s))"
    by (rule distinct_map_via [OF d]) (simp add: post_key_def)
  have pages: "concat (read_pages n (\<lambda>(cts, cid). ListChannelPostsPage s channelID from snap cts cid limit)
      post_key (0, [])) = ?S"
    unfolding ListChannelPostsPage_def
    by (rule keyset_pages_complete [OF dk assms(2) _ assms(3)])
      (use assms(4) in \<open>auto simp: list_all_iff post_key_def\<close>)
  have "distinct (ms_posts s)" using d by (simp add: distinct_map)
  moreover have "sorted_wrt (keysetLess post_key) ?S"
    using dk by (intro keyset.sorted_strict distinct_map_filter)
  ultimately show ?thesis
    unfolding Let_def pages by (auto simp: in_window_def post_key_def)
qed

theorem ListChannelPostsPage_complete_witness:
  "let p = zero_post\<lparr>po_PostID := ''a'', po_OriginServerTS := 5\<rparr>;
       q = zero_post\<lparr>po_PostID := ''b'', po_OriginServerTS := 7\<rparr>;
       s = InsertChannelPost q (InsertChannelPost p NewMemoryStore)
   in set (concat (read_pages 3 (\<lambda>(cts, cid). ListChannelPostsPage s [] 0 0 cts cid 1) post_key (0, []))) =
      set (ms_posts s)"
proof -
  define p where "p = zero_post\<lparr>po_PostID := ''a'', po_OriginServerTS := 5\<rparr>"
  define q where "q = zero_post\<lparr>po_PostID := ''b'', po_OriginServerTS := 7\<rparr>"
  define s where "s = InsertChannelPost q (InsertChannelPost p NewMemoryStore)"
  have ok: "content_ok s"
    unfolding s_def by (intro content_ok_InsertChannelPost content_ok_new)
  have rows: "ms_posts s = [normalizeChannelPostRecord p, normalizeChannelPostRecord q]"
    by (simp add: s_def InsertChannelPost_def with_stored_settings_def Let_def NewMemoryStore_def p_def q_def)
  have all: "list_all (\<lambda>p. 0 < po_OriginServerTS p \<and> go_trim (po_PostID p) = po_PostID p) (ms_posts s)"
    by (simp add: rows p_def q_def normalizeChannelPostRecord_def Let_def literal_eval)
  have "set (concat (read_pages 3 (\<lambda>(cts, cid). ListChannelPostsPage s [] 0 0 cts cid 1) post_key (0, []))) = set (ms_posts s)"
    using ListChannelPostsPage_complete [of s 1 3 "[]" 0 0, OF ok _ _ all] rows
    unfolding Let_def by auto
  then show ?thesis by (simp only: Let_def p_def q_def s_def)
qed

text \<open>Explicit post settings survive a replay: inserting a post again whose stored copy has
  explicit settings keeps the stored visibility and comment switch, and changes no other post.\<close>

theorem InsertChannelPost_keeps_settings:
  assumes "content_ok s" and "p \<in> set (ms_posts s)" and "po_SettingsUpdated p"
    and "po_PostID q = po_PostID p"
  shows "\<exists>r. set (ms_posts (InsertChannelPost q s)) = insert r (set (ms_posts s) - {p}) \<and>
    po_PostID r = po_PostID p \<and> po_EventID r = po_EventID q \<and> po_Body r = po_Body q \<and>
    po_Visibility r = po_Visibility p \<and> po_CommentsEnabled r = po_CommentsEnabled p \<and> po_SettingsUpdated r"
proof -
  have d: "distinct (map po_PostID (ms_posts s))"
    using assms(1) by (simp add: content_ok_def)
  define q' where "q' = with_stored_settings s (normalizeChannelPostRecord q)"
  have q': "po_PostID q' = po_PostID p" "po_EventID q' = po_EventID q" "po_Body q' = po_Body q"
    by (simp_all add: q'_def assms(4))
  have "list_ex (\<lambda>x. po_PostID x = po_PostID p) (ms_posts s)"
    using assms(2) by (auto simp: list_ex_iff)
  then have ins: "ms_posts (InsertChannelPost q s) = update_first (\<lambda>x. po_PostID x = po_PostID p)
      (\<lambda>x. if po_SettingsUpdated x
           then q'\<lparr>po_Visibility := po_Visibility x, po_CommentsEnabled := po_CommentsEnabled x,
                   po_CommentsEnabledSet := True, po_SettingsUpdated := True\<rparr> else q') (ms_posts s)"
    by (simp add: InsertChannelPost_def Let_def q' flip: q'_def)
  show ?thesis
    unfolding ins using update_first_id [OF d assms(2) refl] q' assms(3) by auto
qed

theorem InsertChannelPost_keeps_settings_witness:
  "let p = zero_post\<lparr>po_PostID := ''a'', po_Visibility := ''public'', po_SettingsUpdated := True\<rparr>;
       s = NewMemoryStore\<lparr>ms_posts := [p]\<rparr>
   in \<exists>r. set (ms_posts (InsertChannelPost (p\<lparr>po_Visibility := ''private''\<rparr>) s)) = {r} \<and>
          po_Visibility r = ''public''"
proof -
  define p where "p = zero_post\<lparr>po_PostID := ''a'', po_Visibility := ''public'', po_SettingsUpdated := True\<rparr>"
  define s where "s = NewMemoryStore\<lparr>ms_posts := [p]\<rparr>"
  have "content_ok s" by (simp add: content_ok_def s_def NewMemoryStore_def)
  from InsertChannelPost_keeps_settings [OF this, of p "p\<lparr>po_Visibility := ''private''\<rparr>"]
  show ?thesis by (auto simp: Let_def s_def p_def)
qed

text \<open>A post and its settings may arrive in either order: for a post not stored yet and without
  stored settings, inserting the post and then applying the settings gives the same posts and the same
  settings as the other way round.\<close>

theorem post_settings_commute:
  assumes "\<not> list_ex (\<lambda>x. po_PostID x = po_PostID p) (ms_posts s)"
    and "gget (ms_postSettings s) (po_PostID p) = None"
    and "gget (ms_postSettings s) (go_trim (st_PostID st)) = None"
    and "\<not> list_ex (\<lambda>x. po_PostID x = go_trim (st_PostID st)) (ms_posts s)"
  shows "InsertChannelPost p (ApplyChannelPostSettings st s) = ApplyChannelPostSettings st (InsertChannelPost p s)"
proof -
  have none: "\<not> list_ex (\<lambda>x. po_PostID x = go_trim (st_PostID st) \<and> po_EventID x = e) (ms_posts s)" for e
    using assms(4) by (auto simp: list_ex_iff)
  have post: "po_PostID x = po_PostID p \<Longrightarrow> x \<notin> set (ms_posts s)" for x
    using assms(1) by (auto simp: list_ex_iff)
  show ?thesis
    using assms none
    by (auto simp: InsertChannelPost_def ApplyChannelPostSettings_def with_stored_settings_def Let_def
        update_first_none update_first_snoc)
qed

theorem post_settings_commute_witness:
  "let p = zero_post\<lparr>po_PostID := ''a'', po_EventID := ''$e''\<rparr>;
       st = \<lparr>st_PostID = '' a'', st_ChannelID = [], st_RoomID = [], st_PostEventID = ''$e'',
             st_Visibility = ''public'', st_CommentsEnabled = False, st_UpdatedAt = 3\<rparr>
   in InsertChannelPost p (ApplyChannelPostSettings st NewMemoryStore) =
      ApplyChannelPostSettings st (InsertChannelPost p NewMemoryStore)"
  unfolding Let_def by (rule post_settings_commute) (simp_all add: NewMemoryStore_def)

end
