(* ===== verification/Store_Events.thy ===== *)
theory Store_Events
  imports Store
begin

text \<open>
  The realtime event log (\<open>p2p/storage/memory_events.go\<close>) and the recording of agent execution
  completions (\<open>agent_execution_completion.go\<close>).  The log is a list with two indexes, one by sequence
  number and one by deduplication key; \<open>events_ok\<close> says that the indexes describe the list, and every
  operation keeps it.  A completion is recorded exactly once, and an exact retry returns the original
  sequence number whatever happened to the log in between.
\<close>

section \<open>The log\<close>

definition InsertEvent :: "p2p_event \<Rightarrow> memory_store \<Rightarrow> bool \<times> memory_store" where
  "InsertEvent event s =
     (if gget (ms_eventSeq s) (ev_Seq event) \<noteq> None then (False, s)
      else if ev_DedupeKey event \<noteq> [] \<and> gget (ms_eventDedupe s) (ev_DedupeKey event) \<noteq> None then (False, s)
      else (True, s\<lparr>ms_eventDedupe := (if ev_DedupeKey event \<noteq> []
                                      then gput (ev_DedupeKey event) (ev_Seq event) (ms_eventDedupe s)
                                      else ms_eventDedupe s),
                    ms_eventSeq := gput (ev_Seq event) () (ms_eventSeq s),
                    ms_events := ms_events s @ [event]\<rparr>))"

definition ListEvents :: "memory_store \<Rightarrow> int \<Rightarrow> int \<Rightarrow> p2p_event list" where
  "ListEvents s since limit =
     (let limit = (if limit \<le> 0 \<or> limit > 500 then 100 else limit)
      in take (nat limit) (filter (\<lambda>e. \<not> ev_Seq e \<le> since) (ms_events s)))"

text \<open>The first iteration (\<open>i == 0\<close>) sets both bounds; \<open>Count\<close> is zero exactly then.\<close>

definition bound_step :: "p2p_event \<Rightarrow> event_bounds \<Rightarrow> event_bounds" where
  "bound_step e b = \<lparr>
     eb_MinSeq = (if eb_Count b = 0 \<or> ev_Seq e < eb_MinSeq b then ev_Seq e else eb_MinSeq b),
     eb_MaxSeq = (if eb_Count b = 0 \<or> ev_Seq e > eb_MaxSeq b then ev_Seq e else eb_MaxSeq b),
     eb_Count = eb_Count b + 1\<rparr>"

definition EventBounds :: "memory_store \<Rightarrow> event_bounds" where
  "EventBounds s = fold bound_step (ms_events s) \<lparr>eb_MinSeq = 0, eb_MaxSeq = 0, eb_Count = 0\<rparr>"

text \<open>One iteration of the pruning loop on the kept events, the indexes and the counter.\<close>

definition prune_step ::
  "int \<Rightarrow> p2p_event \<Rightarrow> p2p_event list \<times> (int, unit) gomap \<times> (string, int) gomap \<times> int
   \<Rightarrow> p2p_event list \<times> (int, unit) gomap \<times> (string, int) gomap \<times> int" where
  "prune_step beforeSeq e = (\<lambda>(kept, seqs, dedupe, deleted).
     if ev_Seq e < beforeSeq
     then (kept, gdel (ev_Seq e) seqs,
           if ev_DedupeKey e \<noteq> [] then gdel (ev_DedupeKey e) dedupe else dedupe, deleted + 1)
     else (kept @ [e], seqs, dedupe, deleted))"

definition PruneEventsBefore :: "int \<Rightarrow> memory_store \<Rightarrow> int \<times> memory_store" where
  "PruneEventsBefore beforeSeq s =
     (if beforeSeq \<le> 0 then (0, s)
      else let (kept, seqs, dedupe, deleted) =
                 fold (prune_step beforeSeq) (ms_events s) ([], ms_eventSeq s, ms_eventDedupe s, 0)
           in (deleted, s\<lparr>ms_events := kept, ms_eventSeq := seqs, ms_eventDedupe := dedupe\<rparr>))"

definition index_step ::
  "p2p_event \<Rightarrow> (int, unit) gomap \<times> (string, int) gomap \<Rightarrow> (int, unit) gomap \<times> (string, int) gomap" where
  "index_step e = (\<lambda>(seqs, dedupe).
     (gput (ev_Seq e) () seqs,
      if ev_DedupeKey e \<noteq> [] then gput (ev_DedupeKey e) (ev_Seq e) dedupe else dedupe))"

definition rebuildEventIndexesLocked :: "memory_store \<Rightarrow> memory_store" where
  "rebuildEventIndexesLocked s =
     (let (seqs, dedupe) = fold index_step (ms_events s) (gempty, gempty)
      in s\<lparr>ms_eventSeq := seqs, ms_eventDedupe := dedupe\<rparr>)"

definition seqLess :: "p2p_event \<Rightarrow> p2p_event \<Rightarrow> bool" where
  "seqLess a b \<longleftrightarrow> ev_Seq a < ev_Seq b"

definition PruneEventsToMaxRows :: "int \<Rightarrow> memory_store \<Rightarrow> int \<times> memory_store" where
  "PruneEventsToMaxRows maxRows s =
     (if maxRows \<le> 0 then (0, s)
      else if int (length (ms_events s)) \<le> maxRows then (0, s)
      else let events = go_sort seqLess (ms_events s);
               deleted = int (length events) - maxRows;
               events = drop (length events - nat maxRows) events
           in (deleted, rebuildEventIndexesLocked (s\<lparr>ms_events := events\<rparr>)))"

section \<open>Completions\<close>

definition completionExecutionKey :: "completion_receipt \<Rightarrow> string" where
  "completionExecutionKey r =
     cr_OwnerID r @ [CHR 0x00] @ format_int (cr_AccountGeneration r) @ [CHR 0x00] @ cr_ExecutionID r"

datatype completion_error = CompletionConflict | CompletionSequenceRequired

text \<open>The first sequence number from \<open>q\<close> on that is not in use.\<close>

function next_free :: "(int, unit) gomap \<Rightarrow> int \<Rightarrow> int" where
  "next_free m q = (if gget m q = None then q else next_free m (q + 1))"
  by pat_completeness auto

termination
proof (relation "measure (\<lambda>(m, q). length (filter (\<lambda>(k, _). q \<le> k) m))")
  fix m :: "(int, unit) gomap" and q :: int
  assume "gget m q \<noteq> None"
  then have mem: "(q, ()) \<in> set (filter (\<lambda>(k, _). q \<le> k) m)"
    by (auto dest: gget_mem)
  have "filter (\<lambda>(k, _). q + 1 \<le> k) m = filter (\<lambda>(k, _). q + 1 \<le> k) (filter (\<lambda>(k, _). q \<le> k) m)"
    by (auto intro: filter_cong)
  also have "length \<dots> < length (filter (\<lambda>(k, _). q \<le> k) m)"
    by (rule length_filter_less [OF mem]) simp
  finally show "((m, q + 1), m, q) \<in> measure (\<lambda>(m, q). length (filter (\<lambda>(k, _). q \<le> k) m))"
    by simp
qed simp

declare next_free.simps [simp del]

definition RecordAgentExecutionCompletion ::
  "completion_receipt \<Rightarrow> p2p_event \<Rightarrow> memory_store \<Rightarrow> bool \<times> int \<times> completion_error option \<times> memory_store" where
  "RecordAgentExecutionCompletion receipt event s =
     (let executionKey = completionExecutionKey receipt;
          eventReceipt = gget (ms_completionReceipts s) (cr_EventID receipt);
          executionEventID = gget (ms_completionExecutions s) executionKey;
          executionReceipt = (case executionEventID of
                                None \<Rightarrow> None | Some i \<Rightarrow> gget (ms_completionReceipts s) i)
      in if executionEventID \<noteq> None \<and> executionReceipt = None
         then (False, 0, Some CompletionConflict, s)
         else if eventReceipt \<noteq> None \<or> executionEventID \<noteq> None then
           if eventReceipt = None \<or> executionEventID = None \<or> executionEventID \<noteq> Some (cr_EventID receipt)
              \<or> eventReceipt \<noteq> Some receipt \<or> executionReceipt \<noteq> Some receipt
           then (False, 0, Some CompletionConflict, s)
           else (False, case gget (ms_completionEventSeq s) (cr_EventID receipt) of Some q \<Rightarrow> q | None \<Rightarrow> 0,
                 None, s)
         else case gget (ms_eventDedupe s) (ev_DedupeKey event) of
           Some existingSeq \<Rightarrow> (False, existingSeq, Some CompletionConflict, s)
         | None \<Rightarrow>
             if ev_Seq event \<le> 0 then (False, 0, Some CompletionSequenceRequired, s)
             else let event = event\<lparr>ev_Seq := next_free (ms_eventSeq s) (ev_Seq event)\<rparr>
                  in (True, ev_Seq event, None, s\<lparr>
                        ms_events := ms_events s @ [event],
                        ms_eventSeq := gput (ev_Seq event) () (ms_eventSeq s),
                        ms_eventDedupe := gput (ev_DedupeKey event) (ev_Seq event) (ms_eventDedupe s),
                        ms_completionReceipts := gput (cr_EventID receipt) receipt (ms_completionReceipts s),
                        ms_completionExecutions := gput executionKey (cr_EventID receipt) (ms_completionExecutions s),
                        ms_completionEventSeq := gput (cr_EventID receipt) (ev_Seq event) (ms_completionEventSeq s)\<rparr>))"

section \<open>The invariant\<close>

definition dedupe_pairs :: "p2p_event list \<Rightarrow> (string \<times> int) list" where
  "dedupe_pairs es = map (\<lambda>e. (ev_DedupeKey e, ev_Seq e)) (filter (\<lambda>e. ev_DedupeKey e \<noteq> []) es)"

definition events_ok :: "memory_store \<Rightarrow> bool" where
  "events_ok s \<longleftrightarrow> gmap_ok (ms_eventSeq s) \<and> gmap_ok (ms_eventDedupe s) \<and>
     distinct (map ev_Seq (ms_events s)) \<and>
     set (map fst (ms_eventSeq s)) = set (map ev_Seq (ms_events s)) \<and>
     set (filter (\<lambda>(k, _). k \<noteq> []) (ms_eventDedupe s)) = set (dedupe_pairs (ms_events s))"

lemma gget_dom: "gget m k \<noteq> None \<longleftrightarrow> k \<in> set (map fst m)"
  by (auto simp: gget_def map_of_eq_None_iff)

lemma unit_option_None [simp]: "x \<noteq> Some () \<longleftrightarrow> x = None"
  by (cases x) auto

lemma gput_keys: "fst ` set (gput k v m) = insert k (fst ` set m)"
  by (simp add: gput_def dom_update)

lemma events_seq_iff:
  "events_ok s \<Longrightarrow> gget (ms_eventSeq s) q = None \<longleftrightarrow> q \<notin> ev_Seq ` set (ms_events s)"
  using gget_dom [of "ms_eventSeq s" q] by (auto simp: events_ok_def)

lemma events_dedupe_iff:
  assumes "events_ok s" and "k \<noteq> []"
  shows "gget (ms_eventDedupe s) k = Some q \<longleftrightarrow>
    (\<exists>e\<in>set (ms_events s). ev_DedupeKey e = k \<and> ev_Seq e = q)"
proof -
  have pairs: "set (filter (\<lambda>(k, _). k \<noteq> []) (ms_eventDedupe s)) = set (dedupe_pairs (ms_events s))"
    and ok: "gmap_ok (ms_eventDedupe s)"
    using assms(1) by (simp_all only: events_ok_def)
  have "gget (ms_eventDedupe s) k = Some q \<longleftrightarrow> (k, q) \<in> set (filter (\<lambda>(k, _). k \<noteq> []) (ms_eventDedupe s))"
    using assms(2) by (simp add: gget_iff_mem [OF ok])
  also have "\<dots> \<longleftrightarrow> (k, q) \<in> set (dedupe_pairs (ms_events s))"
    by (simp only: pairs)
  finally show ?thesis using assms(2) by (auto simp: dedupe_pairs_def)
qed

lemma events_ok_new: "events_ok NewMemoryStore"
  by (simp add: events_ok_def NewMemoryStore_def dedupe_pairs_def) (simp add: gempty_def)

text \<open>Appending an event with a new sequence number and, if it has one, a new key.\<close>

lemma events_ok_append:
  assumes "events_ok s" and "gget (ms_eventSeq s) (ev_Seq e) = None"
    and "ev_DedupeKey e \<noteq> [] \<Longrightarrow> gget (ms_eventDedupe s) (ev_DedupeKey e) = None"
    and "ms_events t = ms_events s @ [e]" and "ms_eventSeq t = gput (ev_Seq e) () (ms_eventSeq s)"
    and "ms_eventDedupe t = gput (ev_DedupeKey e) (ev_Seq e) (ms_eventDedupe s) \<or>
         ev_DedupeKey e = [] \<and> ms_eventDedupe t = ms_eventDedupe s"
  shows "events_ok t"
proof -
  let ?N = "\<lambda>m. {x \<in> set m. fst x \<noteq> []}"
  have ok: "gmap_ok (ms_eventSeq s)" "gmap_ok (ms_eventDedupe s)"
    and N: "?N (ms_eventDedupe s) = set (dedupe_pairs (ms_events s))"
    using assms(1) by (auto simp: events_ok_def split_def)
  have new: "ev_Seq e \<notin> ev_Seq ` set (ms_events s)"
    using assms(1,2) by (simp add: events_seq_iff)
  have seqs: "fst ` set (ms_eventSeq t) = ev_Seq ` set (ms_events t)"
    using assms(1) by (simp add: assms(4,5) gput_keys events_ok_def)
  have "?N (ms_eventDedupe t) = set (dedupe_pairs (ms_events t))"
  proof (cases "ev_DedupeKey e = []")
    case True
    then have "?N (ms_eventDedupe t) = ?N (ms_eventDedupe s)"
      using assms(6) gput_mem [OF ok(2)] by auto
    with N True show ?thesis by (simp add: assms(4) dedupe_pairs_def)
  next
    case False
    then have "ms_eventDedupe t = gput (ev_DedupeKey e) (ev_Seq e) (ms_eventDedupe s)"
      using assms(6) by simp
    moreover have "{x \<in> set (ms_eventDedupe s). fst x \<noteq> ev_DedupeKey e} = set (ms_eventDedupe s)"
      using assms(3) [OF False] gget_dom [of "ms_eventDedupe s" "ev_DedupeKey e"] by force
    ultimately have "?N (ms_eventDedupe t) = insert (ev_DedupeKey e, ev_Seq e) (?N (ms_eventDedupe s))"
      using gput_mem [OF ok(2)] False by auto
    with N False show ?thesis by (simp add: assms(4) dedupe_pairs_def)
  qed
  moreover have "gmap_ok (ms_eventSeq t)" "gmap_ok (ms_eventDedupe t)"
    using ok assms(5,6) by auto
  ultimately show ?thesis
    using assms(1) new seqs by (auto simp: events_ok_def assms(4) split_def)
qed

lemma events_ok_InsertEvent: "events_ok s \<Longrightarrow> events_ok (snd (InsertEvent e s))"
  by (auto simp: InsertEvent_def intro!: events_ok_append [of s e])

lemma set_gdel: "gmap_ok m \<Longrightarrow> set (gdel k m) = {x \<in> set m. fst x \<noteq> k}"
  by (auto simp: gdel_def AList.delete_eq)

lemma prune_step_simps:
  "ev_Seq e < b \<Longrightarrow> prune_step b e (kept, sq, dd, n) = (kept, gdel (ev_Seq e) sq,
     if ev_DedupeKey e \<noteq> [] then gdel (ev_DedupeKey e) dd else dd, n + 1)"
  "\<not> ev_Seq e < b \<Longrightarrow> prune_step b e (kept, sq, dd, n) = (kept @ [e], sq, dd, n)"
  by (simp_all add: prune_step_def)

lemma fold_prune_step:
  "gmap_ok sq \<Longrightarrow> gmap_ok dd \<Longrightarrow> fold (prune_step b) es (kept, sq, dd, n) = (kept', sq', dd', n') \<Longrightarrow>
   kept' = kept @ filter (\<lambda>e. \<not> ev_Seq e < b) es \<and>
   n' = n + int (length (filter (\<lambda>e. ev_Seq e < b) es)) \<and> gmap_ok sq' \<and> gmap_ok dd' \<and>
   set sq' = {x \<in> set sq. \<forall>e\<in>set es. ev_Seq e < b \<longrightarrow> fst x \<noteq> ev_Seq e} \<and>
   set dd' = {x \<in> set dd. \<forall>e\<in>set es. ev_Seq e < b \<and> ev_DedupeKey e \<noteq> [] \<longrightarrow> fst x \<noteq> ev_DedupeKey e}"
proof (induction es arbitrary: kept sq dd n)
  case (Cons e es)
  show ?case
  proof (cases "ev_Seq e < b")
    case True
    let ?sq = "gdel (ev_Seq e) sq"
    let ?dd = "if ev_DedupeKey e \<noteq> [] then gdel (ev_DedupeKey e) dd else dd"
    have "fold (prune_step b) es (kept, ?sq, ?dd, n + 1) = (kept', sq', dd', n')"
      using Cons.prems(3) True by (simp add: prune_step_simps)
    from Cons.IH [OF _ _ this] Cons.prems(1,2) True show ?thesis
      by (auto simp: set_gdel split: if_splits)
  next
    case False
    then have "fold (prune_step b) es (kept @ [e], sq, dd, n) = (kept', sq', dd', n')"
      using Cons.prems(3) by (simp add: prune_step_simps)
    from Cons.IH [OF Cons.prems(1,2) this] False show ?thesis by auto
  qed
qed simp

lemma events_same_key:
  assumes "events_ok s" and "e \<in> set (ms_events s)" and "f \<in> set (ms_events s)"
    and "ev_DedupeKey e = ev_DedupeKey f" and "ev_DedupeKey e \<noteq> []"
  shows "e = f"
proof -
  have "ev_Seq e = ev_Seq f"
    using events_dedupe_iff [OF assms(1,5)] assms(2-4) by (metis option.inject)
  moreover have "inj_on ev_Seq (set (ms_events s))"
    using assms(1) by (simp add: events_ok_def distinct_map)
  ultimately show ?thesis using assms(2,3) by (auto dest: inj_onD)
qed

lemma PruneEventsBefore_result:
  assumes "events_ok s" and "PruneEventsBefore b s = (n, s')"
  shows "events_ok s' \<and>
    (if b \<le> 0 then n = 0 \<and> s' = s
     else ms_events s' = filter (\<lambda>e. b \<le> ev_Seq e) (ms_events s) \<and>
          n = int (length (ms_events s)) - int (length (ms_events s')))"
proof (cases "b \<le> 0")
  case True
  with assms show ?thesis by (simp add: PruneEventsBefore_def)
next
  case False
  obtain kept sq dd m where f: "fold (prune_step b) (ms_events s) ([], ms_eventSeq s, ms_eventDedupe s, 0) = (kept, sq, dd, m)"
    by (metis prod_cases4)
  with False assms(2) have s': "n = m" "s' = s\<lparr>ms_events := kept, ms_eventSeq := sq, ms_eventDedupe := dd\<rparr>"
    by (simp_all add: PruneEventsBefore_def)
  have ok: "gmap_ok (ms_eventSeq s)" "gmap_ok (ms_eventDedupe s)"
    and seqs: "fst ` set (ms_eventSeq s) = ev_Seq ` set (ms_events s)"
    and d: "distinct (map ev_Seq (ms_events s))"
    and N: "{x \<in> set (ms_eventDedupe s). fst x \<noteq> []} = set (dedupe_pairs (ms_events s))"
    using assms(1) by (auto simp: events_ok_def split_def)
  note r = fold_prune_step [OF ok f, simplified]
  have kept: "kept = filter (\<lambda>e. b \<le> ev_Seq e) (ms_events s)"
    using r by (simp add: not_less)
  have "fst ` set sq = ev_Seq ` set kept"
    unfolding kept using r seqs by (force simp: image_iff)
  moreover have "{x \<in> set dd. fst x \<noteq> []} = set (dedupe_pairs kept)"
  proof -
    have "{x \<in> set dd. fst x \<noteq> []} = {x \<in> set (dedupe_pairs (ms_events s)).
        \<forall>e\<in>set (ms_events s). ev_Seq e < b \<and> ev_DedupeKey e \<noteq> [] \<longrightarrow> fst x \<noteq> ev_DedupeKey e}"
      using r unfolding N [symmetric] by auto
    also have "\<dots> = (\<lambda>e. (ev_DedupeKey e, ev_Seq e)) ` {y \<in> set (ms_events s). ev_DedupeKey y \<noteq> [] \<and>
        (\<forall>e\<in>set (ms_events s). ev_Seq e < b \<and> ev_DedupeKey e \<noteq> [] \<longrightarrow> ev_DedupeKey y \<noteq> ev_DedupeKey e)}"
      by (auto simp: dedupe_pairs_def)
    also have "{y \<in> set (ms_events s). ev_DedupeKey y \<noteq> [] \<and>
        (\<forall>e\<in>set (ms_events s). ev_Seq e < b \<and> ev_DedupeKey e \<noteq> [] \<longrightarrow> ev_DedupeKey y \<noteq> ev_DedupeKey e)} =
        {y \<in> set (ms_events s). ev_DedupeKey y \<noteq> [] \<and> b \<le> ev_Seq y}"
      using events_same_key [OF assms(1)] by (metis not_le)
    also have "(\<lambda>e. (ev_DedupeKey e, ev_Seq e)) ` \<dots> = set (dedupe_pairs kept)"
      by (auto simp: dedupe_pairs_def kept)
    finally show ?thesis .
  qed
  moreover have "m = int (length (ms_events s)) - int (length kept)"
    unfolding kept using r sum_length_filter_compl [of "\<lambda>e. ev_Seq e < b" "ms_events s"]
    by (simp add: not_less)
  ultimately show ?thesis
    using False s' r kept d by (auto simp: events_ok_def split_def distinct_map_filter)
qed

text \<open>Rebuilding the indexes is appending the events one by one.\<close>

lemma rebuild_ok:
  assumes "distinct (map ev_Seq es)"
    and "\<And>e f. e \<in> set es \<Longrightarrow> f \<in> set es \<Longrightarrow> ev_DedupeKey e = ev_DedupeKey f \<Longrightarrow> ev_DedupeKey e \<noteq> [] \<Longrightarrow> e = f"
  shows "events_ok (rebuildEventIndexesLocked (s\<lparr>ms_events := es\<rparr>))"
  using assms
proof (induction es rule: rev_induct)
  case Nil
  then show ?case
    by (simp add: rebuildEventIndexesLocked_def events_ok_def dedupe_pairs_def) (simp add: gempty_def)
next
  case (snoc e es)
  let ?s = "rebuildEventIndexesLocked (s\<lparr>ms_events := es\<rparr>)"
  let ?t = "rebuildEventIndexesLocked (s\<lparr>ms_events := es @ [e]\<rparr>)"
  obtain sq dd where f: "fold index_step es (gempty, gempty) = (sq, dd)"
    by (cases "fold index_step es (gempty, gempty)")
  have ok: "events_ok ?s" using snoc by simp
  have es: "ms_events ?s = es" by (simp add: rebuildEventIndexesLocked_def f)
  show ?case
  proof (rule events_ok_append [OF ok])
    show "gget (ms_eventSeq ?s) (ev_Seq e) = None"
      using snoc.prems(1) by (simp add: events_seq_iff [OF ok] es)
    show "gget (ms_eventDedupe ?s) (ev_DedupeKey e) = None" if ne: "ev_DedupeKey e \<noteq> []"
    proof (cases "gget (ms_eventDedupe ?s) (ev_DedupeKey e)")
      case (Some q)
      then obtain f where f: "f \<in> set es" "ev_DedupeKey e = ev_DedupeKey f"
        using events_dedupe_iff [OF ok ne] es by metis
      have "e = f" by (rule snoc.prems(2)) (use f ne in simp_all)
      with f snoc.prems(1) show ?thesis by simp
    qed
  qed (auto simp: rebuildEventIndexesLocked_def f index_step_def)
qed

interpretation seq_order: key_comparator seqLess ev_Seq
  by unfold_locales (simp add: seqLess_def)

lemma PruneEventsToMaxRows_result:
  assumes "events_ok s" and "PruneEventsToMaxRows r s = (n, s')"
  shows "events_ok s' \<and>
    (if r \<le> 0 \<or> int (length (ms_events s)) \<le> r then n = 0 \<and> s' = s
     else n = int (length (ms_events s)) - r \<and>
          ms_events s' = drop (nat n) (go_sort seqLess (ms_events s)))"
proof (cases "r \<le> 0 \<or> int (length (ms_events s)) \<le> r")
  case True
  with assms show ?thesis by (auto simp: PruneEventsToMaxRows_def split: if_splits)
next
  case False
  let ?es = "drop (length (ms_events s) - nat r) (go_sort seqLess (ms_events s))"
  have n: "n = int (length (ms_events s)) - r" and s': "s' = rebuildEventIndexesLocked (s\<lparr>ms_events := ?es\<rparr>)"
    using False assms(2) by (simp_all add: PruneEventsToMaxRows_def)
  have "distinct (map ev_Seq (go_sort seqLess (ms_events s)))"
    using assms(1) unfolding events_ok_def by (metis mset_eq_imp_distinct_iff mset_go_sort mset_map)
  then have d: "distinct (map ev_Seq ?es)" by (simp flip: drop_map)
  have sub: "set ?es \<subseteq> set (ms_events s)" using set_drop_subset by fastforce
  have "events_ok s'"
    unfolding s' using d sub events_same_key [OF assms(1)] by (intro rebuild_ok) auto
  moreover have "ms_events s' = ?es"
    by (simp add: s' rebuildEventIndexesLocked_def split: prod.split)
  moreover have "nat n = length (ms_events s) - nat r"
    using False n by (simp add: nat_diff_distrib)
  ultimately show ?thesis using False n by simp
qed

lemma next_free_spec:
  "gget m (next_free m q) = None \<and> q \<le> next_free m q \<and>
   next_free m q \<le> q + int (length (filter (\<lambda>(k, _). q \<le> k) m))"
proof (induction m q rule: next_free.induct)
  case (1 m q)
  show ?case
  proof (cases "gget m q = None")
    case True
    then show ?thesis by (simp add: next_free.simps [of m q])
  next
    case False
    then have mem: "(q, ()) \<in> set (filter (\<lambda>(k, _). q \<le> k) m)"
      by (auto dest: gget_mem)
    have "filter (\<lambda>(k, _). q + 1 \<le> k) m = filter (\<lambda>(k, _). q + 1 \<le> k) (filter (\<lambda>(k, _). q \<le> k) m)"
      by (auto intro: filter_cong)
    also have "length \<dots> < length (filter (\<lambda>(k, _). q \<le> k) m)"
      by (rule length_filter_less [OF mem]) simp
    finally have "length (filter (\<lambda>(k, _). q + 1 \<le> k) m) < length (filter (\<lambda>(k, _). q \<le> k) m)" .
    with 1 [OF False] False show ?thesis by (simp add: next_free.simps [of m q])
  qed
qed

section \<open>Recorded completions\<close>

definition recorded :: "completion_receipt \<Rightarrow> int \<Rightarrow> memory_store \<Rightarrow> bool" where
  "recorded r q s \<longleftrightarrow>
     gget (ms_completionReceipts s) (cr_EventID r) = Some r \<and>
     gget (ms_completionExecutions s) (completionExecutionKey r) = Some (cr_EventID r) \<and>
     gget (ms_completionEventSeq s) (cr_EventID r) = Some q"

lemma completion_cases:
  assumes "RecordAgentExecutionCompletion r e s = (first, q, err, s')"
  shows "if first then
      err = None \<and> 0 < ev_Seq e \<and> q = next_free (ms_eventSeq s) (ev_Seq e) \<and> recorded r q s' \<and>
      gget (ms_completionReceipts s) (cr_EventID r) = None \<and>
      gget (ms_completionExecutions s) (completionExecutionKey r) = None \<and>
      gget (ms_eventDedupe s) (ev_DedupeKey e) = None \<and>
      s' = s\<lparr>ms_events := ms_events s @ [e\<lparr>ev_Seq := q\<rparr>],
             ms_eventSeq := gput q () (ms_eventSeq s),
             ms_eventDedupe := gput (ev_DedupeKey e) q (ms_eventDedupe s),
             ms_completionReceipts := gput (cr_EventID r) r (ms_completionReceipts s),
             ms_completionExecutions := gput (completionExecutionKey r) (cr_EventID r) (ms_completionExecutions s),
             ms_completionEventSeq := gput (cr_EventID r) q (ms_completionEventSeq s)\<rparr>
    else s' = s"
proof (cases "gget (ms_completionReceipts s) (cr_EventID r) = None \<and>
    gget (ms_completionExecutions s) (completionExecutionKey r) = None \<and>
    gget (ms_eventDedupe s) (ev_DedupeKey e) = None \<and> 0 < ev_Seq e")
  case True
  then have "RecordAgentExecutionCompletion r e s =
      (let q = next_free (ms_eventSeq s) (ev_Seq e) in (True, q, None,
        s\<lparr>ms_events := ms_events s @ [e\<lparr>ev_Seq := q\<rparr>],
          ms_eventSeq := gput q () (ms_eventSeq s),
          ms_eventDedupe := gput (ev_DedupeKey e) q (ms_eventDedupe s),
          ms_completionReceipts := gput (cr_EventID r) r (ms_completionReceipts s),
          ms_completionExecutions := gput (completionExecutionKey r) (cr_EventID r) (ms_completionExecutions s),
          ms_completionEventSeq := gput (cr_EventID r) q (ms_completionEventSeq s)\<rparr>))"
    by (simp add: RecordAgentExecutionCompletion_def Let_def)
  with assms True show ?thesis by (auto simp: Let_def recorded_def)
next
  case False
  then have "\<exists>q err. RecordAgentExecutionCompletion r e s = (False, q, err, s)"
    by (simp add: RecordAgentExecutionCompletion_def Let_def split: option.split) auto
  with assms show ?thesis by auto
qed

lemma completion_retry: "recorded r q s \<Longrightarrow> RecordAgentExecutionCompletion r e s = (False, q, None, s)"
  by (simp add: RecordAgentExecutionCompletion_def Let_def recorded_def)

lemma completion_conflict:
  assumes "recorded r q s" and "r' \<noteq> r"
    and "cr_EventID r' = cr_EventID r \<or> completionExecutionKey r' = completionExecutionKey r"
  shows "RecordAgentExecutionCompletion r' e s = (False, 0, Some CompletionConflict, s)"
  using assms by (auto simp: RecordAgentExecutionCompletion_def Let_def recorded_def)

lemma events_ok_completion:
  assumes "events_ok s" and "RecordAgentExecutionCompletion r e s = (first, q, err, s')"
  shows "events_ok s'"
proof (cases first)
  case True
  note c = completion_cases [OF assms(2), unfolded if_P [OF True]]
  from c next_free_spec [of "ms_eventSeq s" "ev_Seq e"] show ?thesis
    by (intro events_ok_append [OF assms(1), of "e\<lparr>ev_Seq := q\<rparr>"]) auto
next
  case False
  with completion_cases [OF assms(2)] assms(1) show ?thesis by simp
qed

text \<open>The steps the log takes.\<close>

inductive event_step :: "memory_store \<Rightarrow> memory_store \<Rightarrow> bool" where
  step_insert: "InsertEvent e s = (b, s') \<Longrightarrow> event_step s s'"
| step_prune: "PruneEventsBefore q s = (n, s') \<Longrightarrow> event_step s s'"
| step_rows: "PruneEventsToMaxRows r s = (n, s') \<Longrightarrow> event_step s s'"
| step_complete: "RecordAgentExecutionCompletion r e s = (b, q, err, s') \<Longrightarrow> event_step s s'"

inductive_cases event_stepE: "event_step s s'"

lemma event_step_ok:
  assumes "event_step s s'" and "events_ok s"
  shows "events_ok s'"
  using assms(1)
proof cases
  case (step_insert e b)
  with events_ok_InsertEvent [OF assms(2), of e] show ?thesis by simp
qed (use assms(2) PruneEventsBefore_result PruneEventsToMaxRows_result events_ok_completion in blast)+

lemma event_step_recorded:
  assumes "event_step s s'" and "recorded r q s"
  shows "recorded r q s'"
  using assms(1)
proof cases
  case (step_insert e b)
  with assms(2) show ?thesis by (auto simp: InsertEvent_def recorded_def split: if_splits)
next
  case (step_prune b n)
  with assms(2) show ?thesis
    by (auto simp: PruneEventsBefore_def recorded_def split: if_splits prod.splits)
next
  case (step_rows m n)
  with assms(2) show ?thesis
    by (auto simp: PruneEventsToMaxRows_def rebuildEventIndexesLocked_def recorded_def Let_def
        split: if_splits prod.splits)
next
  case (step_complete r' e b q' err)
  show ?thesis
  proof (cases b)
    case True
    note c = completion_cases [OF step_complete, unfolded if_P [OF True]]
    with assms(2) show ?thesis by (auto simp: recorded_def)
  next
    case False
    with completion_cases [OF step_complete] assms(2) show ?thesis by simp
  qed
qed

lemma event_steps_recorded: "event_step\<^sup>*\<^sup>* s s' \<Longrightarrow> recorded r q s \<Longrightarrow> recorded r q s'"
  by (induction rule: rtranclp_induct) (auto dest: event_step_recorded)

lemma fold_bound_step:
  "0 < eb_Count b \<Longrightarrow> fold bound_step es b = \<lparr>
     eb_MinSeq = Min (insert (eb_MinSeq b) (ev_Seq ` set es)),
     eb_MaxSeq = Max (insert (eb_MaxSeq b) (ev_Seq ` set es)),
     eb_Count = eb_Count b + int (length es)\<rparr>"
proof (induction es arbitrary: b)
  case (Cons e es)
  have c: "0 < eb_Count (bound_step e b)" using Cons.prems by (simp add: bound_step_def)
  have "eb_MinSeq (bound_step e b) = min (eb_MinSeq b) (ev_Seq e)"
    "eb_MaxSeq (bound_step e b) = max (eb_MaxSeq b) (ev_Seq e)"
    "eb_Count (bound_step e b) = eb_Count b + 1"
    using Cons.prems by (simp_all add: bound_step_def min_def max_def)
  with Cons.IH [OF c] show ?case
    by (cases "es = []") (simp_all add: min.assoc max.assoc)
qed simp

definition zero_event :: p2p_event where
  "zero_event = \<lparr>ev_Seq = 0, ev_Type = [], ev_RoomID = [], ev_EventID = [], ev_DedupeKey = [],
     ev_Payload = gempty, ev_CreatedAt = []\<rparr>"

definition zero_receipt :: completion_receipt where
  "zero_receipt = \<lparr>cr_EventID = [], cr_ExecutionID = [], cr_RunID = [], cr_ConversationID = [],
     cr_TurnID = [], cr_TerminalState = [], cr_CompletedAt = [], cr_PayloadDigest = [],
     cr_OwnerID = [], cr_AccountGeneration = 0\<rparr>"

section \<open>Properties\<close>

text \<open>C1: a completion is recorded exactly once.  The recording call appends one event with a fresh
  sequence number; from then on, whatever inserts, prunes and completions follow, the same receipt
  returns that sequence number again and changes nothing, and a different receipt for the same event or
  the same execution is refused as a conflict.\<close>

theorem completion_exactly_once:
  assumes "RecordAgentExecutionCompletion r e s = (True, q, err, s1)"
    and "event_step\<^sup>*\<^sup>* s1 s2"
  shows "err = None \<and> ev_Seq e \<le> q \<and> gget (ms_eventSeq s) q = None \<and>
    ms_events s1 = ms_events s @ [e\<lparr>ev_Seq := q\<rparr>] \<and>
    RecordAgentExecutionCompletion r e' s2 = (False, q, None, s2) \<and>
    (\<forall>r'. r' \<noteq> r \<and> (cr_EventID r' = cr_EventID r \<or> completionExecutionKey r' = completionExecutionKey r) \<longrightarrow>
       RecordAgentExecutionCompletion r' e' s2 = (False, 0, Some CompletionConflict, s2))"
proof -
  note c = completion_cases [OF assms(1), simplified]
  have "recorded r q s2" using c event_steps_recorded [OF assms(2)] by blast
  with c completion_retry completion_conflict next_free_spec [of "ms_eventSeq s" "ev_Seq e"]
  show ?thesis by auto
qed

theorem completion_exactly_once_witness:
  "let r = zero_receipt\<lparr>cr_EventID := ''e1'', cr_ExecutionID := ''x1''\<rparr>;
       e = zero_event\<lparr>ev_Seq := 4, ev_DedupeKey := ''d''\<rparr>
   in \<exists>q s1. RecordAgentExecutionCompletion r e NewMemoryStore = (True, q, None, s1) \<and>
        RecordAgentExecutionCompletion r e (snd (PruneEventsBefore 9 s1)) =
          (False, q, None, snd (PruneEventsBefore 9 s1))"
proof -
  define r where "r = zero_receipt\<lparr>cr_EventID := ''e1'', cr_ExecutionID := ''x1''\<rparr>"
  define e where "e = zero_event\<lparr>ev_Seq := 4, ev_DedupeKey := ''d''\<rparr>"
  obtain q s1 where c: "RecordAgentExecutionCompletion r e NewMemoryStore = (True, q, None, s1)"
    by (simp add: RecordAgentExecutionCompletion_def Let_def NewMemoryStore_def e_def)
  have "event_step s1 (snd (PruneEventsBefore 9 s1))"
    by (rule step_prune [of 9 s1 "fst (PruneEventsBefore 9 s1)"]) simp
  then have "event_step\<^sup>*\<^sup>* s1 (snd (PruneEventsBefore 9 s1))" by blast
  from completion_exactly_once [OF c this, of e] c show ?thesis
    by (auto simp: Let_def r_def e_def)
qed

text \<open>The indexes of the event log are exact after any sequence of operations: sequence numbers
  are unique, the sequence index holds exactly the stored numbers, and a non-empty deduplication key is
  mapped to the sequence number of the only stored event with that key.\<close>

theorem event_log_consistent:
  assumes "event_step\<^sup>*\<^sup>* NewMemoryStore s"
  shows "distinct (map ev_Seq (ms_events s)) \<and>
    (\<forall>q. gget (ms_eventSeq s) q \<noteq> None \<longleftrightarrow> (\<exists>e\<in>set (ms_events s). ev_Seq e = q)) \<and>
    (\<forall>k q. k \<noteq> [] \<longrightarrow> (gget (ms_eventDedupe s) k = Some q \<longleftrightarrow>
        (\<exists>e\<in>set (ms_events s). ev_DedupeKey e = k \<and> ev_Seq e = q)))"
proof -
  have ok: "events_ok s"
    using assms by (induction rule: rtranclp_induct) (auto simp: events_ok_new dest: event_step_ok)
  then have "distinct (map ev_Seq (ms_events s))" by (simp add: events_ok_def)
  with events_seq_iff [OF ok] events_dedupe_iff [OF ok] show ?thesis by auto
qed

theorem event_log_consistent_witness:
  "let s = snd (InsertEvent (zero_event\<lparr>ev_Seq := 3, ev_DedupeKey := ''d''\<rparr>) NewMemoryStore)
   in gget (ms_eventDedupe s) ''d'' = Some 3"
proof -
  define s where "s = snd (InsertEvent (zero_event\<lparr>ev_Seq := 3, ev_DedupeKey := ''d''\<rparr>) NewMemoryStore)"
  have "event_step NewMemoryStore s"
    unfolding s_def by (rule step_insert) (rule surjective_pairing)
  then have "event_step\<^sup>*\<^sup>* NewMemoryStore s" by blast
  note log = event_log_consistent [OF this]
  have "ms_events s = [zero_event\<lparr>ev_Seq := 3, ev_DedupeKey := ''d''\<rparr>]"
    by (simp add: s_def InsertEvent_def NewMemoryStore_def)
  with log show ?thesis unfolding s_def Let_def by auto
qed

text \<open>\<open>PruneEventsToMaxRows\<close> bounds the log: with a positive limit at most that many events
  remain, they are the newest ones, nothing new appears, and the returned number is the number
  removed.\<close>

theorem PruneEventsToMaxRows_keeps_newest:
  assumes "events_ok s" and "0 < r" and "PruneEventsToMaxRows r s = (n, s')"
  shows "int (length (ms_events s')) \<le> r \<and>
    n = int (length (ms_events s)) - int (length (ms_events s')) \<and>
    set (ms_events s') \<subseteq> set (ms_events s) \<and>
    (\<forall>a\<in>set (ms_events s) - set (ms_events s'). \<forall>b\<in>set (ms_events s'). ev_Seq a < ev_Seq b)"
proof (cases "int (length (ms_events s)) \<le> r")
  case True
  with PruneEventsToMaxRows_result [OF assms(1,3)] assms(2) show ?thesis by simp
next
  case False
  let ?S = "go_sort seqLess (ms_events s)"
  have n: "n = int (length (ms_events s)) - r" and es: "ms_events s' = drop (nat n) ?S"
    using PruneEventsToMaxRows_result [OF assms(1,3)] assms(2) False by simp_all
  have "distinct (map ev_Seq (ms_events s))" using assms(1) by (simp add: events_ok_def)
  then have "sorted_wrt seqLess (take (nat n) ?S @ drop (nat n) ?S)"
    by (simp add: seq_order.sorted_strict)
  then have "\<forall>a\<in>set (take (nat n) ?S). \<forall>b\<in>set (drop (nat n) ?S). ev_Seq a < ev_Seq b"
    by (auto simp: sorted_wrt_append seqLess_def simp del: append_take_drop_id)
  moreover have "set (ms_events s) = set (take (nat n) ?S) \<union> set (drop (nat n) ?S)"
    by (metis append_take_drop_id set_append set_go_sort)
  ultimately show ?thesis
    using n False assms(2) by (auto simp: es)
qed

theorem PruneEventsToMaxRows_keeps_newest_witness:
  "let s = snd (InsertEvent (zero_event\<lparr>ev_Seq := 3\<rparr>) (snd (InsertEvent (zero_event\<lparr>ev_Seq := 5\<rparr>) NewMemoryStore)))
   in length (ms_events s) = 2 \<and> int (length (ms_events (snd (PruneEventsToMaxRows 1 s)))) \<le> 1"
proof -
  define s where "s = snd (InsertEvent (zero_event\<lparr>ev_Seq := 3\<rparr>)
    (snd (InsertEvent (zero_event\<lparr>ev_Seq := 5\<rparr>) NewMemoryStore)))"
  have ok: "events_ok s" unfolding s_def by (intro events_ok_InsertEvent events_ok_new)
  have "length (ms_events s) = 2"
    by (simp add: s_def InsertEvent_def NewMemoryStore_def zero_event_def)
  with PruneEventsToMaxRows_keeps_newest [OF ok, of 1 "fst (PruneEventsToMaxRows 1 s)" "snd (PruneEventsToMaxRows 1 s)"]
  show ?thesis by (simp add: s_def Let_def)
qed

text \<open>\<open>EventBounds\<close> reports the number of stored events and, when there are any, the smallest
  and the largest sequence number.\<close>

theorem EventBounds_spec:
  "EventBounds s =
     (if ms_events s = [] then \<lparr>eb_MinSeq = 0, eb_MaxSeq = 0, eb_Count = 0\<rparr>
      else \<lparr>eb_MinSeq = Min (ev_Seq ` set (ms_events s)), eb_MaxSeq = Max (ev_Seq ` set (ms_events s)),
             eb_Count = int (length (ms_events s))\<rparr>)"
proof (cases "ms_events s")
  case (Cons e es)
  let ?b = "bound_step e \<lparr>eb_MinSeq = 0, eb_MaxSeq = 0, eb_Count = 0\<rparr>"
  have b: "?b = \<lparr>eb_MinSeq = ev_Seq e, eb_MaxSeq = ev_Seq e, eb_Count = 1\<rparr>"
    by (simp add: bound_step_def)
  with Cons show ?thesis by (simp add: EventBounds_def fold_bound_step)
qed (simp add: EventBounds_def)

section \<open>The search for a free sequence number\<close>

text \<open>The loop of the recording with a bound on its rounds: \<open>None\<close> when the bound is used up.\<close>

fun probe :: "nat \<Rightarrow> (int, unit) gomap \<Rightarrow> int \<Rightarrow> int option" where
  "probe 0 m q = None"
| "probe (Suc n) m q = (if gget m q = None then Some q else probe n m (q + 1))"

lemma probe_next_free:
  "length (filter (\<lambda>(k, _). q \<le> k) m) < n \<Longrightarrow> probe n m q = Some (next_free m q)"
proof (induction n m q rule: probe.induct)
  case (2 n m q)
  show ?case
  proof (cases "gget m q = None")
    case False
    then have mem: "(q, ()) \<in> set (filter (\<lambda>(k, _). q \<le> k) m)"
      by (auto dest: gget_mem)
    have "filter (\<lambda>(k, _). q + 1 \<le> k) m = filter (\<lambda>(k, _). q + 1 \<le> k) (filter (\<lambda>(k, _). q \<le> k) m)"
      by (auto intro: filter_cong)
    also have "length \<dots> < length (filter (\<lambda>(k, _). q \<le> k) m)"
      by (rule length_filter_less [OF mem]) simp
    finally show ?thesis using 2 False by (simp add: next_free.simps [of m q])
  qed (simp add: next_free.simps [of m q])
qed simp

lemma next_free_least: "q \<le> k \<Longrightarrow> k < next_free m q \<Longrightarrow> gget m k \<noteq> None"
proof (induction m q rule: next_free.induct)
  case (1 m q)
  show ?case
  proof (cases "gget m q = None")
    case True
    with 1(2,3) show ?thesis by (simp add: next_free.simps [of m q])
  next
    case False
    with 1 show ?thesis by (cases "k = q") (simp_all add: next_free.simps [of m q])
  qed
qed



end
