(* ===== verification/Store_Operations.thy ===== *)
theory Store_Operations
  imports Store
begin

text \<open>
  Recoverable operations: the leased records of \<open>p2p/storage/memory_operations.go\<close>.  A record carries
  a revision, the fencing token, and a lease of an owner until a time.  The locale \<open>operation_store\<close> is
  the contract of the guarded write, which the in-memory store interprets; the step relation covers
  claims and guarded writes of any number of claimants.  \<open>time.Now().UnixMilli()\<close> is an argument; a guarded write reads the clock twice.
\<close>

section \<open>The store\<close>

definition LookupOperation :: "memory_store \<Rightarrow> string \<Rightarrow> operation_record option" where
  "LookupOperation s operationID = gget (ms_operations s) operationID"

definition UpsertOperation :: "operation_record \<Rightarrow> memory_store \<Rightarrow> memory_store" where
  "UpsertOperation record s = s\<lparr>ms_operations := gput (oq_OperationID record) record (ms_operations s)\<rparr>"

text \<open>The stored operation is another one than the claimed.\<close>

definition claim_mismatch :: "operation_record \<Rightarrow> operation_record \<Rightarrow> bool" where
  "claim_mismatch current record \<longleftrightarrow>
     oq_Action current \<noteq> oq_Action record
     \<or> oq_RoomID record \<noteq> [] \<and> oq_RoomID current \<noteq> oq_RoomID record
     \<or> oq_UserID record \<noteq> [] \<and> oq_UserID current \<noteq> oq_UserID record
     \<or> oq_PeerMXID record \<noteq> [] \<and> oq_PeerMXID current \<noteq> oq_PeerMXID record
     \<or> oq_RequestID record \<noteq> [] \<and> oq_RequestID current \<noteq> oq_RequestID record"

definition ClaimOperation ::
  "int \<Rightarrow> operation_record \<Rightarrow> string \<Rightarrow> int \<Rightarrow> memory_store \<Rightarrow> (operation_record \<times> bool) \<times> memory_store" where
  "ClaimOperation now record owner leaseDurationMillis s =
     (let leased = (owner \<noteq> [] \<and> leaseDurationMillis > 0);
          leaseOwner = (if leased then owner else []);
          leaseUntil = (if leased then wrap64 (now + leaseDurationMillis) else 0)
      in case gget (ms_operations s) (oq_OperationID record) of
           None \<Rightarrow>
             let record = record\<lparr>oq_Revision := 1, oq_LeaseOwner := leaseOwner, oq_LeaseUntil := leaseUntil\<rparr>
             in ((record, True), s\<lparr>ms_operations := gput (oq_OperationID record) record (ms_operations s)\<rparr>)
         | Some current \<Rightarrow>
             if claim_mismatch current record then ((current, False), s)
             else if oq_LeaseOwner current \<noteq> [] \<and> oq_LeaseOwner current \<noteq> owner \<and> oq_LeaseUntil current > now
             then ((current, False), s)
             else let current = current\<lparr>oq_Revision := wrap64 (oq_Revision current + 1),
                                        oq_LeaseOwner := leaseOwner, oq_LeaseUntil := leaseUntil\<rparr>
                  in ((current, True), s\<lparr>ms_operations := gput (oq_OperationID current) current (ms_operations s)\<rparr>))"

text \<open>The zero value of the struct.\<close>

definition zero_operation :: operation_record where
  "zero_operation = \<lparr>oq_OperationID = [], oq_Action = [], oq_Status = [], oq_Phase = [], oq_RoomID = [],
     oq_CurrentRoomID = [], oq_UserID = [], oq_PeerMXID = [], oq_RequestID = [], oq_BaseRequestID = [],
     oq_ResultJSON = [], oq_ErrorCode = [], oq_Revision = 0, oq_LeaseOwner = [], oq_LeaseUntil = 0,
     oq_CreatedAt = 0, oq_UpdatedAt = 0\<rparr>"

text \<open>The record a successful guarded write stores.\<close>

definition swapped_operation :: "int \<Rightarrow> operation_record \<Rightarrow> int \<Rightarrow> int \<Rightarrow> operation_record" where
  "swapped_operation now record revision leaseDurationMillis =
     (let record = record\<lparr>oq_Revision := wrap64 (revision + 1)\<rparr>
      in if oq_LeaseOwner record \<noteq> [] \<and> leaseDurationMillis > 0
         then record\<lparr>oq_LeaseUntil := wrap64 (now + leaseDurationMillis)\<rparr>
         else record\<lparr>oq_LeaseOwner := [], oq_LeaseUntil := 0\<rparr>)"

definition CompareAndSwapOperation ::
  "int \<Rightarrow> int \<Rightarrow> operation_record \<Rightarrow> int \<Rightarrow> string \<Rightarrow> int \<Rightarrow> memory_store
   \<Rightarrow> (operation_record \<times> bool) \<times> memory_store" where
  "CompareAndSwapOperation now now' record expectedRevision owner leaseDurationMillis s =
     (case gget (ms_operations s) (oq_OperationID record) of
        None \<Rightarrow> ((zero_operation, False), s)
      | Some current \<Rightarrow>
          if oq_Revision current \<noteq> expectedRevision \<or> oq_LeaseOwner current \<noteq> owner \<or> oq_LeaseUntil current \<le> now
          then ((zero_operation, False), s)
          else let record = swapped_operation now' record (oq_Revision current) leaseDurationMillis
               in ((record, True), s\<lparr>ms_operations := gput (oq_OperationID record) record (ms_operations s)\<rparr>))"

definition operations_ok :: "memory_store \<Rightarrow> bool" where
  "operations_ok s \<longleftrightarrow> keyed oq_OperationID (ms_operations s)"

section \<open>The contract of the guarded write\<close>

text \<open>The lease of \<open>owner\<close> on a record at revision \<open>r\<close> is in force at time \<open>now\<close>.\<close>

definition holds_lease :: "int \<Rightarrow> string \<Rightarrow> int \<Rightarrow> operation_record option \<Rightarrow> bool" where
  "holds_lease now owner r c \<longleftrightarrow>
     (case c of None \<Rightarrow> False
      | Some c \<Rightarrow> oq_Revision c = r \<and> oq_LeaseOwner c = owner \<and> oq_LeaseUntil c > now)"

lemma swapped_id [simp]: "oq_OperationID (swapped_operation now rec r d) = oq_OperationID rec"
  "oq_Revision (swapped_operation now rec r d) = wrap64 (r + 1)"
  by (simp_all add: swapped_operation_def Let_def)

lemma wrap64_succ_neq: "int64_range r \<Longrightarrow> wrap64 (r + 1) \<noteq> r"
proof -
  assume r: "int64_range r"
  show ?thesis
  proof (cases "r = 2 ^ 63 - 1")
    case True
    then have "wrap64 (r + 1) = - (2 ^ 63)" using wrap64_overflow by simp
    with True show ?thesis by simp
  next
    case False
    with r have "int64_range (r + 1)" by (auto simp: int64_range_def)
    then show ?thesis by (simp add: wrap64_id)
  qed
qed

locale operation_store =
  fixes look :: "'s \<Rightarrow> string \<Rightarrow> operation_record option"
    and cas :: "int \<Rightarrow> int \<Rightarrow> operation_record \<Rightarrow> int \<Rightarrow> string \<Rightarrow> int \<Rightarrow> 's \<Rightarrow> (operation_record \<times> bool) \<times> 's"
  assumes cas_refused: "\<not> holds_lease now owner r (look s (oq_OperationID rec)) \<Longrightarrow>
      snd (fst (cas now now' rec r owner d s)) = False \<and> snd (cas now now' rec r owner d s) = s"
    and cas_accepted: "holds_lease now owner r (look s (oq_OperationID rec)) \<Longrightarrow>
      \<exists>s'. cas now now' rec r owner d s = ((swapped_operation now' rec r d, True), s') \<and>
        look s' (oq_OperationID rec) = Some (swapped_operation now' rec r d)"
begin

lemma cas_iff: "snd (fst (cas now now' rec r owner d s)) \<longleftrightarrow> holds_lease now owner r (look s (oq_OperationID rec))"
  using cas_refused [of now owner r s rec now' d] cas_accepted [of now owner r s rec now' d] by auto

text \<open>The revision is the fencing token: no token is accepted twice.\<close>

lemma token_once:
  assumes "cas now now' rec r owner d s = ((c, True), s')" and "oq_OperationID rec' = oq_OperationID rec"
    and "int64_range r"
  shows "\<not> snd (fst (cas t t' rec' r owner' d' s'))"
proof -
  have "look s' (oq_OperationID rec) = Some (swapped_operation now' rec r d)"
    using assms(1) cas_iff [of now now' rec r owner d s] cas_accepted [of now owner r s rec now' d] by auto
  moreover have "oq_Revision (swapped_operation now' rec r d) \<noteq> r"
    using wrap64_succ_neq [OF assms(3)] by simp
  ultimately show ?thesis
    unfolding cas_iff by (simp add: assms(2) holds_lease_def)
qed

end

interpretation mem_operations: operation_store LookupOperation CompareAndSwapOperation
  by unfold_locales
    (auto simp: CompareAndSwapOperation_def LookupOperation_def holds_lease_def Let_def split: option.splits)

lemma operations_ok_new: "operations_ok NewMemoryStore"
  by (simp add: operations_ok_def NewMemoryStore_def)

lemma operations_ok_Claim:
  assumes "operations_ok s"
  shows "operations_ok (snd (ClaimOperation now rec owner d s))"
  using assms by (auto simp: ClaimOperation_def operations_ok_def Let_def split: option.split)

lemma operations_ok_CAS:
  assumes "operations_ok s"
  shows "operations_ok (snd (CompareAndSwapOperation now now' rec r owner d s))"
  using assms by (auto simp: CompareAndSwapOperation_def operations_ok_def Let_def split: option.split)

lemma operations_ok_Upsert: "operations_ok s \<Longrightarrow> operations_ok (UpsertOperation rec s)"
  by (simp add: operations_ok_def UpsertOperation_def)

section \<open>Steps\<close>

text \<open>Claims and guarded writes of any claimant, at any time, as long as no revision overflows.\<close>

inductive operation_step :: "memory_store \<Rightarrow> memory_store \<Rightarrow> bool" where
  step_claim: "ClaimOperation now rec owner d s = (res, s') \<Longrightarrow>
     (\<And>c. LookupOperation s (oq_OperationID rec) = Some c \<Longrightarrow> int64_range (oq_Revision c + 1)) \<Longrightarrow> operation_step s s'"
| step_cas: "CompareAndSwapOperation now now' rec r owner d s = (res, s') \<Longrightarrow>
     (\<And>c. LookupOperation s (oq_OperationID rec) = Some c \<Longrightarrow> int64_range (oq_Revision c + 1)) \<Longrightarrow> operation_step s s'"

inductive_cases operation_stepE: "operation_step s s'"

text \<open>A step that changes a record raises its revision.\<close>

lemma operation_step_revision:
  assumes "operation_step s s'" and "operations_ok s" and "LookupOperation s i = Some a"
  shows "\<exists>b. LookupOperation s' i = Some b \<and> (b = a \<or> oq_Revision b > oq_Revision a)"
  using assms(1)
proof cases
  case (step_claim now rec owner d res)
  have id: "oq_OperationID c = j" if "gget (ms_operations s) j = Some c" for c j
    using assms(2) that by (auto simp: operations_ok_def dest: keyed_key)
  show ?thesis
  proof (cases "oq_OperationID rec = i")
    case True
    with step_claim(2) assms(3) have "wrap64 (oq_Revision a + 1) = oq_Revision a + 1"
      by (simp add: wrap64_id)
    with True step_claim(1) assms(3) id [of i a] show ?thesis
      by (auto simp: ClaimOperation_def LookupOperation_def Let_def split: if_splits)
  next
    case False
    with step_claim(1) assms(3) id show ?thesis
      by (auto simp: ClaimOperation_def LookupOperation_def Let_def split: if_splits option.splits)
  qed
next
  case (step_cas now now' rec r owner d res)
  show ?thesis
  proof (cases "oq_OperationID rec = i")
    case True
    with step_cas(2) assms(3) have "wrap64 (oq_Revision a + 1) = oq_Revision a + 1"
      by (simp add: wrap64_id)
    with True step_cas(1) assms(3) show ?thesis
      by (auto simp: CompareAndSwapOperation_def LookupOperation_def Let_def split: if_splits)
  next
    case False
    with step_cas(1) assms(3) show ?thesis
      by (auto simp: CompareAndSwapOperation_def LookupOperation_def Let_def split: if_splits option.splits)
  qed
qed

lemma operation_step_ok: "operation_step s s' \<Longrightarrow> operations_ok s \<Longrightarrow> operations_ok s'"
  by (erule operation_stepE)
    (metis operations_ok_Claim snd_conv, metis operations_ok_CAS snd_conv)

lemma operation_steps_revision:
  assumes "operation_step\<^sup>*\<^sup>* s s'" and "operations_ok s" and "LookupOperation s i = Some a"
  shows "operations_ok s' \<and> (\<exists>b. LookupOperation s' i = Some b \<and> (b = a \<or> oq_Revision b > oq_Revision a))"
  using assms(1)
proof (induction rule: rtranclp_induct)
  case base
  then show ?case using assms(2,3) by simp
next
  case (step y z)
  then obtain b where b: "LookupOperation y i = Some b" "b = a \<or> oq_Revision b > oq_Revision a" by blast
  obtain c where "LookupOperation z i = Some c" "c = b \<or> oq_Revision c > oq_Revision b"
    using operation_step_revision [OF step.hyps(2) _ b(1)] step.IH by blast
  then show ?case using b(2) operation_step_ok [OF step.hyps(2)] step.IH by auto
qed

section \<open>Properties\<close>

text \<open>C8: the lease excludes every other claimant: while the lease of an owner is in force, a claim
  under another name and a guarded write under another name are refused and change nothing.\<close>

theorem lease_excludes_others:
  assumes "holds_lease now owner r (LookupOperation s (oq_OperationID rec))" and "owner \<noteq> []"
    and "other \<noteq> owner"
  shows "snd (fst (ClaimOperation now rec other d s)) = False \<and> snd (ClaimOperation now rec other d s) = s \<and>
    snd (fst (CompareAndSwapOperation now now' rec r' other d s)) = False \<and>
    snd (CompareAndSwapOperation now now' rec r' other d s) = s"
proof -
  obtain c where c: "gget (ms_operations s) (oq_OperationID rec) = Some c" "oq_LeaseOwner c = owner"
    "oq_LeaseUntil c > now"
    using assms(1) by (auto simp: holds_lease_def LookupOperation_def split: option.splits)
  with assms(2,3) have "\<not> holds_lease now other r' (LookupOperation s (oq_OperationID rec))"
    by (simp add: holds_lease_def LookupOperation_def)
  from mem_operations.cas_refused [OF this] c assms(2,3) show ?thesis
    by (simp add: ClaimOperation_def Let_def)
qed

theorem lease_excludes_others_witness:
  "let rec = zero_operation\<lparr>oq_OperationID := ''op''\<rparr>;
       s = snd (ClaimOperation 100 rec ''a'' 50 NewMemoryStore)
   in snd (fst (ClaimOperation 120 rec ''b'' 50 s)) = False \<and> snd (ClaimOperation 120 rec ''b'' 50 s) = s"
proof -
  define rec where "rec = zero_operation\<lparr>oq_OperationID := ''op''\<rparr>"
  define s where "s = snd (ClaimOperation 100 rec ''a'' 50 NewMemoryStore)"
  have "holds_lease 120 ''a'' 1 (LookupOperation s (oq_OperationID rec))"
    by (simp add: s_def rec_def ClaimOperation_def Let_def NewMemoryStore_def LookupOperation_def
        holds_lease_def wrap64_def)
  from lease_excludes_others [OF this, of "''b''" 50 0 1] show ?thesis
    by (simp add: Let_def rec_def s_def)
qed

text \<open>C7: the revision is a fencing token.  Whatever claims and guarded writes happen between the
  moment a claimant reads a record and its own guarded write, the write is accepted only if the record
  is still exactly the one read, and then the lease of the claimant is still in force.\<close>

theorem revision_fences:
  assumes "operations_ok s" and "LookupOperation s (oq_OperationID rec) = Some a"
    and "operation_step\<^sup>*\<^sup>* s s'"
    and "snd (fst (CompareAndSwapOperation now now' rec (oq_Revision a) owner d s'))"
  shows "LookupOperation s' (oq_OperationID rec) = Some a \<and> oq_LeaseOwner a = owner \<and> oq_LeaseUntil a > now"
proof -
  have "holds_lease now owner (oq_Revision a) (LookupOperation s' (oq_OperationID rec))"
    using assms(4) by (simp add: mem_operations.cas_iff)
  with operation_steps_revision [OF assms(3,1,2)] show ?thesis
    by (auto simp: holds_lease_def)
qed

theorem revision_fences_witness:
  "let rec = zero_operation\<lparr>oq_OperationID := ''op''\<rparr>;
       s = snd (ClaimOperation 100 rec ''a'' 50 NewMemoryStore);
       a = the (LookupOperation s ''op'')
   in snd (fst (CompareAndSwapOperation 120 121 rec (oq_Revision a) ''a'' 50 s)) \<and> oq_LeaseUntil a > 120"
proof -
  define rec where "rec = zero_operation\<lparr>oq_OperationID := ''op''\<rparr>"
  define s where "s = snd (ClaimOperation 100 rec ''a'' 50 NewMemoryStore)"
  define a where "a = the (LookupOperation s ''op'')"
  have look: "LookupOperation s (oq_OperationID rec) = Some a"
    by (simp add: a_def s_def rec_def ClaimOperation_def Let_def NewMemoryStore_def LookupOperation_def)
  have ok: "operations_ok s" by (simp add: s_def operations_ok_Claim operations_ok_new)
  have "a = rec\<lparr>oq_Revision := 1, oq_LeaseOwner := ''a'', oq_LeaseUntil := 150\<rparr>"
    by (simp add: a_def s_def rec_def ClaimOperation_def Let_def NewMemoryStore_def LookupOperation_def wrap64_def)
  then have cas: "snd (fst (CompareAndSwapOperation 120 121 rec (oq_Revision a) ''a'' 50 s))"
    using look by (simp add: mem_operations.cas_iff holds_lease_def)
  from revision_fences [OF ok look rtranclp.rtrancl_refl cas] cas show ?thesis
    by (simp add: Let_def rec_def s_def a_def)
qed

end
