(* ===== verification/Store_GroupAgent.thy ===== *)
theory Store_GroupAgent
  imports Store
begin

text \<open>
  The Native Ying bindings, requests and schedules of groups (\<open>p2p/storage/memory_group_agent.go\<close>).
  A request is queued only under an enabled binding of the same revision, a room has at most 256 pending
  requests, and changing or disabling a binding cancels the pending requests of other revisions.
  \<open>agent_queue_ok\<close> states both and every operation keeps it.  The callbacks of the two mutators are
  arguments; an \<open>Inl\<close> result is the error they return.
\<close>

section \<open>Definitions\<close>

datatype group_agent_error = GroupAgentQueueFull | GroupAgentConflict

definition groupAgentRequestQueueMax :: nat where
  "groupAgentRequestQueueMax = 256"

definition zero_binding :: group_agent_binding where
  "zero_binding = \<lparr>gb_RoomID = [], gb_Enabled = False, gb_OwnerMXID = [], gb_AgentMXID = [],
     gb_DisplayName = [], gb_AvatarURL = [], gb_Revision = 0, gb_MemberPolicy = [], gb_Status = [],
     gb_AccountGeneration = 0, gb_EnabledAt = 0\<rparr>"

definition GetGroupAgentBinding :: "memory_store \<Rightarrow> string \<Rightarrow> group_agent_binding option" where
  "GetGroupAgentBinding s roomID = gget (ms_groupAgentBindings s) roomID"

text \<open>Indexing a map with an absent key yields the zero value.\<close>

definition binding_of :: "memory_store \<Rightarrow> string \<Rightarrow> group_agent_binding" where
  "binding_of s roomID = (case gget (ms_groupAgentBindings s) roomID of Some b \<Rightarrow> b | None \<Rightarrow> zero_binding)"

text \<open>The loop appends and then tests \<open>len(out) >= limit\<close>, so at least one match is returned.\<close>

definition ListEnabledGroupAgentBindings ::
  "memory_store \<Rightarrow> string \<Rightarrow> int \<Rightarrow> int \<Rightarrow> group_agent_binding list" where
  "ListEnabledGroupAgentBindings s owner generation limit =
     take (nat (max 1 limit)) (filter
       (\<lambda>b. \<not> (\<not> gb_Enabled b \<or> gb_OwnerMXID b \<noteq> owner \<or> gb_AccountGeneration b \<noteq> generation))
       (map (binding_of s) (sort (map fst (ms_groupAgentBindings s)))))"

definition cancel_if :: "(group_agent_request \<Rightarrow> bool) \<Rightarrow> memory_store \<Rightarrow> memory_store" where
  "cancel_if p s = s\<lparr>ms_groupAgentRequests :=
     map (\<lambda>(i, r). (i, if p r then r\<lparr>gq_Status := ''cancelled''\<rparr> else r)) (ms_groupAgentRequests s)\<rparr>"

definition MutateGroupAgentBinding ::
  "string \<Rightarrow> (group_agent_binding \<Rightarrow> 'e + group_agent_binding) \<Rightarrow> memory_store \<Rightarrow> 'e + memory_store" where
  "MutateGroupAgentBinding roomID mutate s =
     (let previous = (binding_of s roomID)\<lparr>gb_RoomID := roomID\<rparr>
      in case mutate previous of
           Inl err \<Rightarrow> Inl err
         | Inr b \<Rightarrow>
             let s = s\<lparr>ms_groupAgentBindings := gput roomID b (ms_groupAgentBindings s)\<rparr>
             in Inr (if \<not> gb_Enabled b \<or> gb_Revision b \<noteq> gb_Revision previous
                     then cancel_if (\<lambda>r. gq_RoomID r = roomID \<and> gq_Status r = ''pending'' \<and>
                            (\<not> gb_Enabled b \<or> gq_BindingRevision r \<noteq> gb_Revision b)) s
                     else s))"

definition groupAgentScheduleKey :: "string \<Rightarrow> string \<Rightarrow> string" where
  "groupAgentScheduleKey roomID scheduleID = roomID @ ''|'' @ scheduleID"

definition UpsertGroupAgentSchedule :: "group_agent_schedule \<Rightarrow> memory_store \<Rightarrow> memory_store" where
  "UpsertGroupAgentSchedule g s = s\<lparr>ms_groupAgentSchedules :=
     gput (groupAgentScheduleKey (gs_RoomID g) (gs_ScheduleID g)) g (ms_groupAgentSchedules s)\<rparr>"

definition RemoveGroupAgentSchedule :: "string \<Rightarrow> string \<Rightarrow> memory_store \<Rightarrow> memory_store" where
  "RemoveGroupAgentSchedule roomID scheduleID s =
     s\<lparr>ms_groupAgentSchedules := gdel (groupAgentScheduleKey roomID scheduleID) (ms_groupAgentSchedules s)\<rparr>"

definition ListGroupAgentSchedules :: "memory_store \<Rightarrow> string \<Rightarrow> int \<Rightarrow> group_agent_schedule list" where
  "ListGroupAgentSchedules s roomID limit =
     (let out = go_sort (\<lambda>a b. gs_ScheduleID a < gs_ScheduleID b)
                  (filter (\<lambda>g. gs_RoomID g = roomID) (gvals (ms_groupAgentSchedules s)))
      in if limit > 0 \<and> int (length out) > limit then take (nat limit) out else out)"

definition groupAgentRequestMatches :: "group_agent_binding \<Rightarrow> group_agent_request \<Rightarrow> bool" where
  "groupAgentRequestMatches b r \<longleftrightarrow>
     gb_Enabled b \<and> gb_Revision b = gq_BindingRevision r \<and> gb_OwnerMXID b = gq_OwnerMXID r \<and>
     gb_AgentMXID b = gq_AgentMXID r \<and> gb_AccountGeneration b = gq_AccountGeneration r"

definition pending_in :: "string \<Rightarrow> group_agent_request \<Rightarrow> bool" where
  "pending_in roomID r \<longleftrightarrow> gq_RoomID r = roomID \<and> gq_Status r = ''pending''"

definition pending_count :: "memory_store \<Rightarrow> string \<Rightarrow> nat" where
  "pending_count s roomID = length (filter (pending_in roomID) (gvals (ms_groupAgentRequests s)))"

definition EnqueueGroupAgentRequest ::
  "group_agent_request \<Rightarrow> memory_store \<Rightarrow> group_agent_error + bool \<times> memory_store" where
  "EnqueueGroupAgentRequest r s =
     (if \<not> groupAgentRequestMatches (binding_of s (gq_RoomID r)) r then Inr (False, s)
      else if gget (ms_groupAgentRequests s) (gq_RequestID r) \<noteq> None then Inr (False, s)
      else if pending_count s (gq_RoomID r) \<ge> groupAgentRequestQueueMax then Inl GroupAgentQueueFull
      else if gq_ScheduledBy r \<noteq> [] \<and> go_trim (gq_Body r) = [] then Inr (False, s)
      else let r = r\<lparr>gq_Body := (if gq_ScheduledBy r = [] then [] else gq_Body r), gq_Status := ''pending''\<rparr>
           in Inr (True, s\<lparr>ms_groupAgentRequests := gput (gq_RequestID r) r (ms_groupAgentRequests s)\<rparr>))"

text \<open>\<open>None\<close> is the slice expression's panic on a negative limit.\<close>

definition ListGroupAgentRequests ::
  "memory_store \<Rightarrow> string \<Rightarrow> int \<Rightarrow> int \<Rightarrow> string \<Rightarrow> group_agent_request list option" where
  "ListGroupAgentRequests s owner generation limit after =
     (let requests = go_sort (\<lambda>a b. gq_RequestID a < gq_RequestID b) (filter
            (\<lambda>r. gq_OwnerMXID r = owner \<and> gq_AccountGeneration r = generation \<and> gq_Status r = ''pending'' \<and>
                 gq_RequestID r > after \<and> groupAgentRequestMatches (binding_of s (gq_RoomID r)) r)
            (gvals (ms_groupAgentRequests s)))
      in if int (length requests) > limit then if limit < 0 then None else Some (take (nat limit) requests)
         else Some requests)"

definition GetGroupAgentRequest :: "memory_store \<Rightarrow> string \<Rightarrow> group_agent_request option" where
  "GetGroupAgentRequest s i = gget (ms_groupAgentRequests s) i"

definition MutateGroupAgentRequest ::
  "string \<Rightarrow> (group_agent_binding \<Rightarrow> group_agent_request \<Rightarrow> group_agent_error + group_agent_request)
   \<Rightarrow> memory_store \<Rightarrow> group_agent_error + memory_store" where
  "MutateGroupAgentRequest i mutate s =
     (case gget (ms_groupAgentRequests s) i of
        None \<Rightarrow> Inl GroupAgentConflict
      | Some r \<Rightarrow>
          (case mutate (binding_of s (gq_RoomID r)) r of
             Inl err \<Rightarrow> Inl err
           | Inr r \<Rightarrow> Inr (s\<lparr>ms_groupAgentRequests := gput i (r\<lparr>gq_Body := []\<rparr>) (ms_groupAgentRequests s)\<rparr>)))"

definition CancelGroupAgentRequests :: "string \<Rightarrow> string \<Rightarrow> string \<Rightarrow> memory_store \<Rightarrow> memory_store" where
  "CancelGroupAgentRequests roomID sender eventID s =
     cancel_if (\<lambda>r. gq_Status r = ''pending'' \<and> (roomID = [] \<or> gq_RoomID r = roomID) \<and>
                    (sender = [] \<or> gq_SenderMXID r = sender) \<and> (eventID = [] \<or> gq_EventID r = eventID)) s"

section \<open>The invariant\<close>

definition agent_queue_ok :: "memory_store \<Rightarrow> bool" where
  "agent_queue_ok s \<longleftrightarrow> gmap_ok (ms_groupAgentRequests s) \<and> gmap_ok (ms_groupAgentBindings s) \<and>
     vals_all (\<lambda>r. gq_Status r = ''pending'' \<longrightarrow>
       gb_Enabled (binding_of s (gq_RoomID r)) \<and>
       gb_Revision (binding_of s (gq_RoomID r)) = gq_BindingRevision r) (ms_groupAgentRequests s) \<and>
     vals_all (\<lambda>r. pending_count s (gq_RoomID r) \<le> groupAgentRequestQueueMax) (ms_groupAgentRequests s)"

lemma pending_count_0:
  "\<not> (\<exists>r\<in>set (gvals (ms_groupAgentRequests s)). gq_RoomID r = room) \<Longrightarrow> pending_count s room = 0"
  by (auto simp: pending_count_def pending_in_def filter_empty_conv)

text \<open>The bound holds for every room, queued in or not.\<close>

lemma agent_queue_bound: "agent_queue_ok s \<Longrightarrow> pending_count s room \<le> groupAgentRequestQueueMax"
  using pending_count_0 [of s room] by (fastforce simp: agent_queue_ok_def vals_all_def list_all_iff)

lemma agent_queue_okI:
  assumes "gmap_ok (ms_groupAgentRequests s)" and "gmap_ok (ms_groupAgentBindings s)"
    and "\<And>r. r \<in> set (gvals (ms_groupAgentRequests s)) \<Longrightarrow> gq_Status r = ''pending'' \<Longrightarrow>
      gb_Enabled (binding_of s (gq_RoomID r)) \<and> gb_Revision (binding_of s (gq_RoomID r)) = gq_BindingRevision r"
    and "\<And>room. pending_count s room \<le> groupAgentRequestQueueMax"
  shows "agent_queue_ok s"
  using assms by (simp add: agent_queue_ok_def vals_all_def list_all_iff)

lemma agent_queue_okD:
  "agent_queue_ok s \<Longrightarrow> r \<in> set (gvals (ms_groupAgentRequests s)) \<Longrightarrow> gq_Status r = ''pending'' \<Longrightarrow>
   gb_Enabled (binding_of s (gq_RoomID r)) \<and> gb_Revision (binding_of s (gq_RoomID r)) = gq_BindingRevision r"
  by (simp add: agent_queue_ok_def vals_all_def list_all_iff)

lemma agent_queue_new: "agent_queue_ok NewMemoryStore"
  by (rule agent_queue_okI) (simp_all add: NewMemoryStore_def pending_count_def gvals_def gempty_def gmap_ok_def)

lemma cancel_rows:
  "gvals (ms_groupAgentRequests (cancel_if p s)) =
     map (\<lambda>r. if p r then r\<lparr>gq_Status := ''cancelled''\<rparr> else r) (gvals (ms_groupAgentRequests s))"
  by (simp add: cancel_if_def gvals_def comp_def split_def)

lemma cancel_pending:
  assumes "r \<in> set (gvals (ms_groupAgentRequests (cancel_if p s)))" and "gq_Status r = ''pending''"
  shows "r \<in> set (gvals (ms_groupAgentRequests s)) \<and> \<not> p r"
proof -
  obtain x where x: "x \<in> set (gvals (ms_groupAgentRequests s))"
    "r = (if p x then x\<lparr>gq_Status := ''cancelled''\<rparr> else x)"
    using assms(1) unfolding cancel_rows by auto
  with assms(2) show ?thesis by (cases "p x") auto
qed

lemma cancel_count: "pending_count (cancel_if p s) room \<le> pending_count s room"
proof -
  have "length (filter (pending_in room) (map (\<lambda>r. if p r then r\<lparr>gq_Status := ''cancelled''\<rparr> else r) rs)) \<le>
      length (filter (pending_in room) rs)" for rs
    by (induction rs) (auto simp: pending_in_def)
  then show ?thesis by (simp add: pending_count_def cancel_rows)
qed

lemma cancel_bindings [simp]: "binding_of (cancel_if p s) room = binding_of s room"
  "ms_groupAgentBindings (cancel_if p s) = ms_groupAgentBindings s"
  by (simp_all add: binding_of_def cancel_if_def)

lemma gmap_ok_cancel: "gmap_ok (ms_groupAgentRequests s) \<Longrightarrow> gmap_ok (ms_groupAgentRequests (cancel_if p s))"
  using gmap_ok_map_values [of "\<lambda>_ r. if p r then r\<lparr>gq_Status := ''cancelled''\<rparr> else r"]
  by (simp add: cancel_if_def)

lemma agent_queue_Cancel: "agent_queue_ok s \<Longrightarrow> agent_queue_ok (CancelGroupAgentRequests room sender event s)"
  unfolding CancelGroupAgentRequests_def
proof (rule agent_queue_okI, goal_cases)
  case (4 r)
  then show ?case using cancel_count agent_queue_bound le_trans by blast
next
  case (3 r)
  then show ?case using cancel_pending agent_queue_okD by fastforce
qed (simp_all add: agent_queue_ok_def gmap_ok_cancel)

lemma agent_queue_MutateBinding:
  assumes "agent_queue_ok s" and "MutateGroupAgentBinding room mutate s = Inr s'"
  shows "agent_queue_ok s'"
proof -
  let ?prev = "(binding_of s room)\<lparr>gb_RoomID := room\<rparr>"
  obtain b where b: "mutate ?prev = Inr b"
    using assms(2) by (auto simp: MutateGroupAgentBinding_def Let_def split: sum.splits)
  let ?t = "s\<lparr>ms_groupAgentBindings := gput room b (ms_groupAgentBindings s)\<rparr>"
  let ?p = "\<lambda>r. gq_RoomID r = room \<and> gq_Status r = ''pending'' \<and> (\<not> gb_Enabled b \<or> gq_BindingRevision r \<noteq> gb_Revision b)"
  have s': "s' = (if \<not> gb_Enabled b \<or> gb_Revision b \<noteq> gb_Revision ?prev then cancel_if ?p ?t else ?t)"
    using assms(2) b by (simp add: MutateGroupAgentBinding_def Let_def)
  have bind: "binding_of ?t r = (if r = room then b else binding_of s r)" for r
    by (simp add: binding_of_def)
  have rows: "ms_groupAgentRequests ?t = ms_groupAgentRequests s" by simp
  have count: "pending_count ?t r = pending_count s r" for r by (simp add: pending_count_def)
  show ?thesis
  proof (rule agent_queue_okI)
    show "gmap_ok (ms_groupAgentRequests s')" "gmap_ok (ms_groupAgentBindings s')"
      using assms(1) by (auto simp: s' agent_queue_ok_def intro: gmap_ok_cancel)
    show "pending_count s' r \<le> groupAgentRequestQueueMax" for r
      using agent_queue_bound [OF assms(1), of r] cancel_count [of ?p ?t r] by (auto simp: s' count)
    fix r assume r: "r \<in> set (gvals (ms_groupAgentRequests s'))" "gq_Status r = ''pending''"
    have mem: "r \<in> set (gvals (ms_groupAgentRequests s))"
      and live: "\<not> gb_Enabled b \<or> gb_Revision b \<noteq> gb_Revision ?prev \<Longrightarrow> \<not> ?p r"
      using r cancel_pending [of r ?p ?t] by (simp_all add: s' rows split: if_splits)
    then have "gb_Enabled (binding_of s (gq_RoomID r))"
      "gb_Revision (binding_of s (gq_RoomID r)) = gq_BindingRevision r"
      using agent_queue_okD [OF assms(1) mem r(2)] by simp_all
    moreover have "binding_of s' (gq_RoomID r) = binding_of ?t (gq_RoomID r)" by (simp add: s')
    ultimately show "gb_Enabled (binding_of s' (gq_RoomID r)) \<and>
        gb_Revision (binding_of s' (gq_RoomID r)) = gq_BindingRevision r"
      using live r(2) by (cases "gq_RoomID r = room"; cases "gb_Revision b = gb_Revision ?prev") (auto simp: bind)
  qed
qed

lemma agent_queue_Enqueue:
  assumes "agent_queue_ok s" and "EnqueueGroupAgentRequest r s = Inr (queued, s')"
  shows "agent_queue_ok s'"
proof (cases queued)
  case False
  with assms show ?thesis by (auto simp: EnqueueGroupAgentRequest_def Let_def split: if_splits)
next
  case True
  define q where "q = r\<lparr>gq_Body := (if gq_ScheduledBy r = [] then [] else gq_Body r), gq_Status := ''pending''\<rparr>"
  have g: "groupAgentRequestMatches (binding_of s (gq_RoomID r)) r"
    "gget (ms_groupAgentRequests s) (gq_RequestID r) = None"
    "pending_count s (gq_RoomID r) < groupAgentRequestQueueMax"
    and s': "s' = s\<lparr>ms_groupAgentRequests := gput (gq_RequestID r) q (ms_groupAgentRequests s)\<rparr>"
    using assms(2) True
    by (auto simp: EnqueueGroupAgentRequest_def Let_def q_def split: if_splits)
  have m: "mset (gvals (ms_groupAgentRequests s')) = add_mset q (mset (gvals (ms_groupAgentRequests s)))"
    using mset_gvals_gput_new [OF g(2)] by (simp add: s')
  then have rows: "set (gvals (ms_groupAgentRequests s')) = insert q (set (gvals (ms_groupAgentRequests s)))"
    by (metis set_mset_add_mset_insert set_mset_mset)
  have q: "pending_in room q \<longleftrightarrow> room = gq_RoomID r" for room
    by (auto simp: pending_in_def q_def)
  have count: "pending_count s' room = pending_count s room + (if room = gq_RoomID r then 1 else 0)" for room
    unfolding pending_count_def size_mset [symmetric] mset_filter m by (simp add: q)
  have bind: "binding_of s' room = binding_of s room" for room by (simp add: binding_of_def s')
  show ?thesis
  proof (rule agent_queue_okI)
    show "gmap_ok (ms_groupAgentRequests s')" "gmap_ok (ms_groupAgentBindings s')"
      using assms(1) by (simp_all add: s' agent_queue_ok_def)
    show "pending_count s' room \<le> groupAgentRequestQueueMax" for room
      using agent_queue_bound [OF assms(1), of room] g(3) by (simp add: count)
    show "gb_Enabled (binding_of s' (gq_RoomID x)) \<and> gb_Revision (binding_of s' (gq_RoomID x)) = gq_BindingRevision x"
      if "x \<in> set (gvals (ms_groupAgentRequests s'))" "gq_Status x = ''pending''" for x
      using that g(1) agent_queue_okD [OF assms(1), of x]
      by (auto simp: rows bind groupAgentRequestMatches_def q_def)
  qed
qed

text \<open>A callback that settles a request: it keeps room and revision and revives nothing.\<close>

definition settles :: "(group_agent_binding \<Rightarrow> group_agent_request \<Rightarrow> group_agent_error + group_agent_request) \<Rightarrow> bool" where
  "settles mutate \<longleftrightarrow> (\<forall>b r r'. mutate b r = Inr r' \<longrightarrow>
     gq_RoomID r' = gq_RoomID r \<and> gq_BindingRevision r' = gq_BindingRevision r \<and>
     (gq_Status r' = ''pending'' \<longrightarrow> gq_Status r = ''pending''))"

lemma agent_queue_MutateRequest:
  assumes "agent_queue_ok s" and "MutateGroupAgentRequest i mutate s = Inr s'" and "settles mutate"
  shows "agent_queue_ok s'"
proof -
  obtain r r' where r: "gget (ms_groupAgentRequests s) i = Some r" "mutate (binding_of s (gq_RoomID r)) r = Inr r'"
    and s': "s' = s\<lparr>ms_groupAgentRequests := gput i (r'\<lparr>gq_Body := []\<rparr>) (ms_groupAgentRequests s)\<rparr>"
    using assms(2) by (auto simp: MutateGroupAgentRequest_def split: option.splits sum.splits)
  define q where "q = r'\<lparr>gq_Body := []\<rparr>"
  have q: "gq_RoomID q = gq_RoomID r" "gq_BindingRevision q = gq_BindingRevision r"
    "gq_Status q = ''pending'' \<Longrightarrow> gq_Status r = ''pending''"
    using assms(3) r(2) by (auto simp: settles_def q_def)
  have mem: "r \<in> set (gvals (ms_groupAgentRequests s))" using r(1) by (rule gget_vals)
  obtain X where X: "mset (gvals (ms_groupAgentRequests s)) = add_mset r X"
    using mem by (metis mset_add set_mset_mset)
  then have X': "mset (gvals (ms_groupAgentRequests s')) = add_mset q X"
    using mset_gvals_gput [OF r(1)] by (simp add: s' q_def)
  have rows: "set (gvals (ms_groupAgentRequests s')) \<subseteq> insert q (set (gvals (ms_groupAgentRequests s)))"
    using X X' by (metis set_mset_add_mset_insert set_mset_mset subset_insertI2 subset_refl insert_mono subset_insertI)
  have count: "pending_count s' room \<le> pending_count s room" for room
    unfolding pending_count_def size_mset [symmetric] mset_filter X X'
    using q by (auto simp: pending_in_def)
  have bind: "binding_of s' room = binding_of s room" for room by (simp add: binding_of_def s')
  show ?thesis
  proof (rule agent_queue_okI)
    show "gmap_ok (ms_groupAgentRequests s')" "gmap_ok (ms_groupAgentBindings s')"
      using assms(1) by (simp_all add: s' agent_queue_ok_def)
    show "pending_count s' room \<le> groupAgentRequestQueueMax" for room
      using agent_queue_bound [OF assms(1), of room] count [of room] by simp
    show "gb_Enabled (binding_of s' (gq_RoomID x)) \<and> gb_Revision (binding_of s' (gq_RoomID x)) = gq_BindingRevision x"
      if "x \<in> set (gvals (ms_groupAgentRequests s'))" "gq_Status x = ''pending''" for x
      using that rows q agent_queue_okD [OF assms(1) mem] agent_queue_okD [OF assms(1), of x]
      by (auto simp: bind)
  qed
qed

inductive agent_step :: "memory_store \<Rightarrow> memory_store \<Rightarrow> bool" where
  step_binding: "MutateGroupAgentBinding room (mutate :: _ \<Rightarrow> group_agent_error + _) s = Inr s' \<Longrightarrow> agent_step s s'"
| step_enqueue: "EnqueueGroupAgentRequest r s = Inr (b, s') \<Longrightarrow> agent_step s s'"
| step_settle: "settles f \<Longrightarrow> MutateGroupAgentRequest i f s = Inr s' \<Longrightarrow> agent_step s s'"
| step_cancel: "agent_step s (CancelGroupAgentRequests room sender event s)"

lemma agent_step_ok: "agent_step s s' \<Longrightarrow> agent_queue_ok s \<Longrightarrow> agent_queue_ok s'"
  by (induction rule: agent_step.induct)
    (auto intro: agent_queue_MutateBinding agent_queue_Enqueue agent_queue_MutateRequest agent_queue_Cancel)

definition zero_request :: group_agent_request where
  "zero_request = \<lparr>gq_RequestID = [], gq_RoomID = [], gq_EventID = [], gq_SenderMXID = [], gq_OwnerMXID = [],
     gq_AgentMXID = [], gq_BindingRevision = 0, gq_AccountGeneration = 0, gq_OriginServerTS = 0, gq_Body = [],
     gq_ScheduledBy = [], gq_SenderDisplayName = [], gq_Status = [], gq_ReplyEventID = [], gq_ReplyDigest = []\<rparr>"

section \<open>Properties\<close>

text \<open>C20: in every state the operations reach, a room has at most 256 pending requests, and every
  pending request belongs to an enabled binding of its own revision: no request outlives the grant it
  was made under.\<close>

theorem agent_queue_invariant:
  assumes "agent_step\<^sup>*\<^sup>* NewMemoryStore s"
  shows "pending_count s room \<le> 256 \<and>
    (\<forall>i r. GetGroupAgentRequest s i = Some r \<and> gq_Status r = ''pending'' \<longrightarrow>
       gb_Enabled (binding_of s (gq_RoomID r)) \<and> gb_Revision (binding_of s (gq_RoomID r)) = gq_BindingRevision r)"
proof -
  have ok: "agent_queue_ok s"
    using assms by (induction rule: rtranclp_induct) (auto simp: agent_queue_new dest: agent_step_ok)
  then show ?thesis
    using agent_queue_bound [OF ok, of room] agent_queue_okD [OF ok]
    by (auto simp: GetGroupAgentRequest_def groupAgentRequestQueueMax_def dest!: gget_vals)
qed

theorem agent_queue_invariant_witness:
  "let enable = (\<lambda>b. Inr (b\<lparr>gb_Enabled := True, gb_Revision := 1\<rparr>) :: group_agent_error + group_agent_binding);
       r = zero_request\<lparr>gq_RequestID := ''q'', gq_RoomID := ''!r:x'', gq_BindingRevision := 1\<rparr>
   in \<exists>s s'. MutateGroupAgentBinding ''!r:x'' enable NewMemoryStore = Inr s \<and>
        EnqueueGroupAgentRequest r s = Inr (True, s') \<and> pending_count s' ''!r:x'' \<le> 256"
proof -
  define enable where
    "enable = (\<lambda>b. Inr (b\<lparr>gb_Enabled := True, gb_Revision := 1\<rparr>) :: group_agent_error + group_agent_binding)"
  define r where "r = zero_request\<lparr>gq_RequestID := ''q'', gq_RoomID := ''!r:x'', gq_BindingRevision := 1\<rparr>"
  obtain s where s: "MutateGroupAgentBinding ''!r:x'' enable NewMemoryStore = Inr s"
    by (simp add: MutateGroupAgentBinding_def Let_def enable_def)
  then have b: "binding_of s ''!r:x'' = zero_binding\<lparr>gb_RoomID := ''!r:x'', gb_Enabled := True, gb_Revision := 1\<rparr>"
    by (auto simp: MutateGroupAgentBinding_def Let_def enable_def binding_of_def NewMemoryStore_def cancel_if_def
        split: if_splits)
  have "ms_groupAgentRequests NewMemoryStore = []" by (simp add: NewMemoryStore_def gempty_def)
  with s have q: "ms_groupAgentRequests s = gempty"
    by (auto simp: MutateGroupAgentBinding_def Let_def enable_def cancel_if_def gempty_def split: if_splits)
  obtain s' where s': "EnqueueGroupAgentRequest r s = Inr (True, s')"
    using b q
    by (simp add: EnqueueGroupAgentRequest_def Let_def groupAgentRequestMatches_def r_def zero_request_def
        zero_binding_def pending_count_def gvals_def groupAgentRequestQueueMax_def) (simp add: gempty_def)
  have "agent_step\<^sup>*\<^sup>* NewMemoryStore s'"
    using step_binding [OF s] step_enqueue [OF s'] by auto
  from agent_queue_invariant [OF this, of "''!r:x''"] s s' show ?thesis
    unfolding Let_def enable_def r_def by blast
qed

text \<open>A binding that is changed to disabled leaves no pending request in its room.\<close>

theorem disable_cancels_pending:
  assumes "MutateGroupAgentBinding room mutate s = Inr s'" and "\<not> gb_Enabled (binding_of s' room)"
  shows "pending_count s' room = 0"
proof -
  let ?prev = "(binding_of s room)\<lparr>gb_RoomID := room\<rparr>"
  obtain b where b: "mutate ?prev = Inr b"
    using assms(1) by (auto simp: MutateGroupAgentBinding_def Let_def split: sum.splits)
  let ?t = "s\<lparr>ms_groupAgentBindings := gput room b (ms_groupAgentBindings s)\<rparr>"
  let ?p = "\<lambda>r. gq_RoomID r = room \<and> gq_Status r = ''pending'' \<and> (\<not> gb_Enabled b \<or> gq_BindingRevision r \<noteq> gb_Revision b)"
  have s': "s' = (if \<not> gb_Enabled b \<or> gb_Revision b \<noteq> gb_Revision ?prev then cancel_if ?p ?t else ?t)"
    using assms(1) b by (simp add: MutateGroupAgentBinding_def Let_def)
  then have "\<not> gb_Enabled b" using assms(2) by (auto simp: binding_of_def cancel_if_def split: if_splits)
  then show ?thesis
    using cancel_pending [of _ ?p ?t] s'
    by (auto simp: pending_count_def pending_in_def filter_empty_conv)
qed

theorem disable_cancels_pending_witness:
  "let s = NewMemoryStore\<lparr>ms_groupAgentRequests := [(''q'', zero_request\<lparr>gq_RoomID := ''r'', gq_Status := ''pending''\<rparr>)]\<rparr>
   in pending_count s ''r'' = 1 \<and>
      (\<exists>s'. MutateGroupAgentBinding ''r'' (Inr :: _ \<Rightarrow> group_agent_error + _) s = Inr s' \<and> pending_count s' ''r'' = 0)"
proof -
  define s where "s = NewMemoryStore\<lparr>ms_groupAgentRequests := [(''q'', zero_request\<lparr>gq_RoomID := ''r'', gq_Status := ''pending''\<rparr>)]\<rparr>"
  obtain s' where s': "MutateGroupAgentBinding ''r'' (Inr :: _ \<Rightarrow> group_agent_error + _) s = Inr s'"
    by (simp add: MutateGroupAgentBinding_def Let_def)
  then have "\<not> gb_Enabled (binding_of s' ''r'')"
    by (auto simp: MutateGroupAgentBinding_def Let_def binding_of_def s_def NewMemoryStore_def zero_binding_def
        cancel_if_def split: if_splits)
  from disable_cancels_pending [OF s' this] s' show ?thesis
    by (simp add: Let_def s_def pending_count_def pending_in_def gvals_def)
qed

text \<open>\<open>EnqueueGroupAgentRequest\<close> fails with a full queue exactly when the request matches the
  binding, is new and the room already has 256 pending requests; a queued request is stored as pending,
  carries a body only if it was scheduled, and a request id is queued at most once.\<close>

theorem EnqueueGroupAgentRequest_spec:
  "case EnqueueGroupAgentRequest r s of
     Inl e \<Rightarrow> e = GroupAgentQueueFull \<and> groupAgentRequestMatches (binding_of s (gq_RoomID r)) r \<and>
        GetGroupAgentRequest s (gq_RequestID r) = None \<and> 256 \<le> pending_count s (gq_RoomID r)
   | Inr (queued, s') \<Rightarrow>
       (if queued then
          GetGroupAgentRequest s (gq_RequestID r) = None \<and>
          groupAgentRequestMatches (binding_of s (gq_RoomID r)) r \<and> pending_count s (gq_RoomID r) < 256 \<and>
          GetGroupAgentRequest s' (gq_RequestID r) = Some (r\<lparr>gq_Status := ''pending'',
             gq_Body := (if gq_ScheduledBy r = [] then [] else gq_Body r)\<rparr>) \<and>
          EnqueueGroupAgentRequest r s' = Inr (False, s')
        else s' = s)"
  by (auto simp: EnqueueGroupAgentRequest_def GetGroupAgentRequest_def groupAgentRequestQueueMax_def Let_def
      binding_of_def)

end
