(* ===== verification/Store_Portal.thy ===== *)
theory Store_Portal
  imports Store
begin

text \<open>
  The portal state, the read markers (\<open>p2p/storage/memory_portal.go\<close>) and the reset of the account
  (\<open>memory_reset.go\<close>).  A read marker only moves forward; the reported client build survives a portal
  write of the same device; the reset is compared with the empty store.
\<close>

section \<open>Definitions\<close>

definition LoadPortal :: "memory_store \<Rightarrow> portal_state option" where
  "LoadPortal s = ms_portal s"

definition SavePortal :: "portal_state \<Rightarrow> memory_store \<Rightarrow> memory_store" where
  "SavePortal state s =
     (let state = (case ms_portal s of
                     Some p \<Rightarrow> if ps_MatrixDeviceID p = ps_MatrixDeviceID state
                              then state\<lparr>ps_ClientBuild := ps_ClientBuild p\<rparr> else state
                   | None \<Rightarrow> state)
      in s\<lparr>ms_portal := Some state\<rparr>)"

definition SaveClientBuild :: "string \<Rightarrow> client_build \<Rightarrow> memory_store \<Rightarrow> bool \<times> memory_store" where
  "SaveClientBuild expectedDeviceID build s =
     (case ms_portal s of
        None \<Rightarrow> (False, s)
      | Some p \<Rightarrow> if ps_MatrixDeviceID p \<noteq> expectedDeviceID then (False, s)
                  else (True, s\<lparr>ms_portal := Some (p\<lparr>ps_ClientBuild := build\<rparr>)\<rparr>))"

definition readMarkerPositionAfter :: "read_marker \<Rightarrow> read_marker \<Rightarrow> bool" where
  "readMarkerPositionAfter candidate current \<longleftrightarrow>
     rm_TopologicalPosition candidate > rm_TopologicalPosition current
     \<or> rm_TopologicalPosition candidate = rm_TopologicalPosition current \<and>
       rm_StreamPosition candidate > rm_StreamPosition current"

definition SaveReadMarker :: "read_marker \<Rightarrow> memory_store \<Rightarrow> memory_store" where
  "SaveReadMarker marker s =
     (if (case gget (ms_readMarks s) (rm_RoomID marker) of
            None \<Rightarrow> True | Some current \<Rightarrow> readMarkerPositionAfter marker current)
      then s\<lparr>ms_readMarks := gput (rm_RoomID marker) marker (ms_readMarks s)\<rparr> else s)"

definition GetReadMarker :: "memory_store \<Rightarrow> string \<Rightarrow> read_marker option" where
  "GetReadMarker s roomID = gget (ms_readMarks s) roomID"

definition markerLess :: "read_marker \<Rightarrow> read_marker \<Rightarrow> bool" where
  "markerLess a b \<longleftrightarrow> rm_RoomID a < rm_RoomID b"

text \<open>Room ids are unique in the table, so \<open>sort.Slice\<close> and the stable sort agree.\<close>

definition ListReadMarkers :: "memory_store \<Rightarrow> read_marker list" where
  "ListReadMarkers s = go_sort markerLess (gvals (ms_readMarks s))"

definition ResetAccountState :: "memory_store \<Rightarrow> memory_store" where
  "ResetAccountState s = s\<lparr>
     ms_portal := None, ms_groupAgentBindings := gempty, ms_groupAgentRequests := gempty,
     ms_readMarks := gempty, ms_conversations := gempty, ms_channels := gempty,
     ms_inviteGrants := gempty, ms_posts := [], ms_postSettings := gempty, ms_comments := [],
     ms_contacts := gempty, ms_blocks := gempty, ms_groups := gempty, ms_calls := gempty,
     ms_favorites := gempty, ms_follows := gempty, ms_reactions := gempty, ms_members := gempty,
     ms_events := [], ms_eventSeq := gempty, ms_eventDedupe := gempty, ms_completionReceipts := gempty,
     ms_completionExecutions := gempty, ms_completionEventSeq := gempty, ms_reports := gempty,
     ms_operations := gempty\<rparr>"

text \<open>The zero value of the struct.\<close>

definition zero_portal :: portal_state where
  "zero_portal = \<lparr>ps_Initialized = False, ps_Password = [], ps_AccessToken = [], ps_MatrixDeviceID = [],
     ps_AgentToken = [], ps_OwnerMXID = [], ps_AgentRoomID = [], ps_SystemRoomID = [],
     ps_Profile = \<lparr>op_UserID = [], op_DisplayName = [], op_Domain = [], op_AvatarURL = [], op_Gender = [],
       op_Birthday = [], op_Phone = [], op_Email = []\<rparr>,
     ps_AgentConfig = \<lparr>ac_OnlineAgentIdentity = \<lparr>ai_DisplayName = [], ai_AvatarURL = []\<rparr>, ac_Enabled = False,
       ac_MCPBlockedRoomIDs = []\<rparr>,
     ps_ClientBuild = \<lparr>cb_Version = [], cb_BuildNumber = [], cb_Platform = [], cb_ReportedAt = []\<rparr>\<rparr>"

section \<open>Lemmas\<close>

definition marker_pos :: "read_marker \<Rightarrow> int \<times> int" where
  "marker_pos m = (rm_TopologicalPosition m, rm_StreamPosition m)"

lemma readMarkerPositionAfter_iff: "readMarkerPositionAfter a b \<longleftrightarrow> marker_pos b < marker_pos a"
  by (auto simp: readMarkerPositionAfter_def marker_pos_def less_prod_def')

interpretation marker_order: key_comparator markerLess rm_RoomID
  by unfold_locales (simp add: markerLess_def)

lemma GetReadMarker_Save:
  "GetReadMarker (SaveReadMarker m s) r =
     (if r = rm_RoomID m \<and> (case GetReadMarker s r of None \<Rightarrow> True | Some c \<Rightarrow> marker_pos c < marker_pos m)
      then Some m else GetReadMarker s r)"
  by (auto simp: GetReadMarker_def SaveReadMarker_def readMarkerPositionAfter_iff split: option.splits)

lemma keyed_SaveReadMarker:
  "keyed rm_RoomID (ms_readMarks s) \<Longrightarrow> keyed rm_RoomID (ms_readMarks (SaveReadMarker m s))"
  by (simp add: SaveReadMarker_def split: option.split)

definition marker_at :: "memory_store \<Rightarrow> string \<Rightarrow> (int \<times> int) option" where
  "marker_at s r = map_option marker_pos (GetReadMarker s r)"

lemma marker_at_Save:
  "marker_at (SaveReadMarker m s) r =
     (if r = rm_RoomID m
      then Some (case marker_at s r of None \<Rightarrow> marker_pos m | Some p \<Rightarrow> max p (marker_pos m))
      else marker_at s r)"
  by (auto simp: marker_at_def GetReadMarker_Save max_def split: option.splits)

section \<open>Properties\<close>

text \<open>Read markers only move forward, and their final position does not depend on the order in
  which the reports arrive: after any list of saves the position of a room is the largest of the stored
  one and those reported for the room.\<close>

theorem SaveReadMarker_max:
  "marker_at (fold SaveReadMarker ms s) r =
     (let ps = (case marker_at s r of None \<Rightarrow> [] | Some p \<Rightarrow> [p]) @
               map marker_pos (filter (\<lambda>m. rm_RoomID m = r) ms)
      in if ps = [] then None else Some (Max (set ps)))"
proof (induction ms arbitrary: s)
  case Nil
  then show ?case by (simp split: option.split)
next
  case (Cons m ms)
  have *: "Max (insert (max p q) A) = max p (Max (insert q A))" if "finite A" for p q :: "int \<times> int" and A
    using that by (cases "A = {}") (simp_all add: max.assoc)
  show ?case
    unfolding fold_simps Cons.IH marker_at_Save
    by (cases "marker_at s r"; cases "r = rm_RoomID m") (simp_all add: Let_def *)
qed

text \<open>A client build is accepted only from the portal's current device, and a portal write of the
  same device keeps it while a write of another device replaces it.\<close>

theorem client_build_device:
  assumes "SaveClientBuild dev build s = (ok, s')"
  shows "(ok \<longleftrightarrow> (\<exists>p. LoadPortal s = Some p \<and> ps_MatrixDeviceID p = dev)) \<and>
    (if ok then LoadPortal (SavePortal st s') =
        Some (if ps_MatrixDeviceID st = dev then st\<lparr>ps_ClientBuild := build\<rparr> else st)
     else s' = s)"
proof (cases "\<exists>p. ms_portal s = Some p \<and> ps_MatrixDeviceID p = dev")
  case True
  then obtain p where "ms_portal s = Some p" "ps_MatrixDeviceID p = dev" by blast
  with assms show ?thesis by (auto simp: SaveClientBuild_def SavePortal_def LoadPortal_def)
next
  case False
  with assms have "\<not> ok" "s' = s" by (auto simp: SaveClientBuild_def split: option.splits)
  with False show ?thesis by (simp add: LoadPortal_def)
qed

theorem client_build_device_witness:
  "let p = zero_portal\<lparr>ps_MatrixDeviceID := ''d''\<rparr>;
       b = \<lparr>cb_Version = ''1'', cb_BuildNumber = ''2'', cb_Platform = ''ios'', cb_ReportedAt = []\<rparr>;
       s = SavePortal p NewMemoryStore
   in \<exists>s'. SaveClientBuild ''d'' b s = (True, s') \<and>
        LoadPortal (SavePortal p s') = Some (p\<lparr>ps_ClientBuild := b\<rparr>)"
proof -
  define p where "p = zero_portal\<lparr>ps_MatrixDeviceID := ''d''\<rparr>"
  define b where "b = \<lparr>cb_Version = ''1'', cb_BuildNumber = ''2'', cb_Platform = ''ios'', cb_ReportedAt = []\<rparr>"
  define s where "s = SavePortal p NewMemoryStore"
  obtain ok s' where r: "SaveClientBuild ''d'' b s = (ok, s')" by (cases "SaveClientBuild ''d'' b s")
  have d: "ps_MatrixDeviceID p = ''d''" by (simp add: p_def)
  have "LoadPortal s = Some p" by (simp add: s_def SavePortal_def LoadPortal_def NewMemoryStore_def)
  with client_build_device [OF r, of p] r d have
    "SaveClientBuild ''d'' b s = (True, s') \<and> LoadPortal (SavePortal p s') = Some (p\<lparr>ps_ClientBuild := b\<rparr>)"
    by (auto split: if_splits)
  then show ?thesis unfolding Let_def p_def b_def s_def by blast
qed

text \<open>\<open>ResetAccountState\<close> empties every table except the plugin tables, which the source keeps on
  purpose, and the group agent schedules, which it does not mention: the schedules of the deleted account
  stay in the store.\<close>

theorem ResetAccountState_keeps:
  "ResetAccountState s = NewMemoryStore\<lparr>
     ms_plugins := ms_plugins s, ms_pluginJobs := ms_pluginJobs s, ms_pluginSecrets := ms_pluginSecrets s,
     ms_groupAgentSchedules := ms_groupAgentSchedules s\<rparr>"
  by (simp add: ResetAccountState_def NewMemoryStore_def)

text \<open>The listed read markers do not depend on the iteration order of the map and are in strictly
  ascending order of their rooms.\<close>

theorem ListReadMarkers_deterministic:
  assumes "keyed rm_RoomID (ms_readMarks s)" and "keyed rm_RoomID (ms_readMarks t)"
    and "GetReadMarker s = GetReadMarker t"
  shows "ListReadMarkers s = ListReadMarkers t \<and> sorted_wrt markerLess (ListReadMarkers s)"
proof -
  have "gget (ms_readMarks s) = gget (ms_readMarks t)"
    using assms(3) by (auto simp: fun_eq_iff GetReadMarker_def)
  then have m: "mset (gvals (ms_readMarks s)) = mset (gvals (ms_readMarks t))"
    using assms(1,2) by (intro gvals_unique) (auto dest: keyed_gmap_ok)
  show ?thesis
    unfolding ListReadMarkers_def
    using marker_order.go_sort_order_independent [OF m keyed_distinct [OF assms(1)]]
      marker_order.sorted_strict [OF keyed_distinct [OF assms(1)]] by blast
qed

theorem ListReadMarkers_deterministic_witness:
  "let a = \<lparr>rm_RoomID = ''a'', rm_EventID = [], rm_OriginServerTS = 0, rm_TopologicalPosition = 1, rm_StreamPosition = 1\<rparr>;
       b = a\<lparr>rm_RoomID := ''b''\<rparr>
   in ListReadMarkers (SaveReadMarker a (SaveReadMarker b NewMemoryStore)) =
      ListReadMarkers (SaveReadMarker b (SaveReadMarker a NewMemoryStore))"
proof -
  define a where "a = \<lparr>rm_RoomID = ''a'', rm_EventID = [], rm_OriginServerTS = 0,
    rm_TopologicalPosition = 1, rm_StreamPosition = 1\<rparr>"
  define b where "b = a\<lparr>rm_RoomID := ''b''\<rparr>"
  have k: "keyed rm_RoomID (ms_readMarks NewMemoryStore)" by (simp add: NewMemoryStore_def)
  have "rm_RoomID a \<noteq> rm_RoomID b" by (simp add: a_def b_def)
  then have "GetReadMarker (SaveReadMarker a (SaveReadMarker b NewMemoryStore)) =
      GetReadMarker (SaveReadMarker b (SaveReadMarker a NewMemoryStore))"
    by (auto simp: fun_eq_iff GetReadMarker_Save)
  from ListReadMarkers_deterministic [OF _ _ this] k show ?thesis
    unfolding Let_def a_def b_def by (simp add: keyed_SaveReadMarker)
qed

end
