(* ===== verification/Store_Invariant.thy ===== *)
theory Store_Invariant
  imports Store_Tables Store_Contacts Store_Content Store_Events Store_Operations Store_GroupAgent Store_Portal
begin

text \<open>
  The invariant of the whole store and its preservation by every method that writes.  \<open>store_step\<close> has
  one rule per writing method of \<open>MemoryStore\<close>, so a run of the store is a sequence of its steps; every
  store reached from the empty one is well formed.  The contact swaps carry the obligation of their
  callers that the new row is for the peer of the expected one, the contact projection that the room id
  is trimmed, and the request mutator that its callback settles requests.
\<close>

definition tables_ok :: "memory_store \<Rightarrow> bool" where
  "tables_ok s \<longleftrightarrow>
     keyed ch_ChannelID (ms_channels s) \<and> keyed ig_GrantID (ms_inviteGrants s) \<and>
     keyed gr_RoomID (ms_groups s) \<and> keyed ca_CallID (ms_calls s) \<and>
     keyed block_row_key (ms_blocks s) \<and> keyed fv_ID (ms_favorites s) \<and>
     keyed fo_Domain (ms_follows s) \<and> keyed reaction_row_key (ms_reactions s) \<and>
     keyed rp_ReportID (ms_reports s) \<and> keyed pl_ID (ms_plugins s) \<and>
     keyed pj_JobID (ms_pluginJobs s) \<and> keyed rm_RoomID (ms_readMarks s)"

definition store_wf :: "memory_store \<Rightarrow> bool" where
  "store_wf s \<longleftrightarrow> tables_ok s \<and> members_ok s \<and> conversations_ok s \<and> one_kind s \<and> contacts_ok s \<and>
     one_row_per_peer s \<and> content_ok s \<and> events_ok s \<and> operations_ok s \<and> agent_queue_ok s"

lemmas wf_parts = tables_ok_def members_ok_def conversations_ok_def one_kind_def contacts_ok_def
  one_row_per_peer_def content_ok_def events_ok_def operations_ok_def agent_queue_ok_def
  binding_of_def pending_count_def

text \<open>The writes of the tables whose only invariant is their key.\<close>

inductive table_step :: "memory_store \<Rightarrow> memory_store \<Rightarrow> bool" where
  "table_step s (UpsertChannel ch s)"
| "table_step s (DeleteChannel i s)"
| "table_step s (UpsertChannelInviteGrant g s)"
| "table_step s (UpsertGroup gr s)"
| "table_step s (DeleteGroup i s)"
| "table_step s (UpsertCall ca s)"
| "table_step s (UpsertBlock bl s)"
| "table_step s (snd (DeleteBlock ty i s))"
| "table_step s (UpsertFavorite fv s)"
| "table_step s (DeleteFavorite n s)"
| "table_step s (UpsertFollow fo s)"
| "table_step s (DeleteFollow i s)"
| "table_step s (UpsertReaction re s)"
| "table_step s (snd (DeactivateReactionByEventID i s))"
| "table_step s (InsertReport rp s)"
| "table_step s (UpsertPlugin pl s)"
| "table_step s (UpsertPluginJob pj s)"
| "table_step s (UpsertPluginSecret pk s)"
| "table_step s (SavePortal ps s)"
| "table_step s (snd (SaveClientBuild i cb s))"
| "table_step s (SaveReadMarker rm s)"
| "table_step s (UpsertGroupAgentSchedule gs s)"
| "table_step s (RemoveGroupAgentSchedule i j s)"

inductive store_step :: "memory_store \<Rightarrow> memory_store \<Rightarrow> bool" where
  step_table: "table_step s s' \<Longrightarrow> store_step s s'"
| step_event: "event_step s s' \<Longrightarrow> store_step s s'"
| step_agent: "agent_step s s' \<Longrightarrow> store_step s s'"
| step_member: "store_step s (UpsertMember m s)"
| step_member_insert: "store_step s (snd (InsertMemberIfAbsent m s))"
| step_member_swap: "store_step s (snd (CompareAndSwapMemberGeneration m i j s))"
| step_conversation: "UpsertConversation now cv s = Inr s' \<Longrightarrow> store_step s s'"
| step_creator: "SetConversationCreator i j s = Inr s' \<Longrightarrow> store_step s s'"
| step_conversation_del: "store_step s (DeleteConversationByRoomID i s)"
| step_contact: "store_step s (UpsertContact c s)"
| step_contact_swap: "ct_PeerMXID c = ct_PeerMXID e \<Longrightarrow> store_step s (snd (CompareAndSwapContact c e s))"
| step_projection: "ct_PeerMXID c = ct_PeerMXID e \<Longrightarrow> go_trim (ct_RoomID c) = ct_RoomID c \<Longrightarrow>
   CompareAndSwapContactProjection now c e s = Inr (b, s') \<Longrightarrow> store_step s s'"
| step_post: "store_step s (InsertChannelPost p s)"
| step_settings: "store_step s (ApplyChannelPostSettings st s)"
| step_comment: "store_step s (InsertChannelComment cm s)"
| step_post_del: "store_step s (snd (DeleteChannelPost i s))"
| step_comment_del: "store_step s (snd (DeleteChannelComment i s))"
| step_operation: "store_step s (UpsertOperation oq s)"
| step_claim: "store_step s (snd (ClaimOperation now oq owner d s))"
| step_operation_swap: "store_step s (snd (CompareAndSwapOperation now now' oq rv owner d s))"
| step_reset: "store_step s (ResetAccountState s)"

section \<open>Frames\<close>

text \<open>Each group of methods writes its own fields; the parts about the other fields are untouched.\<close>

lemma wf_tables:
  assumes "store_wf s" and "tables_ok s'"
    and "ms_members s' = ms_members s" and "ms_conversations s' = ms_conversations s"
    and "ms_contacts s' = ms_contacts s" and "ms_posts s' = ms_posts s" and "ms_comments s' = ms_comments s"
    and "ms_postSettings s' = ms_postSettings s" and "ms_events s' = ms_events s"
    and "ms_eventSeq s' = ms_eventSeq s" and "ms_eventDedupe s' = ms_eventDedupe s"
    and "ms_operations s' = ms_operations s" and "ms_groupAgentBindings s' = ms_groupAgentBindings s"
    and "ms_groupAgentRequests s' = ms_groupAgentRequests s"
  shows "store_wf s'"
  using assms(1,2) unfolding store_wf_def wf_parts(2-) assms(3-) by blast

lemma wf_members:
  "store_wf s \<Longrightarrow> members_ok (s\<lparr>ms_members := x\<rparr>) \<Longrightarrow> store_wf (s\<lparr>ms_members := x\<rparr>)"
  by (simp add: store_wf_def wf_parts)

lemma wf_conversations:
  "store_wf s \<Longrightarrow> conversations_ok (s\<lparr>ms_conversations := x\<rparr>) \<Longrightarrow> one_kind (s\<lparr>ms_conversations := x\<rparr>) \<Longrightarrow>
   store_wf (s\<lparr>ms_conversations := x\<rparr>)"
  by (simp add: store_wf_def wf_parts)

lemma wf_contacts:
  "store_wf s \<Longrightarrow> contacts_ok (s\<lparr>ms_contacts := x\<rparr>) \<Longrightarrow> one_row_per_peer (s\<lparr>ms_contacts := x\<rparr>) \<Longrightarrow>
   store_wf (s\<lparr>ms_contacts := x\<rparr>)"
  by (simp add: store_wf_def wf_parts)

lemma wf_content:
  assumes "store_wf s" and "content_ok s'"
    and "s' = s\<lparr>ms_posts := ms_posts s', ms_postSettings := ms_postSettings s', ms_comments := ms_comments s'\<rparr>"
  shows "store_wf s'"
proof -
  have "content_ok (s\<lparr>ms_posts := x, ms_postSettings := y, ms_comments := z\<rparr>) \<Longrightarrow>
      store_wf (s\<lparr>ms_posts := x, ms_postSettings := y, ms_comments := z\<rparr>)" for x y z
    using assms(1) by (simp add: store_wf_def wf_parts)
  with assms(2,3) show ?thesis by metis
qed

lemma wf_events:
  assumes "store_wf s" and "events_ok s'"
    and "s' = s\<lparr>ms_events := ms_events s', ms_eventSeq := ms_eventSeq s', ms_eventDedupe := ms_eventDedupe s',
           ms_completionReceipts := ms_completionReceipts s', ms_completionExecutions := ms_completionExecutions s',
           ms_completionEventSeq := ms_completionEventSeq s'\<rparr>"
  shows "store_wf s'"
proof -
  have "events_ok (s\<lparr>ms_events := a, ms_eventSeq := b, ms_eventDedupe := c, ms_completionReceipts := d,
        ms_completionExecutions := e, ms_completionEventSeq := f\<rparr>) \<Longrightarrow>
      store_wf (s\<lparr>ms_events := a, ms_eventSeq := b, ms_eventDedupe := c, ms_completionReceipts := d,
        ms_completionExecutions := e, ms_completionEventSeq := f\<rparr>)" for a b c d e f
    using assms(1) by (simp add: store_wf_def wf_parts)
  with assms(2,3) show ?thesis by metis
qed

lemma wf_operations:
  "store_wf s \<Longrightarrow> operations_ok (s\<lparr>ms_operations := x\<rparr>) \<Longrightarrow> store_wf (s\<lparr>ms_operations := x\<rparr>)"
  by (simp add: store_wf_def wf_parts)

lemma wf_agent:
  assumes "store_wf s" and "agent_queue_ok s'"
    and "s' = s\<lparr>ms_groupAgentBindings := ms_groupAgentBindings s', ms_groupAgentRequests := ms_groupAgentRequests s'\<rparr>"
  shows "store_wf s'"
proof -
  have "agent_queue_ok (s\<lparr>ms_groupAgentBindings := x, ms_groupAgentRequests := y\<rparr>) \<Longrightarrow>
      store_wf (s\<lparr>ms_groupAgentBindings := x, ms_groupAgentRequests := y\<rparr>)" for x y
    using assms(1) by (simp add: store_wf_def wf_parts)
  with assms(2,3) show ?thesis by metis
qed

lemma wf_projection:
  assumes "store_wf s" and "contacts_ok s'" and "one_row_per_peer s'" and "conversations_ok s'" and "one_kind s'"
    and "s' = s\<lparr>ms_contacts := ms_contacts s', ms_groups := gdel r (ms_groups s), ms_conversations := ms_conversations s'\<rparr>"
  shows "store_wf s'"
proof -
  have "contacts_ok t \<Longrightarrow> one_row_per_peer t \<Longrightarrow> conversations_ok t \<Longrightarrow> one_kind t \<Longrightarrow> store_wf t"
    if "t = s\<lparr>ms_contacts := x, ms_groups := gdel r (ms_groups s), ms_conversations := y\<rparr>" for x y t
    unfolding that using assms(1) by (simp add: store_wf_def wf_parts)
  with assms(2-6) show ?thesis by metis
qed

section \<open>Preservation\<close>

lemmas table_writes = UpsertChannel_def DeleteChannel_def UpsertChannelInviteGrant_def UpsertGroup_def
  DeleteGroup_def UpsertCall_def UpsertBlock_def DeleteBlock_def UpsertFavorite_def DeleteFavorite_def
  UpsertFollow_def DeleteFollow_def UpsertReaction_def DeactivateReactionByEventID_def InsertReport_def
  UpsertPlugin_def UpsertPluginJob_def UpsertPluginSecret_def SavePortal_def SaveClientBuild_def
  SaveReadMarker_def UpsertGroupAgentSchedule_def RemoveGroupAgentSchedule_def

lemma table_step_frame:
  assumes "table_step s s'"
  shows "ms_members s' = ms_members s \<and> ms_conversations s' = ms_conversations s \<and>
    ms_contacts s' = ms_contacts s \<and> ms_posts s' = ms_posts s \<and> ms_comments s' = ms_comments s \<and>
    ms_postSettings s' = ms_postSettings s \<and> ms_events s' = ms_events s \<and> ms_eventSeq s' = ms_eventSeq s \<and>
    ms_eventDedupe s' = ms_eventDedupe s \<and> ms_operations s' = ms_operations s \<and>
    ms_groupAgentBindings s' = ms_groupAgentBindings s \<and> ms_groupAgentRequests s' = ms_groupAgentRequests s"
  using assms
  by (induction rule: table_step.induct)
    (simp_all add: table_writes Let_def split_def split: option.splits)

lemma keyed_DeactivateReaction:
  assumes "keyed reaction_row_key (ms_reactions s)"
  shows "keyed reaction_row_key (ms_reactions (snd (DeactivateReactionByEventID i s)))"
proof (cases "gfind (\<lambda>_ r. re_EventID r = i \<and> re_Active r) (ms_reactions s)")
  case None
  with assms show ?thesis by (simp add: DeactivateReactionByEventID_def)
next
  case (Some kr)
  obtain k r where kr: "kr = (k, r)" by (cases kr)
  with Some have "gget (ms_reactions s) k = Some r"
    using gfind_gget [OF keyed_gmap_ok [OF assms]] by blast
  then have "k = reaction_row_key (r\<lparr>re_Active := False\<rparr>)"
    using keyed_key [OF assms] by (auto simp: reaction_row_key_def)
  with Some kr assms show ?thesis by (simp add: DeactivateReactionByEventID_def)
qed

lemma table_step_ok: "table_step s s' \<Longrightarrow> tables_ok s \<Longrightarrow> tables_ok s'"
proof (induction rule: table_step.induct)
  case (14 s i)
  then show ?case using keyed_DeactivateReaction [of s i]
    by (auto simp: DeactivateReactionByEventID_def tables_ok_def split: option.splits)
next
  case (21 s rm)
  then show ?case using keyed_SaveReadMarker [of s rm] by (simp add: tables_ok_def SaveReadMarker_def)
qed (simp_all add: table_writes tables_ok_def Let_def block_row_key_def reaction_row_key_def
      split: option.splits)

lemma table_step_wf:
  assumes "table_step s s'" and "store_wf s"
  shows "store_wf s'"
proof -
  have "tables_ok s'" using table_step_ok [OF assms(1)] assms(2) by (simp add: store_wf_def)
  then show ?thesis using table_step_frame [OF assms(1)] by (intro wf_tables [OF assms(2)]) simp_all
qed

lemma event_step_frame:
  assumes "event_step s s'"
  shows "s' = s\<lparr>ms_events := ms_events s', ms_eventSeq := ms_eventSeq s', ms_eventDedupe := ms_eventDedupe s',
           ms_completionReceipts := ms_completionReceipts s', ms_completionExecutions := ms_completionExecutions s',
           ms_completionEventSeq := ms_completionEventSeq s'\<rparr>"
  using assms
proof cases
  case (step_insert e b)
  then show ?thesis by (auto simp: InsertEvent_def split: if_splits)
next
  case (step_prune b n)
  then show ?thesis by (auto simp: PruneEventsBefore_def split: if_splits prod.splits)
next
  case (step_rows m n)
  then show ?thesis
    by (auto simp: PruneEventsToMaxRows_def rebuildEventIndexesLocked_def Let_def split: if_splits prod.splits)
next
  case (step_complete r e b q err)
  then show ?thesis
    by (cases b) (use completion_cases [OF step_complete] in \<open>auto\<close>)
qed

lemma agent_step_frame:
  assumes "agent_step s s'"
  shows "s' = s\<lparr>ms_groupAgentBindings := ms_groupAgentBindings s', ms_groupAgentRequests := ms_groupAgentRequests s'\<rparr>"
  using assms
proof cases
  case (step_binding room f)
  then show ?thesis
    by (auto simp: MutateGroupAgentBinding_def cancel_if_def Let_def split: sum.splits if_splits)
next
  case (step_enqueue r b)
  then show ?thesis
    by (auto simp: EnqueueGroupAgentRequest_def Let_def split: sum.splits option.splits if_splits)
next
  case (step_settle f i)
  then show ?thesis
    by (auto simp: MutateGroupAgentRequest_def split: sum.splits option.splits)
next
  case (step_cancel room sender event)
  then show ?thesis by (simp add: CancelGroupAgentRequests_def cancel_if_def)
qed

lemma members_step_wf:
  assumes "store_wf s"
  shows "store_wf (UpsertMember m s)" "store_wf (snd (InsertMemberIfAbsent m s))"
    "store_wf (snd (CompareAndSwapMemberGeneration m i j s))"
proof -
  have m: "members_ok s" using assms by (simp add: store_wf_def)
  show "store_wf (UpsertMember m s)"
    using members_ok_UpsertMember [OF m, of m] wf_members [OF assms] by (simp add: UpsertMember_def Let_def)
  show "store_wf (snd (InsertMemberIfAbsent m s))"
    using members_ok_InsertMemberIfAbsent [OF m, of m] wf_members [OF assms] assms
    by (auto simp: InsertMemberIfAbsent_def Let_def split: if_splits)
  show "store_wf (snd (CompareAndSwapMemberGeneration m i j s))"
    using members_ok_CompareAndSwap [OF m, of m i j] wf_members [OF assms] assms
    by (auto simp: CompareAndSwapMemberGeneration_def Let_def split: if_splits option.splits)
qed

lemma content_step_wf:
  assumes "store_wf s"
  shows "store_wf (InsertChannelPost p s)" "store_wf (ApplyChannelPostSettings st s)"
    "store_wf (InsertChannelComment cm s)" "store_wf (snd (DeleteChannelPost i s))"
    "store_wf (snd (DeleteChannelComment i s))"
proof -
  have c: "content_ok s" using assms by (simp add: store_wf_def)
  show "store_wf (InsertChannelPost p s)"
    by (rule wf_content [OF assms content_ok_InsertChannelPost [OF c]]) (simp add: InsertChannelPost_def Let_def)
  show "store_wf (ApplyChannelPostSettings st s)"
    by (rule wf_content [OF assms content_ok_ApplySettings [OF c]]) (simp add: ApplyChannelPostSettings_def Let_def)
  show "store_wf (InsertChannelComment cm s)"
    by (rule wf_content [OF assms content_ok_InsertChannelComment [OF c]]) (simp add: InsertChannelComment_def Let_def)
  show "store_wf (snd (DeleteChannelPost i s))"
    by (rule wf_content [OF assms]) (use c in \<open>simp_all add: DeleteChannelPost_def Let_def content_ok_def distinct_map_filter\<close>)
  show "store_wf (snd (DeleteChannelComment i s))"
    by (rule wf_content [OF assms]) (use c in \<open>simp_all add: DeleteChannelComment_def Let_def content_ok_def distinct_map_filter\<close>)
qed

lemma operations_step_wf:
  assumes "store_wf s"
  shows "store_wf (UpsertOperation oq s)" "store_wf (snd (ClaimOperation now oq owner d s))"
    "store_wf (snd (CompareAndSwapOperation now now' oq rv owner d s))"
proof -
  have o: "operations_ok s" using assms by (simp add: store_wf_def)
  have "store_wf s'" if "operations_ok s'" "s' = s\<lparr>ms_operations := ms_operations s'\<rparr>" for s'
    using wf_operations [OF assms, of "ms_operations s'"] that by metis
  note wf = this
  show "store_wf (UpsertOperation oq s)"
    by (rule wf [OF operations_ok_Upsert [OF o]]) (simp add: UpsertOperation_def Let_def)
  show "store_wf (snd (ClaimOperation now oq owner d s))"
    by (rule wf [OF operations_ok_Claim [OF o]]) (simp add: ClaimOperation_def Let_def split: option.splits)
  show "store_wf (snd (CompareAndSwapOperation now now' oq rv owner d s))"
    by (rule wf [OF operations_ok_CAS [OF o]])
      (simp add: CompareAndSwapOperation_def Let_def split: option.splits)
qed

lemma conversations_step_wf:
  assumes "store_wf s"
  shows "UpsertConversation now cv s = Inr s' \<Longrightarrow> store_wf s'"
    "SetConversationCreator i j s = Inr s' \<Longrightarrow> store_wf s'"
    "store_wf (DeleteConversationByRoomID i s)"
proof -
  have c: "conversations_ok s" "one_kind s" using assms by (simp_all add: store_wf_def)
  have wf: "store_wf s'" if "conversations_ok s'" "one_kind s'" "s' = s\<lparr>ms_conversations := x\<rparr>" for s' x
    using wf_conversations [OF assms, of x] that by metis
  show "store_wf s'" if u: "UpsertConversation now cv s = Inr s'"
  proof -
    let ?n = "NormalizeConversationRecord now cv"
    have s': "s' = put_conversation ?n s"
      and free: "\<And>i e. gget (ms_conversations s) i = Some e \<Longrightarrow>
        cv_MatrixRoomID e = cv_MatrixRoomID ?n \<Longrightarrow> cv_Kind e = cv_Kind ?n"
      using u c(1) by (auto simp: UpsertConversation_def Let_def conversations_ok_def
          gfind_None [OF keyed_gmap_ok] split: option.splits)
    show ?thesis
      unfolding s' using put_conversation_row [of ?n s]
      by (elim exE conjE) (rule wf [OF conversations_ok_put [OF c(1)] one_kind_put [OF c free]])
  qed
  show "store_wf s'" if "SetConversationCreator i j s = Inr s'"
    by (rule SetCreator_row [OF c(1) that])
      (rule wf [OF conversations_ok_SetCreator [OF c(1) that] one_kind_SetCreator [OF c that]])
  show "store_wf (DeleteConversationByRoomID i s)"
    using wf [OF conversations_ok_Delete [OF c(1)]] one_kind_shrink [OF c]
    by (simp add: DeleteConversationByRoomID_def)
qed

lemma contacts_step_wf:
  assumes "store_wf s"
  shows "store_wf (UpsertContact c s)"
    "ct_PeerMXID c = ct_PeerMXID e \<Longrightarrow> store_wf (snd (CompareAndSwapContact c e s))"
proof -
  have c: "contacts_ok s" "one_row_per_peer s" using assms by (simp_all add: store_wf_def)
  have wf: "store_wf s'" if "contacts_ok s'" "one_row_per_peer s'" "s' = s\<lparr>ms_contacts := ms_contacts s'\<rparr>" for s'
    using wf_contacts [OF assms, of "ms_contacts s'"] that by metis
  show "store_wf (UpsertContact c s)"
    by (rule wf [OF contacts_ok_UpsertContact [OF c(1)] one_row_per_peer_UpsertContact [OF c]])
      (simp add: UpsertContact_def Let_def)
  show "store_wf (snd (CompareAndSwapContact c e s))" if "ct_PeerMXID c = ct_PeerMXID e"
  proof (cases "expected_contact e s")
    case (Some k)
    then show ?thesis
      using wf [OF contacts_ok_replace [OF c(1)] one_row_per_peer_replace [OF c Some that]]
      by (simp add: CompareAndSwapContact_def) (simp add: replace_contact_def)
  qed (use assms in \<open>simp add: CompareAndSwapContact_def\<close>)
qed

lemma projection_step_wf:
  assumes "store_wf s" and "ct_PeerMXID c = ct_PeerMXID e" and "go_trim (ct_RoomID c) = ct_RoomID c"
    and "CompareAndSwapContactProjection now c e s = Inr (b, s')"
  shows "store_wf s'"
proof (cases "expected_contact e s")
  case None
  with assms(1,4) show ?thesis
    by (auto simp: CompareAndSwapContactProjection_def Let_def split: option.splits)
next
  case (Some k)
  let ?n = "NormalizeConversationRecord now (ConversationFromContact c)"
  define t where "t = s\<lparr>ms_contacts := gput (ct_RoomID c) c (gdel k (ms_contacts s)),
      ms_groups := gdel (ct_RoomID c) (ms_groups s),
      ms_conversations := gkeep (\<lambda>_ v. \<not> projection_drops c v) (ms_conversations s)\<rparr>"
  have s': "s' = put_conversation ?n t"
    using assms(4) Some
    by (auto simp: CompareAndSwapContactProjection_def Let_def replace_contact_def t_def split: option.splits)
  have n: "cv_MatrixRoomID ?n = ct_RoomID c" "cv_Kind ?n = ''direct''"
    using assms(3) by (simp_all add: ConversationFromContact_def zero_conversation_def)
  have c: "contacts_ok s" "one_row_per_peer s" "conversations_ok s" "one_kind s"
    using assms(1) by (simp_all add: store_wf_def)
  have t: "contacts_ok t" "one_row_per_peer t"
    using contacts_ok_replace [OF c(1), of k c] one_row_per_peer_replace [OF c(1,2) Some assms(2)]
    by (simp_all add: contacts_ok_def one_row_per_peer_def replace_contact_def t_def)
  have v: "conversations_ok t" "one_kind t"
    using c(3) one_kind_shrink [OF c(3,4), of "\<lambda>_ v. \<not> projection_drops c v"]
    by (simp_all add: conversations_ok_def one_kind_def t_def)
  have direct: "cv_Kind v = cv_Kind ?n"
    if "gget (ms_conversations t) i = Some v" "cv_MatrixRoomID v = cv_MatrixRoomID ?n" for i v
    using that n c(3) by (auto simp: t_def gget_gkeep conversations_ok_def keyed_gmap_ok projection_drops_def
        split: option.splits if_splits)
  obtain r where r: "s' = t\<lparr>ms_conversations := gput (cv_ConversationID ?n) r (ms_conversations t)\<rparr>"
    unfolding s' using put_conversation_row [of ?n t] by blast
  have "contacts_ok s'" "one_row_per_peer s'"
    using t by (simp_all add: r contacts_ok_def one_row_per_peer_def)
  moreover have "conversations_ok s'" "one_kind s'"
    unfolding s' by (rule conversations_ok_put [OF v(1)], rule one_kind_put [OF v direct])
  moreover have "s' = s\<lparr>ms_contacts := ms_contacts s', ms_groups := gdel (ct_RoomID c) (ms_groups s),
      ms_conversations := ms_conversations s'\<rparr>"
    unfolding r t_def by simp
  ultimately show ?thesis by (rule wf_projection [OF assms(1)])
qed

lemma store_wf_cleared:
  assumes "ms_channels s = gempty" "ms_inviteGrants s = gempty" "ms_groups s = gempty" "ms_calls s = gempty"
    "ms_blocks s = gempty" "ms_favorites s = gempty" "ms_follows s = gempty" "ms_reactions s = gempty"
    "ms_reports s = gempty" "keyed pl_ID (ms_plugins s)" "keyed pj_JobID (ms_pluginJobs s)" "ms_readMarks s = gempty"
    "ms_members s = gempty" "ms_conversations s = gempty" "ms_contacts s = gempty" "ms_posts s = []"
    "ms_comments s = []" "ms_postSettings s = gempty" "ms_events s = []" "ms_eventSeq s = gempty"
    "ms_eventDedupe s = gempty" "ms_operations s = gempty" "ms_groupAgentBindings s = gempty"
    "ms_groupAgentRequests s = gempty"
  shows "store_wf s"
proof -
  have agree: "rows_agree P (gempty :: (string, 'v) gomap)" for P :: "'v \<Rightarrow> 'v \<Rightarrow> bool"
    by (simp add: rows_agree_def gvals_def gempty_def)
  have "events_ok s"
    using events_ok_new by (simp only: events_ok_def NewMemoryStore_def memory_store.select_convs assms)
  moreover have "members_ok s" "content_ok s" "operations_ok s"
    using members_ok_new content_ok_new operations_ok_new
    by (simp_all only: members_ok_def content_ok_def operations_ok_def NewMemoryStore_def
        memory_store.select_convs assms)
  moreover have "agent_queue_ok s"
    using agent_queue_new
    by (simp only: agent_queue_ok_def pending_count_def binding_of_def NewMemoryStore_def
        memory_store.select_convs assms)
  moreover have "conversations_ok s" "contacts_ok s" "one_kind s" "one_row_per_peer s" "tables_ok s"
    by (simp_all add: conversations_ok_def contacts_ok_def one_kind_def one_row_per_peer_def tables_ok_def
        assms agree)
  ultimately show ?thesis by (simp add: store_wf_def)
qed

lemma store_wf_new: "store_wf NewMemoryStore"
  by (rule store_wf_cleared) (simp_all add: NewMemoryStore_def)

lemma store_wf_reset: "store_wf s \<Longrightarrow> store_wf (ResetAccountState s)"
  by (rule store_wf_cleared) (simp_all add: ResetAccountState_def store_wf_def tables_ok_def)

lemma store_step_wf: "store_step s s' \<Longrightarrow> store_wf s \<Longrightarrow> store_wf s'"
proof (induction rule: store_step.induct)
  case (step_event s s')
  then show ?case
    by (intro wf_events [OF step_event(2) event_step_ok [OF step_event(1)] event_step_frame [OF step_event(1)]])
      (simp add: store_wf_def)
next
  case (step_agent s s')
  then show ?case
    by (intro wf_agent [OF step_agent(2) agent_step_ok [OF step_agent(1)] agent_step_frame [OF step_agent(1)]])
      (simp add: store_wf_def)
qed ((erule members_step_wf content_step_wf operations_step_wf conversations_step_wf(3) contacts_step_wf(1)
        store_wf_reset) |
      (erule conversations_step_wf(1,2) contacts_step_wf(2) projection_step_wf, assumption+) |
      (erule(1) table_step_wf))+

section \<open>Properties\<close>



end
