(* ===== verification/Operation_Tracker.thy ===== *)
theory Operation_Tracker
  imports Store_Operations
begin

text \<open>
  The claimant's view of a leased operation, \<open>p2p/internal/operations/tracker.go\<close>, verified once
  against the contract \<open>operation_store\<close> and instantiated with the in-memory store.  A tracker that
  is in sync with the store stays so as long as its calls succeed, and a call that fails changes
  neither side.  The heartbeat reads and writes in two separate critical sections; the last theorem
  shows what an update between them loses.
\<close>

section \<open>The tracker\<close>

record tracker =
  tk_owner :: string
  tk_record :: operation_record
  tk_leaseDurationMillis :: int

definition NewTracker :: "string \<Rightarrow> operation_record \<Rightarrow> int \<Rightarrow> tracker" where
  "NewTracker owner record d = \<lparr>tk_owner = owner, tk_record = record, tk_leaseDurationMillis = d\<rparr>"

definition Snapshot :: "tracker \<Rightarrow> operation_record" where
  "Snapshot t = tk_record t"

type_synonym 's cas_op =
  "int \<Rightarrow> int \<Rightarrow> operation_record \<Rightarrow> int \<Rightarrow> string \<Rightarrow> int \<Rightarrow> 's \<Rightarrow> (operation_record \<times> bool) \<times> 's"

text \<open>
  \<open>cas\<close> is the store's guarded write.  The clock is read for \<open>UpdatedAt\<close> and twice by the store.  The
  result is whether the call succeeds, with the new tracker and the new store.
\<close>

definition Tracker_Update ::
  "'s cas_op \<Rightarrow> int \<times> int \<times> int \<Rightarrow> string \<Rightarrow> string \<Rightarrow> string \<Rightarrow> string \<Rightarrow> string \<Rightarrow> tracker \<times> 's \<Rightarrow> bool \<times> tracker \<times> 's" where
  "Tracker_Update cas clock status phase currentRoomID errorCode resultJSON = (\<lambda>(t, s).
     let (now, now1, now2) = clock;
         record = tk_record t;
         record = (if status \<noteq> [] then record\<lparr>oq_Status := status\<rparr> else record);
         record = (if phase \<noteq> [] then record\<lparr>oq_Phase := phase\<rparr> else record);
         record = (if currentRoomID \<noteq> [] then record\<lparr>oq_CurrentRoomID := currentRoomID\<rparr> else record);
         record = record\<lparr>oq_ErrorCode := errorCode, oq_ResultJSON := resultJSON, oq_UpdatedAt := now\<rparr>;
         ((updated, ok), s') = cas now1 now2 record (oq_Revision (tk_record t)) (tk_owner t)
                                 (tk_leaseDurationMillis t) s
     in if ok then (True, t\<lparr>tk_record := updated\<rparr>, s') else (False, t, s'))"

text \<open>\<open>Heartbeat\<close> reads a snapshot and writes it back as an update; the mutex is released in between,
  so \<open>snap\<close> is the record at the time of the first step.\<close>

definition Heartbeat_write :: "'s cas_op \<Rightarrow> int \<times> int \<times> int \<Rightarrow> operation_record \<Rightarrow> tracker \<times> 's \<Rightarrow> bool \<times> tracker \<times> 's" where
  "Heartbeat_write cas clock snap =
     Tracker_Update cas clock (oq_Status snap) (oq_Phase snap) (oq_CurrentRoomID snap) (oq_ErrorCode snap)
       (oq_ResultJSON snap)"

definition Tracker_Release :: "'s cas_op \<Rightarrow> int \<times> int \<times> int \<Rightarrow> tracker \<times> 's \<Rightarrow> bool \<times> tracker \<times> 's" where
  "Tracker_Release cas clock = (\<lambda>(t, s).
     if oq_LeaseOwner (tk_record t) = [] then (True, t, s)
     else let (now, now1, now2) = clock;
              record = (tk_record t)\<lparr>oq_LeaseOwner := [], oq_LeaseUntil := 0, oq_UpdatedAt := now\<rparr>;
              ((updated, ok), s') = cas now1 now2 record (oq_Revision (tk_record t)) (tk_owner t) 0 s
          in if ok then (True, t\<lparr>tk_record := updated\<rparr>, s') else (False, t, s'))"

text \<open>The tracker holds the stored record.\<close>

definition in_sync :: "('s \<Rightarrow> string \<Rightarrow> operation_record option) \<Rightarrow> tracker \<Rightarrow> 's \<Rightarrow> bool" where
  "in_sync look t s \<longleftrightarrow> look s (oq_OperationID (tk_record t)) = Some (tk_record t)"

section \<open>Correctness against the contract\<close>

lemma swapped_fields:
  "oq_Status (swapped_operation now r n d) = oq_Status r"
  "oq_Phase (swapped_operation now r n d) = oq_Phase r"
  "oq_ErrorCode (swapped_operation now r n d) = oq_ErrorCode r"
  "oq_ResultJSON (swapped_operation now r n d) = oq_ResultJSON r"
  by (simp_all add: swapped_operation_def Let_def)

context operation_store
begin

lemma update_result:
  assumes "Tracker_Update cas clock st ph room err js (t, s) = (ok, t', s')"
  shows "ok \<longleftrightarrow> holds_lease (fst (snd clock)) (tk_owner t) (oq_Revision (tk_record t))
                  (look s (oq_OperationID (tk_record t)))"
    and "\<not> ok \<Longrightarrow> t' = t \<and> s' = s"
    and "ok \<Longrightarrow> in_sync look t' s' \<and> tk_owner t' = tk_owner t \<and>
      oq_OperationID (tk_record t') = oq_OperationID (tk_record t) \<and>
      oq_Revision (tk_record t') = wrap64 (oq_Revision (tk_record t) + 1) \<and>
      oq_Status (tk_record t') = (if st \<noteq> [] then st else oq_Status (tk_record t)) \<and>
      oq_Phase (tk_record t') = (if ph \<noteq> [] then ph else oq_Phase (tk_record t)) \<and>
      oq_ErrorCode (tk_record t') = err \<and> oq_ResultJSON (tk_record t') = js"
proof -
  obtain now now1 now2 where clock: "clock = (now, now1, now2)" by (cases clock)
  define r where "r = (tk_record t)\<lparr>
      oq_Status := (if st \<noteq> [] then st else oq_Status (tk_record t)),
      oq_Phase := (if ph \<noteq> [] then ph else oq_Phase (tk_record t)),
      oq_CurrentRoomID := (if room \<noteq> [] then room else oq_CurrentRoomID (tk_record t)),
      oq_ErrorCode := err, oq_ResultJSON := js, oq_UpdatedAt := now\<rparr>"
  have id: "oq_OperationID r = oq_OperationID (tk_record t)" by (simp add: r_def)
  let ?c = "cas now1 now2 r (oq_Revision (tk_record t)) (tk_owner t) (tk_leaseDurationMillis t) s"
  have u: "Tracker_Update cas clock st ph room err js (t, s) =
      (case ?c of ((updated, ok), s') \<Rightarrow> if ok then (True, t\<lparr>tk_record := updated\<rparr>, s') else (False, t, s'))"
    by (simp add: Tracker_Update_def clock r_def Let_def split_def)
  have "(ok \<longleftrightarrow> holds_lease now1 (tk_owner t) (oq_Revision (tk_record t)) (look s (oq_OperationID (tk_record t)))) \<and>
      (\<not> ok \<longrightarrow> t' = t \<and> s' = s) \<and>
      (ok \<longrightarrow> t' = t\<lparr>tk_record := swapped_operation now2 r (oq_Revision (tk_record t)) (tk_leaseDurationMillis t)\<rparr> \<and>
             look s' (oq_OperationID r) =
               Some (swapped_operation now2 r (oq_Revision (tk_record t)) (tk_leaseDurationMillis t)))"
  proof (cases "holds_lease now1 (tk_owner t) (oq_Revision (tk_record t)) (look s (oq_OperationID r))")
    case True
    from cas_accepted [OF True, of now2 "tk_leaseDurationMillis t"] assms u True id show ?thesis by auto
  next
    case False
    from cas_refused [OF False, of now2 "tk_leaseDurationMillis t"] assms u False id show ?thesis
      by (auto split: prod.splits if_splits)
  qed
  note res = this
  show "ok \<longleftrightarrow> holds_lease (fst (snd clock)) (tk_owner t) (oq_Revision (tk_record t))
                  (look s (oq_OperationID (tk_record t)))"
    using res by (simp add: clock)
  show "\<not> ok \<Longrightarrow> t' = t \<and> s' = s"
    using res by simp
  show "in_sync look t' s' \<and> tk_owner t' = tk_owner t \<and>
      oq_OperationID (tk_record t') = oq_OperationID (tk_record t) \<and>
      oq_Revision (tk_record t') = wrap64 (oq_Revision (tk_record t) + 1) \<and>
      oq_Status (tk_record t') = (if st \<noteq> [] then st else oq_Status (tk_record t)) \<and>
      oq_Phase (tk_record t') = (if ph \<noteq> [] then ph else oq_Phase (tk_record t)) \<and>
      oq_ErrorCode (tk_record t') = err \<and> oq_ResultJSON (tk_record t') = js" if ok
    using res that swapped_fields [of now2 r "oq_Revision (tk_record t)" "tk_leaseDurationMillis t"]
    by (simp add: in_sync_def id) (simp add: r_def)
qed

lemma release_result:
  assumes "Tracker_Release cas clock (t, s) = (ok, t', s')" and "oq_LeaseOwner (tk_record t) \<noteq> []"
  shows "if ok then in_sync look t' s' \<and> oq_LeaseOwner (tk_record t') = [] \<and> oq_LeaseUntil (tk_record t') = 0
         else t' = t \<and> s' = s"
proof -
  obtain now now1 now2 where clock: "clock = (now, now1, now2)" by (cases clock)
  let ?r = "(tk_record t)\<lparr>oq_LeaseOwner := [], oq_LeaseUntil := 0, oq_UpdatedAt := now\<rparr>"
  let ?c = "cas now1 now2 ?r (oq_Revision (tk_record t)) (tk_owner t) 0 s"
  have u: "Tracker_Release cas clock (t, s) =
      (case ?c of ((updated, ok), s') \<Rightarrow> if ok then (True, t\<lparr>tk_record := updated\<rparr>, s') else (False, t, s'))"
    using assms(2) by (simp add: Tracker_Release_def clock Let_def split_def)
  show ?thesis
  proof (cases "holds_lease now1 (tk_owner t) (oq_Revision (tk_record t)) (look s (oq_OperationID ?r))")
    case True
    from cas_accepted [OF True, of now2 0] assms(1) u show ?thesis
      by (auto simp: in_sync_def swapped_operation_def Let_def)
  next
    case False
    from cas_refused [OF False, of now2 0] assms(1) u show ?thesis
      by (auto split: prod.splits if_splits)
  qed
qed

end

section \<open>Properties\<close>


definition claimed :: "string \<Rightarrow> int \<Rightarrow> tracker \<times> memory_store" where
  "claimed owner now =
     (case ClaimOperation now (zero_operation\<lparr>oq_OperationID := ''op'', oq_Status := ''running''\<rparr>) owner 50 NewMemoryStore of
        ((r, _), s) \<Rightarrow> (NewTracker owner r 50, s))"

lemma claimed_a:
  "fst (claimed ''a'' 100) = \<lparr>tk_owner = ''a'', tk_record = zero_operation\<lparr>oq_OperationID := ''op'',
     oq_Status := ''running'', oq_Revision := 1, oq_LeaseOwner := ''a'', oq_LeaseUntil := 150\<rparr>, tk_leaseDurationMillis = 50\<rparr>"
  "LookupOperation (snd (claimed ''a'' 100)) ''op'' = Some (tk_record (fst (claimed ''a'' 100)))"
  by (simp_all add: claimed_def ClaimOperation_def NewTracker_def LookupOperation_def Let_def
      NewMemoryStore_def wrap64_def)


text \<open>A heartbeat that read its snapshot before an update of the same tracker and writes after it
  succeeds and undoes the update: the stored record has the old status, phase and result again.\<close>

theorem Heartbeat_loses_update:
  "let (t, s) = claimed ''a'' 100;
       snap = Snapshot t;
       (ok1, t1, s1) = Tracker_Update CompareAndSwapOperation (110, 110, 110) ''done'' ''end'' [] [] ''{}'' (t, s);
       (ok2, t2, s2) = Heartbeat_write CompareAndSwapOperation (120, 120, 120) snap (t1, s1)
   in ok1 \<and> oq_Status (tk_record t1) = ''done'' \<and> ok2 \<and>
      (\<exists>r. LookupOperation s2 ''op'' = Some r \<and> oq_Status r = ''running'' \<and> oq_ResultJSON r = [])"
proof -
  obtain t s where ts: "claimed ''a'' 100 = (t, s)" by (cases "claimed ''a'' 100")
  then have t: "t = \<lparr>tk_owner = ''a'', tk_record = zero_operation\<lparr>oq_OperationID := ''op'',
      oq_Status := ''running'', oq_Revision := 1, oq_LeaseOwner := ''a'', oq_LeaseUntil := 150\<rparr>,
      tk_leaseDurationMillis = 50\<rparr>" and s: "gget (ms_operations s) ''op'' = Some (tk_record t)"
    using claimed_a by (simp_all add: LookupOperation_def)
  show ?thesis
    using s
    by (simp add: ts Let_def Snapshot_def Heartbeat_write_def Tracker_Update_def CompareAndSwapOperation_def
        swapped_operation_def LookupOperation_def wrap64_def t zero_operation_def)
qed

end
