(* ===== verification/Policy_Room.thy ===== *)
theory Policy_Room
  imports Go_Values
begin

text \<open>
  How the product policy reads a room (\<open>internal/productpolicy/productpolicy.go\<close>): the state keys of
  users, the tolerant readers of event content, and \<open>resolveRoom\<close>, which turns the current state of a
  room into the policy that the decisions of the theory \<open>Product_Policy\<close> are taken on.

  The room server behind \<open>CurrentStateQuerier\<close> and the identifier parsers of gomatrixserverlib are
  parameters: the record \<open>querier\<close> holds the answers of one snapshot (its optional fields are the
  interfaces the code tests for with a type assertion), the record \<open>matrix_ids\<close> the parsers.  Event
  content is held in its decoded form, \<open>None\<close> when its bytes are not a JSON object; numbers are those of
  canonical JSON.
\<close>

section \<open>Errors\<close>

datatype go_error = PolicyError int string | ErrRoomNoExists string | OtherError string | ContentError

type_synonym 'a result = "go_error + 'a"

definition Forbidden :: "string \<Rightarrow> 'a result" where
  "Forbidden message = Inl (PolicyError 403 message)"

definition rbind :: "'a result \<Rightarrow> ('a \<Rightarrow> 'b result) \<Rightarrow> 'b result" where
  "rbind r f = (case r of Inl e \<Rightarrow> Inl e | Inr x \<Rightarrow> f x)"

lemma rbind_simps [simp]: "rbind (Inl e) f = Inl e" "rbind (Inr x) f = f x"
  by (simp_all add: rbind_def)

lemma rbind_Inr_iff: "rbind r f = Inr y \<longleftrightarrow> (\<exists>x. r = Inr x \<and> f x = Inr y)"
  by (cases r) simp_all

lemma Forbidden_not_Inr [simp]: "Forbidden m \<noteq> Inr x"
  by (simp add: Forbidden_def)

section \<open>State keys\<close>

definition userStateKeyPrefix :: string where
  "userStateKeyPrefix = ''user:''"

definition UserStateKey :: "string \<Rightarrow> string" where
  "UserStateKey mxid = userStateKeyPrefix @ go_trim mxid"

definition UserIDFromStateKey :: "string \<Rightarrow> string" where
  "UserIDFromStateKey stateKey =
     (let stateKey = go_trim stateKey
      in if go_has_prefix stateKey userStateKeyPrefix then go_trim_prefix stateKey userStateKeyPrefix
         else stateKey)"

section \<open>Reading event content\<close>

definition stringValue :: "any \<Rightarrow> string" where
  "stringValue value = (case value of ANil \<Rightarrow> [] | AStr v \<Rightarrow> go_trim v | v \<Rightarrow> go_trim (sprint v))"

definition boolValue :: "any \<Rightarrow> bool" where
  "boolValue value = (case value of
       ABool v \<Rightarrow> v
     | AStr v \<Rightarrow> (let parsed = go_lower (go_trim v)
                   in parsed = ''true'' \<or> parsed = ''1'' \<or> parsed = ''yes'')
     | AFloat v _ \<Rightarrow> v \<noteq> 0
     | AInt v \<Rightarrow> v \<noteq> 0
     | _ \<Rightarrow> False)"

record headered_event =
  he_Sender :: string
  he_StateKey :: "string option"
  he_Content :: "content option"

definition eventContent :: "headered_event option \<Rightarrow> content result" where
  "eventContent event = (case event of
       None \<Rightarrow> Inr gempty
     | Some e \<Rightarrow> (case he_Content e of None \<Rightarrow> Inl ContentError | Some c \<Rightarrow> Inr c))"

section \<open>The room server\<close>

type_synonym state_tuple = "string \<times> string"

type_synonym state_events = "(state_tuple, headered_event option) gomap"

definition state_event :: "state_events \<Rightarrow> state_tuple \<Rightarrow> headered_event option" where
  "state_event m t = (case gget m t of None \<Rightarrow> None | Some e \<Rightarrow> e)"

record membership_response =
  mr_Membership :: string
  mr_IsInRoom :: bool
  mr_RoomExists :: bool
  mr_HasBeenInRoom :: bool

record querier =
  q_CurrentState :: "string \<Rightarrow> bool \<Rightarrow> state_tuple list \<Rightarrow> state_events result"
  q_MembershipForUser :: "string \<Rightarrow> string \<Rightarrow> membership_response result"
  q_UserIDForSender :: "(string \<Rightarrow> string \<Rightarrow> string option result) option"
  q_InvitePending :: "(string \<Rightarrow> string \<Rightarrow> bool result) option"
  q_EventsByID :: "string \<Rightarrow> string list \<Rightarrow> headered_event list result"

record matrix_ids =
  mi_NewUserID :: "string \<Rightarrow> string result"
  mi_NewRoomID :: "string \<Rightarrow> string result"
  mi_SplitID :: "string \<Rightarrow> (string \<times> string) option"

definition go_error_text :: "go_error \<Rightarrow> string" where
  "go_error_text err = (case err of PolicyError _ m \<Rightarrow> m | ErrRoomNoExists m \<Rightarrow> m | OtherError m \<Rightarrow> m
     | ContentError \<Rightarrow> ''invalid JSON'')"

definition roomDoesNotExistError :: "go_error \<Rightarrow> bool" where
  "roomDoesNotExistError err = (case err of
       ErrRoomNoExists _ \<Rightarrow> True
     | _ \<Rightarrow> (let message = go_lower (go_error_text err)
             in go_contains message ''room '' \<and>
                (go_contains message ''doesn't exist'' \<or> go_contains message ''does not exist'')))"

section \<open>Room types\<close>

definition RoomTypeDirect :: string where "RoomTypeDirect = ''io.dirextalk.room.direct''"
definition RoomTypeGroup :: string where "RoomTypeGroup = ''io.dirextalk.room.group''"
definition RoomTypeChannel :: string where "RoomTypeChannel = ''io.dirextalk.room.channel''"
definition RoomProfileEventType :: string where "RoomProfileEventType = ''io.dirextalk.room.profile''"
definition MemberPolicyEventType :: string where "MemberPolicyEventType = ''io.dirextalk.member.policy''"
definition JoinRequestEventType :: string where "JoinRequestEventType = ''io.dirextalk.join_request''"
definition ChannelPostSettingsEventType :: string where
  "ChannelPostSettingsEventType = ''io.dirextalk.channel.post.settings''"

definition isDirextalkRoomType :: "string \<Rightarrow> bool" where
  "isDirextalkRoomType value \<longleftrightarrow> go_trim value \<in> {RoomTypeDirect, RoomTypeGroup, RoomTypeChannel}"

definition ProductRoomType :: "querier option \<Rightarrow> string \<Rightarrow> string result" where
  "ProductRoomType querier roomID = (case querier of
       None \<Rightarrow> Inr []
     | Some q \<Rightarrow>
         (case q_CurrentState q roomID False [(''m.room.create'', []), (RoomProfileEventType, [])] of
            Inl err \<Rightarrow> if roomDoesNotExistError err then Inr [] else Inl err
          | Inr res \<Rightarrow>
              rbind (eventContent (state_event res (''m.room.create'', []))) (\<lambda>createContent.
              if isDirextalkRoomType (stringValue (cget createContent ''type''))
              then Inr (stringValue (cget createContent ''type''))
              else rbind (eventContent (state_event res (RoomProfileEventType, []))) (\<lambda>profileContent.
                let roomType = stringValue (cget profileContent ''room_type'')
                in if isDirextalkRoomType roomType then Inr roomType else Inr []))))"

definition IsDirextalkDirectRoom :: "querier option \<Rightarrow> string \<Rightarrow> bool result" where
  "IsDirextalkDirectRoom querier roomID =
     rbind (ProductRoomType querier roomID) (\<lambda>roomType. Inr (roomType = RoomTypeDirect))"

section \<open>The policy of a room\<close>

record room_policy =
  pol_Product :: bool
  pol_RoomType :: string
  pol_Dissolved :: bool
  pol_CommentsEnabled :: bool
  pol_InvitePolicy :: string
  pol_JoinPolicy :: string
  pol_DirectRequester :: string
  pol_DirectTarget :: string
  pol_SenderRole :: string
  pol_SenderMuted :: bool
  pol_SenderMembership :: string
  pol_SenderJoined :: bool
  pol_DirectPeerJoined :: bool
  pol_JoinRequestStatus :: string

definition zero_policy :: room_policy where
  "zero_policy = \<lparr>pol_Product = False, pol_RoomType = [], pol_Dissolved = False, pol_CommentsEnabled = False,
     pol_InvitePolicy = [], pol_JoinPolicy = [], pol_DirectRequester = [], pol_DirectTarget = [],
     pol_SenderRole = [], pol_SenderMuted = False, pol_SenderMembership = [], pol_SenderJoined = False,
     pol_DirectPeerJoined = False, pol_JoinRequestStatus = []\<rparr>"

definition SenderPrivileged :: "room_policy \<Rightarrow> bool" where
  "SenderPrivileged p \<longleftrightarrow> go_equal_fold (go_trim (pol_SenderRole p)) ''owner''"

definition DirectPeerInvite :: "room_policy \<Rightarrow> string \<Rightarrow> string \<Rightarrow> bool" where
  "DirectPeerInvite p senderMXID targetMXID \<longleftrightarrow>
     pol_RoomType p = RoomTypeDirect \<and>
     (let requester = go_trim (pol_DirectRequester p); target = go_trim (pol_DirectTarget p);
          senderMXID = go_trim senderMXID; targetMXID = go_trim targetMXID
      in requester \<noteq> [] \<and> target \<noteq> [] \<and>
         (senderMXID = requester \<and> targetMXID = target \<or> senderMXID = target \<and> targetMXID = requester))"

text \<open>\<open>applyRoomPolicyContent\<close> sets the flags, the two policies and, in a direct room, the pair of users.\<close>

definition apply_flags :: "content \<Rightarrow> bool \<Rightarrow> room_policy \<Rightarrow> room_policy" where
  "apply_flags content requireChannelComments p =
     (let p = (if chas content ''dissolved'' then p\<lparr>pol_Dissolved := boolValue (cget content ''dissolved'')\<rparr> else p)
      in if pol_RoomType p = RoomTypeChannel \<and> (chas content ''comments_enabled'' \<or> requireChannelComments)
         then p\<lparr>pol_CommentsEnabled := boolValue (cget content ''comments_enabled'')\<rparr> else p)"

definition apply_policies :: "content \<Rightarrow> room_policy \<Rightarrow> room_policy" where
  "apply_policies content p =
     (let invitePolicy = stringValue (cget content ''invite_policy'');
          p = (if invitePolicy \<noteq> [] then p\<lparr>pol_InvitePolicy := invitePolicy\<rparr> else p);
          joinPolicy = stringValue (cget content ''join_policy'')
      in if joinPolicy \<noteq> [] then p\<lparr>pol_JoinPolicy := joinPolicy\<rparr> else p)"

definition apply_direct :: "content \<Rightarrow> room_policy \<Rightarrow> room_policy" where
  "apply_direct content p =
     (if pol_RoomType p = RoomTypeDirect then
        (let requester = stringValue (cget content ''requester_mxid'');
             p = (if requester \<noteq> [] then p\<lparr>pol_DirectRequester := requester\<rparr> else p);
             target = stringValue (cget content ''target_mxid'')
         in if target \<noteq> [] then p\<lparr>pol_DirectTarget := target\<rparr> else p)
      else p)"

definition applyRoomPolicyContent :: "content \<Rightarrow> bool \<Rightarrow> room_policy \<Rightarrow> room_policy" where
  "applyRoomPolicyContent content requireChannelComments p =
     apply_direct content (apply_policies content (apply_flags content requireChannelComments p))"

definition authoritativeCreateSenderMXID ::
  "matrix_ids \<Rightarrow> querier \<Rightarrow> string \<Rightarrow> headered_event option \<Rightarrow> string result" where
  "authoritativeCreateSenderMXID ids q roomID event = (case event of
       None \<Rightarrow> Inr []
     | Some e \<Rightarrow>
         (let senderID = he_Sender e
          in case mi_NewUserID ids (go_trim senderID) of
               Inr userID \<Rightarrow> Inr userID
             | Inl _ \<Rightarrow>
                 (case q_UserIDForSender q of
                    None \<Rightarrow> Inr []
                  | Some resolver \<Rightarrow>
                      if go_trim senderID = [] then Inr []
                      else rbind (mi_NewRoomID ids (go_trim roomID)) (\<lambda>validRoomID.
                           rbind (resolver validRoomID senderID) (\<lambda>userID.
                           Inr (case userID of None \<Rightarrow> [] | Some u \<Rightarrow> u))))))"

text \<open>The loop over the member events of a direct room, in the iteration order of the map.\<close>

fun peer_joined :: "string \<Rightarrow> state_events \<Rightarrow> bool result" where
  "peer_joined senderMXID [] = Inr False"
| "peer_joined senderMXID ((tuple, event) # rest) = (case event of
       None \<Rightarrow> peer_joined senderMXID rest
     | Some e \<Rightarrow>
         if fst tuple \<noteq> ''m.room.member'' then peer_joined senderMXID rest
         else (let userID = snd tuple;
                   userID = (if userID = [] then (case he_StateKey e of None \<Rightarrow> userID | Some k \<Rightarrow> k) else userID)
               in if userID = [] \<or> userID = senderMXID then peer_joined senderMXID rest
                  else rbind (eventContent (Some e)) (\<lambda>content.
                       if stringValue (cget content ''membership'') = ''join'' then Inr True
                       else peer_joined senderMXID rest)))"

definition directPeerJoined :: "querier \<Rightarrow> string \<Rightarrow> string \<Rightarrow> bool result" where
  "directPeerJoined q roomID senderMXID =
     rbind (q_CurrentState q roomID True [(''m.room.member'', ''*'')]) (\<lambda>res. peer_joined senderMXID res)"

definition membershipValue :: "string \<Rightarrow> string \<Rightarrow> string" where
  "membershipValue queryMembership stateMembership =
     (if queryMembership \<noteq> [] then queryMembership else stateMembership)"

definition senderMembership ::
  "matrix_ids \<Rightarrow> querier \<Rightarrow> string \<Rightarrow> string \<Rightarrow> headered_event option \<Rightarrow> (string \<times> bool) result" where
  "senderMembership ids q roomID senderMXID event =
     rbind (eventContent event) (\<lambda>content.
     let stateMembership = stringValue (cget content ''membership'')
     in if stateMembership = ''join'' then Inr (stateMembership, True)
        else rbind (mi_NewUserID ids senderMXID) (\<lambda>userID.
             rbind (q_MembershipForUser q roomID userID) (\<lambda>res.
             let answer = (membershipValue (mr_Membership res) stateMembership,
                           mr_IsInRoom res \<or> mr_Membership res = ''join'')
             in if mr_Membership res = ''join'' then Inr (mr_Membership res, True)
                else if mr_Membership res = [] \<or> stateMembership \<noteq> [] then
                  (case q_InvitePending q of
                     None \<Rightarrow> Inr answer
                   | Some invites \<Rightarrow>
                       rbind (mi_NewRoomID ids roomID) (\<lambda>validRoomID.
                       rbind (invites validRoomID senderMXID) (\<lambda>pending.
                       if pending then Inr (''invite'', False) else Inr answer)))
                else Inr answer)))"

definition priorRoomMember :: "matrix_ids \<Rightarrow> querier \<Rightarrow> string \<Rightarrow> string \<Rightarrow> bool result" where
  "priorRoomMember ids q roomID userMXID =
     rbind (mi_NewUserID ids userMXID) (\<lambda>userID.
     rbind (q_MembershipForUser q roomID userID) (\<lambda>res.
     Inr (mr_RoomExists res \<and> mr_HasBeenInRoom res)))"

text \<open>An event under the user's state key, else the one under the bare user id.\<close>

definition user_state :: "state_events \<Rightarrow> string \<Rightarrow> string \<Rightarrow> headered_event option" where
  "user_state res eventType senderMXID = (case state_event res (eventType, UserStateKey senderMXID) of
       None \<Rightarrow> state_event res (eventType, senderMXID) | Some e \<Rightarrow> Some e)"

definition room_tuples :: "string \<Rightarrow> state_tuple list" where
  "room_tuples senderMXID =
     [(''m.room.create'', []), (RoomProfileEventType, []),
      (MemberPolicyEventType, senderMXID), (MemberPolicyEventType, UserStateKey senderMXID),
      (JoinRequestEventType, senderMXID), (JoinRequestEventType, UserStateKey senderMXID),
      (''m.room.member'', senderMXID)]"

text \<open>The room-wide part of the policy: room type from the create event and the profile.\<close>

definition default_policy :: room_policy where
  "default_policy = zero_policy\<lparr>pol_CommentsEnabled := True, pol_InvitePolicy := ''member'',
     pol_JoinPolicy := ''invite'', pol_SenderRole := ''member''\<rparr>"

definition with_room_type :: "any \<Rightarrow> room_policy \<Rightarrow> room_policy" where
  "with_room_type value p =
     (let roomType = stringValue value
      in if isDirextalkRoomType roomType then p\<lparr>pol_Product := True, pol_RoomType := roomType\<rparr> else p)"

definition room_wide :: "state_events \<Rightarrow> room_policy result" where
  "room_wide res =
     rbind (eventContent (state_event res (''m.room.create'', []))) (\<lambda>createContent.
     let p = with_room_type (cget createContent ''type'') default_policy
     in case state_event res (RoomProfileEventType, []) of
          None \<Rightarrow> Inr p
        | Some e \<Rightarrow>
            rbind (eventContent (Some e)) (\<lambda>content.
            let p = with_room_type (cget content ''room_type'') p
            in Inr (if pol_Product p then applyRoomPolicyContent content True p else p)))"

definition resolveRoom :: "matrix_ids \<Rightarrow> querier \<Rightarrow> string \<Rightarrow> string \<Rightarrow> room_policy result" where
  "resolveRoom ids q roomID senderMXID =
     (case q_CurrentState q roomID False (room_tuples senderMXID) of
        Inl err \<Rightarrow> if roomDoesNotExistError err then Inr zero_policy else Inl err
      | Inr res \<Rightarrow>
          rbind (room_wide res) (\<lambda>p.
          if \<not> pol_Product p then Inr p
          else
            rbind (authoritativeCreateSenderMXID ids q roomID (state_event res (''m.room.create'', []))) (\<lambda>creatorMXID.
            let p = (if creatorMXID = senderMXID then p\<lparr>pol_SenderRole := ''owner''\<rparr> else p)
            in rbind (eventContent (user_state res MemberPolicyEventType senderMXID)) (\<lambda>memberPolicy.
            let p = (if boolValue (cget memberPolicy ''muted'') then p\<lparr>pol_SenderMuted := True\<rparr> else p)
            in rbind (eventContent (user_state res JoinRequestEventType senderMXID)) (\<lambda>joinRequest.
            let p = p\<lparr>pol_JoinRequestStatus := go_lower (stringValue (cget joinRequest ''status''))\<rparr>
            in rbind (senderMembership ids q roomID senderMXID (state_event res (''m.room.member'', senderMXID)))
                 (\<lambda>(membership, joined).
            let p = p\<lparr>pol_SenderMembership := membership, pol_SenderJoined := joined\<rparr>
            in if pol_RoomType p = RoomTypeDirect
               then rbind (directPeerJoined q roomID senderMXID) (\<lambda>peer. Inr (p\<lparr>pol_DirectPeerJoined := peer\<rparr>))
               else Inr p))))))"

section \<open>Lemmas\<close>

lemma UserStateKey_trimmed [simp]: "go_trim (UserStateKey m) = UserStateKey m"
  unfolding UserStateKey_def
  by (rule go_trim_prefixed) (simp_all add: userStateKeyPrefix_def ascii_graph_def)

lemma stringValue_trimmed [simp]: "go_trim (stringValue v) = stringValue v"
  by (simp add: stringValue_def split: any.split)

lemma isDirextalkRoomType_value:
  "isDirextalkRoomType (stringValue v) \<longleftrightarrow> stringValue v \<in> {RoomTypeDirect, RoomTypeGroup, RoomTypeChannel}"
  by (simp add: isDirextalkRoomType_def)

lemma SenderPrivileged_roles [simp]:
  "pol_SenderRole p = ''owner'' \<Longrightarrow> SenderPrivileged p" "pol_SenderRole p = ''member'' \<Longrightarrow> \<not> SenderPrivileged p"
  by (simp_all add: SenderPrivileged_def go_trim_ascii ascii_graph_def) (code_simp+)

text \<open>What the parts of \<open>applyRoomPolicyContent\<close> leave alone, and the flags it sets.\<close>

definition frame_eq :: "room_policy \<Rightarrow> room_policy \<Rightarrow> bool" where
  "frame_eq p q \<longleftrightarrow> pol_Product q = pol_Product p \<and> pol_RoomType q = pol_RoomType p \<and>
     pol_SenderRole q = pol_SenderRole p \<and> pol_SenderMuted q = pol_SenderMuted p \<and>
     pol_DirectPeerJoined q = pol_DirectPeerJoined p \<and> pol_SenderJoined q = pol_SenderJoined p"

definition flags_eq :: "room_policy \<Rightarrow> room_policy \<Rightarrow> bool" where
  "flags_eq p q \<longleftrightarrow> pol_Dissolved q = pol_Dissolved p \<and> pol_CommentsEnabled q = pol_CommentsEnabled p"

lemma apply_frames:
  "frame_eq p (apply_flags c b p)" "frame_eq p (apply_policies c p)" "frame_eq p (apply_direct c p)"
  "flags_eq p (apply_policies c p)" "flags_eq p (apply_direct c p)"
  by (simp_all add: frame_eq_def flags_eq_def apply_flags_def apply_policies_def apply_direct_def Let_def)

lemma applyRoomPolicyContent_frame: "frame_eq p (applyRoomPolicyContent c b p)"
  using apply_frames(1) [of p c b] apply_frames(2) [of "apply_flags c b p" c]
    apply_frames(3) [of "apply_policies c (apply_flags c b p)" c]
  by (simp add: applyRoomPolicyContent_def frame_eq_def)

lemma apply_flags_values:
  "pol_Dissolved (apply_flags c b p) =
     (if chas c ''dissolved'' then boolValue (cget c ''dissolved'') else pol_Dissolved p)"
  "pol_CommentsEnabled (apply_flags c b p) =
     (if pol_RoomType p = RoomTypeChannel \<and> (chas c ''comments_enabled'' \<or> b)
      then boolValue (cget c ''comments_enabled'') else pol_CommentsEnabled p)"
  by (auto simp: apply_flags_def Let_def)

lemma applyRoomPolicyContent_flags: "flags_eq (apply_flags c b p) (applyRoomPolicyContent c b p)"
  using apply_frames(4) [of "apply_flags c b p" c] apply_frames(5) [of "apply_policies c (apply_flags c b p)" c]
  by (simp add: applyRoomPolicyContent_def flags_eq_def)

text \<open>A resolved policy is well formed.\<close>

definition policy_ok :: "room_policy \<Rightarrow> bool" where
  "policy_ok p \<longleftrightarrow> (if pol_Product p
     then pol_RoomType p \<in> {RoomTypeDirect, RoomTypeGroup, RoomTypeChannel} \<and>
          pol_SenderRole p \<in> {''owner'', ''member''} \<and>
          (pol_DirectPeerJoined p \<longrightarrow> pol_RoomType p = RoomTypeDirect)
     else pol_RoomType p = [] \<and> \<not> pol_SenderJoined p \<and> \<not> SenderPrivileged p)"

text \<open>Before the sender is looked at: a room type exactly for product rooms, and no rights.\<close>

definition wide_ok :: "room_policy \<Rightarrow> bool" where
  "wide_ok p \<longleftrightarrow>
     pol_RoomType p \<in> (if pol_Product p then {RoomTypeDirect, RoomTypeGroup, RoomTypeChannel} else {[]}) \<and>
     pol_SenderRole p = ''member'' \<and> \<not> pol_SenderMuted p \<and> \<not> pol_SenderJoined p \<and> \<not> pol_DirectPeerJoined p"

lemma wide_ok_default: "wide_ok default_policy"
  by (simp add: wide_ok_def default_policy_def zero_policy_def)

lemma wide_ok_with_room_type: "wide_ok p \<Longrightarrow> wide_ok (with_room_type v p)"
  by (auto simp: wide_ok_def with_room_type_def Let_def isDirextalkRoomType_value split: if_splits)

lemma wide_ok_apply: "wide_ok p \<Longrightarrow> wide_ok (applyRoomPolicyContent c b p)"
  using applyRoomPolicyContent_frame [of p c b] by (simp add: wide_ok_def frame_eq_def)

lemma room_wide_ok: "room_wide res = Inr p \<Longrightarrow> wide_ok p"
  by (auto simp: room_wide_def rbind_Inr_iff Let_def wide_ok_apply wide_ok_with_room_type wide_ok_default
      split: option.splits)

text \<open>The stages after the room-wide part, and their result.\<close>

definition sender_policy :: "room_policy \<Rightarrow> bool \<Rightarrow> content \<Rightarrow> content \<Rightarrow> string \<times> bool \<Rightarrow> bool \<Rightarrow> room_policy" where
  "sender_policy w owner memberPolicy joinRequest m peer =
     w\<lparr>pol_SenderRole := (if owner then ''owner'' else pol_SenderRole w),
       pol_SenderMuted := pol_SenderMuted w \<or> boolValue (cget memberPolicy ''muted''),
       pol_JoinRequestStatus := go_lower (stringValue (cget joinRequest ''status'')),
       pol_SenderMembership := fst m, pol_SenderJoined := snd m, pol_DirectPeerJoined := peer\<rparr>"

lemma resolveRoom_sender:
  assumes "resolveRoom ids q roomID senderMXID = Inr p"
    and "q_CurrentState q roomID False (room_tuples senderMXID) = Inr res"
    and "room_wide res = Inr w" and "pol_Product w"
  obtains creator muted status m peer where
    "authoritativeCreateSenderMXID ids q roomID (state_event res (''m.room.create'', [])) = Inr creator"
    "eventContent (user_state res MemberPolicyEventType senderMXID) = Inr muted"
    "eventContent (user_state res JoinRequestEventType senderMXID) = Inr status"
    "senderMembership ids q roomID senderMXID (state_event res (''m.room.member'', senderMXID)) = Inr m"
    "p = sender_policy w (creator = senderMXID) muted status m peer"
    "(if pol_RoomType w = RoomTypeDirect then directPeerJoined q roomID senderMXID else Inr (pol_DirectPeerJoined w)) = Inr peer"
proof -
  have "\<exists>creator muted status m. authoritativeCreateSenderMXID ids q roomID (state_event res (''m.room.create'', [])) = Inr creator \<and>
      eventContent (user_state res MemberPolicyEventType senderMXID) = Inr muted \<and>
      eventContent (user_state res JoinRequestEventType senderMXID) = Inr status \<and>
      senderMembership ids q roomID senderMXID (state_event res (''m.room.member'', senderMXID)) = Inr m"
    using assms by (auto simp: resolveRoom_def rbind_Inr_iff Let_def)
  then obtain creator muted status m where
    s: "authoritativeCreateSenderMXID ids q roomID (state_event res (''m.room.create'', [])) = Inr creator"
      "eventContent (user_state res MemberPolicyEventType senderMXID) = Inr muted"
      "eventContent (user_state res JoinRequestEventType senderMXID) = Inr status"
      "senderMembership ids q roomID senderMXID (state_event res (''m.room.member'', senderMXID)) = Inr m"
    by blast
  let ?p = "sender_policy w (creator = senderMXID) muted status m"
  have "rbind (if pol_RoomType w = RoomTypeDirect then directPeerJoined q roomID senderMXID
               else Inr (pol_DirectPeerJoined w)) (\<lambda>peer. Inr (?p peer)) = Inr p"
    using assms s unfolding sender_policy_def
    by (cases "boolValue (cget muted ''muted'')"; cases "creator = senderMXID")
      (simp_all add: resolveRoom_def Let_def split_def cong: if_cong split: if_splits)
  then obtain peer where "(if pol_RoomType w = RoomTypeDirect then directPeerJoined q roomID senderMXID
      else Inr (pol_DirectPeerJoined w)) = Inr peer" "p = ?p peer"
    by (auto simp: rbind_Inr_iff)
  with s that show thesis by blast
qed

lemma resolveRoom_cases:
  assumes "resolveRoom ids q roomID senderMXID = Inr p"
  obtains (absent) "p = zero_policy"
  | (other) res where "room_wide res = Inr p" "\<not> pol_Product p"
  | (product) res w where "q_CurrentState q roomID False (room_tuples senderMXID) = Inr res"
      "room_wide res = Inr w" "pol_Product w"
proof (cases "q_CurrentState q roomID False (room_tuples senderMXID)")
  case (Inl err)
  with assms absent show thesis by (auto simp: resolveRoom_def split: if_splits)
next
  case (Inr res)
  with assms obtain w where w: "room_wide res = Inr w"
    by (auto simp: resolveRoom_def rbind_Inr_iff)
  show thesis
  proof (cases "pol_Product w")
    case True
    with Inr w product show thesis by blast
  next
    case False
    with assms Inr w other show thesis by (simp add: resolveRoom_def)
  qed
qed

lemma sender_policy_ok:
  assumes "wide_ok w" and "pol_Product w"
    and "(if pol_RoomType w = RoomTypeDirect then r else Inr (pol_DirectPeerJoined w)) = (Inr peer :: bool result)"
  shows "policy_ok (sender_policy w owner mp jr m peer) \<and> pol_Product (sender_policy w owner mp jr m peer) \<and>
    (SenderPrivileged (sender_policy w owner mp jr m peer) \<longleftrightarrow> owner)"
proof -
  have "SenderPrivileged (sender_policy w owner mp jr m peer) \<longleftrightarrow> owner"
    using assms(1) by (cases owner) (simp_all add: sender_policy_def wide_ok_def)
  moreover have "policy_ok (sender_policy w owner mp jr m peer)"
    using assms by (simp add: policy_ok_def sender_policy_def wide_ok_def split: if_splits)
  ultimately show ?thesis using assms(2) by (simp add: sender_policy_def)
qed

lemma resolveRoom_ok:
  assumes "resolveRoom ids q roomID senderMXID = Inr p"
  shows "policy_ok p"
  using assms
proof (cases rule: resolveRoom_cases)
  case (product res w)
  show ?thesis
    by (rule resolveRoom_sender [OF assms product])
      (use sender_policy_ok [OF room_wide_ok [OF product(2)] product(3)] in blast)
next
  case (other res)
  with room_wide_ok [OF other(1)] show ?thesis by (simp add: policy_ok_def wide_ok_def)
qed (simp add: policy_ok_def zero_policy_def SenderPrivileged_def go_equal_fold_def)

lemma resolveRoom_privileged:
  assumes "resolveRoom ids q roomID senderMXID = Inr p" and "pol_Product p"
  shows "\<exists>res creator. q_CurrentState q roomID False (room_tuples senderMXID) = Inr res \<and>
    authoritativeCreateSenderMXID ids q roomID (state_event res (''m.room.create'', [])) = Inr creator \<and>
    (SenderPrivileged p \<longleftrightarrow> creator = senderMXID)"
  using assms(1)
proof (cases rule: resolveRoom_cases)
  case (product res w)
  show ?thesis
    by (rule resolveRoom_sender [OF assms(1) product])
      (use product(1) sender_policy_ok [OF room_wide_ok [OF product(2)] product(3)] in blast)
qed (use assms(2) in \<open>simp_all add: zero_policy_def\<close>)

section \<open>Properties\<close>

text \<open>The state key of a user and the user id read back from it are inverse up to surrounding white
  space.\<close>

theorem UserStateKey_roundtrip: "UserIDFromStateKey (UserStateKey mxid) = go_trim mxid"
  by (simp add: UserIDFromStateKey_def Let_def) (simp add: UserStateKey_def)

text \<open>C37: a policy that \<open>resolveRoom\<close> returns is well typed: a product room has one of the three room
  types and the sender is owner or plain member of it, and the peer of a direct room is only looked up
  there; in any other room the sender has no standing at all.\<close>

theorem resolveRoom_typed:
  assumes "resolveRoom ids q roomID senderMXID = Inr p"
  shows "if pol_Product p
     then pol_RoomType p \<in> {RoomTypeDirect, RoomTypeGroup, RoomTypeChannel} \<and>
          pol_SenderRole p \<in> {''owner'', ''member''} \<and>
          (pol_DirectPeerJoined p \<longrightarrow> pol_RoomType p = RoomTypeDirect)
     else pol_RoomType p = [] \<and> \<not> pol_SenderJoined p \<and> \<not> SenderPrivileged p"
  using resolveRoom_ok [OF assms] by (simp add: policy_ok_def)

text \<open>A room server for examples: a room created by one user, with one joined member and agent bindings.\<close>

definition sample_ids :: matrix_ids where
  "sample_ids = \<lparr>mi_NewUserID = (\<lambda>s. if go_has_prefix s ''@'' then Inr s else Inl (OtherError ''bad user id'')),
     mi_NewRoomID = (\<lambda>s. if go_has_prefix s ''!'' then Inr s else Inl (OtherError ''bad room id'')),
     mi_SplitID = (\<lambda>s. if go_has_prefix s ''@'' then
        Some (takeWhile (\<lambda>c. c \<noteq> CHR '':'') (drop 1 s), drop 1 (dropWhile (\<lambda>c. c \<noteq> CHR '':'') s)) else None)\<rparr>"

definition state_row :: "string \<Rightarrow> string \<Rightarrow> string \<Rightarrow> content \<Rightarrow> state_tuple \<times> headered_event option" where
  "state_row ty key sender c = ((ty, key), Some \<lparr>he_Sender = sender, he_StateKey = Some key, he_Content = Some c\<rparr>)"

definition sample_querier :: "state_events \<Rightarrow> querier" where
  "sample_querier st = \<lparr>q_CurrentState = (\<lambda>_ _ _. Inr st),
     q_MembershipForUser = (\<lambda>_ _. Inr \<lparr>mr_Membership = ''leave'', mr_IsInRoom = False, mr_RoomExists = True,
        mr_HasBeenInRoom = True\<rparr>),
     q_UserIDForSender = None, q_InvitePending = None, q_EventsByID = (\<lambda>_ _. Inr [])\<rparr>"

definition sample_state :: "string \<Rightarrow> string \<Rightarrow> content list \<Rightarrow> state_events" where
  "sample_state ty joined agent =
     state_row ''m.room.create'' [] ''@a:x'' [(''type'', AStr ty)] #
     state_row ''m.room.member'' joined joined [(''membership'', AStr ''join'')] #
     map (state_row ''io.dirextalk.group_agent'' [] ''@a:x'') agent"

abbreviation channel_state :: "string \<Rightarrow> state_events" where
  "channel_state joined \<equiv> sample_state RoomTypeChannel joined []"

definition sample_policy :: "string \<Rightarrow> string \<Rightarrow> room_policy" where
  "sample_policy ty u = default_policy\<lparr>pol_Product := True, pol_RoomType := ty,
     pol_SenderRole := (if u = ''@a:x'' then ''owner'' else ''member''), pol_SenderMembership := ''join'',
     pol_SenderJoined := True\<rparr>"

lemma sample_create:
  "state_event (sample_state ty u agent) (''m.room.create'', []) =
     Some \<lparr>he_Sender = ''@a:x'', he_StateKey = Some [], he_Content = Some [(''type'', AStr ty)]\<rparr>"
  by (simp add: state_event_def sample_state_def state_row_def gget_def)

lemma sample_room:
  assumes "ty \<in> {RoomTypeGroup, RoomTypeChannel}"
  shows "resolveRoom sample_ids (sample_querier (sample_state ty u agent)) room u = Inr (sample_policy ty u)"
proof -
  let ?s = "sample_state ty u agent"
  have t: "go_trim ty = ty" "go_trim ''join'' = ''join''" "go_trim ''@a:x'' = ''@a:x''" "ty \<noteq> RoomTypeDirect"
    "isDirextalkRoomType ty"
    using assms by (auto simp: isDirextalkRoomType_def RoomTypeChannel_def RoomTypeGroup_def RoomTypeDirect_def
        go_trim_ascii ascii_graph_def)
  have skip: "state_event ?s (e, k) = None" if "e \<notin> {''m.room.create'', ''m.room.member'', ''io.dirextalk.group_agent''}" for e k
    using that by (induction agent) (auto simp: state_event_def sample_state_def state_row_def gget_def)
  have e: "state_event ?s (RoomProfileEventType, k) = None" "state_event ?s (MemberPolicyEventType, k) = None"
    "state_event ?s (JoinRequestEventType, k) = None" for k
    by (rule skip, simp add: RoomProfileEventType_def MemberPolicyEventType_def JoinRequestEventType_def)+
  have m: "state_event ?s (''m.room.member'', u) =
      Some \<lparr>he_Sender = u, he_StateKey = Some u, he_Content = Some [(''membership'', AStr ''join'')]\<rparr>"
    by (simp add: state_event_def sample_state_def state_row_def gget_def)
  have w: "room_wide ?s = Inr (default_policy\<lparr>pol_Product := True, pol_RoomType := ty\<rparr>)"
    by (simp add: room_wide_def e sample_create eventContent_def with_room_type_def Let_def cget_def gget_def
        stringValue_def t)
  show ?thesis
    by (simp add: resolveRoom_def sample_querier_def w e m sample_create user_state_def
        authoritativeCreateSenderMXID_def sample_ids_def t eventContent_def senderMembership_def Let_def cget_def
        gget_def stringValue_def boolValue_def go_has_prefix_def gempty_def)
      (simp add: sample_policy_def default_policy_def zero_policy_def)
qed

lemma sample_channel:
  "resolveRoom sample_ids (sample_querier (channel_state u)) room u = Inr (sample_policy RoomTypeChannel u)"
  by (rule sample_room) simp

theorem resolveRoom_typed_witness:
  "\<exists>p. resolveRoom sample_ids (sample_querier (channel_state ''@b:x'')) ''!r:x'' ''@b:x'' = Inr p \<and>
     pol_Product p \<and> pol_SenderRole p \<in> {''owner'', ''member''}"
  using resolveRoom_typed [OF sample_channel, of "''@b:x''"] sample_channel [of "''@b:x''" "''!r:x''"]
  by (simp add: sample_policy_def)


end
