(* ===== verification/Product_Policy.thy ===== *)
theory Product_Policy
  imports Policy_Room
begin

text \<open>
  The decisions of the product policy (\<open>productpolicy.go\<close>, \<open>group_agent.go\<close>): which client events,
  redactions and membership changes a product room accepts.  \<open>Inr ()\<close> is acceptance, every refusal is an
  error value.  The lemmas characterise acceptance exactly; the properties draw the security consequences:
  who may post, ban or remove, who may join, and that the agent identity cannot be impersonated.
\<close>

section \<open>Group agent messages\<close>

definition IsNativeYingMXID :: "matrix_ids \<Rightarrow> string \<Rightarrow> bool" where
  "IsNativeYingMXID ids mxid = (case mi_SplitID ids mxid of None \<Rightarrow> False | Some (local, _) \<Rightarrow> local = ''ying'')"

text \<open>
  \<open>encoding/json\<close> into a struct: every member whose key matches the field name up to case is decoded in
  turn, \<open>null\<close> leaves the field alone, a value of another type is an error.
\<close>

text \<open>The value of the decimal text that prints a \<open>float64\<close>; the integer it denotes, if it does.\<close>

definition decimal_value :: "string \<Rightarrow> rat" where
  "decimal_value s =
     (let (neg, s) = (case s of [] \<Rightarrow> (False, []) | c # cs \<Rightarrow> if c = CHR ''-'' then (True, cs) else (False, s));
          m = takeWhile (\<lambda>c. c \<noteq> CHR ''e'') s;
          ex = parse_int64 (drop 1 (dropWhile (\<lambda>c. c \<noteq> CHR ''e'') s));
          whole = takeWhile (\<lambda>c. c \<noteq> CHR ''.'') m;
          frac = drop 1 (dropWhile (\<lambda>c. c \<noteq> CHR ''.'') m);
          v = of_nat (digits_val (whole @ frac)) / 10 ^ length frac;
          v = (if 0 \<le> ex then v * 10 ^ nat ex else v / 10 ^ nat (- ex))
      in if neg then - v else v)"

definition integral_value :: "rat \<Rightarrow> int option" where
  "integral_value v = (if of_int (floor v) = v \<and> int64_range (floor v) then Some (floor v) else None)"

text \<open>An integer literal, as \<open>encoding/json\<close> accepts it for an \<open>int64\<close> field.\<close>

definition int_literal :: "string \<Rightarrow> int option" where
  "int_literal s =
     (let (neg, ds) = (case s of [] \<Rightarrow> (False, []) | c # cs \<Rightarrow> if c = CHR ''-'' then (True, cs) else (False, s));
          n = (if neg then - int (digits_val ds) else int (digits_val ds))
      in if ds = [] \<or> \<not> list_all is_digit ds \<or> \<not> int64_range n then None else Some n)"

fun decode_string :: "any \<Rightarrow> string \<Rightarrow> string option" where
  "decode_string ANil old = Some old"
| "decode_string (AStr s) old = Some s"
| "decode_string _ old = None"

fun decode_bool :: "any \<Rightarrow> bool \<Rightarrow> bool option" where
  "decode_bool ANil old = Some old"
| "decode_bool (ABool b) old = Some b"
| "decode_bool _ old = None"

fun decode_int64 :: "any \<Rightarrow> int \<Rightarrow> int option" where
  "decode_int64 ANil old = Some old"
| "decode_int64 (AFloat _ t) old = integral_value (decimal_value t)"
| "decode_int64 (AInt n) old = Some n"
| "decode_int64 (AInt64 n) old = Some n"
| "decode_int64 (ANumber s) old = int_literal s"
| "decode_int64 _ old = None"

fun decode_field :: "(any \<Rightarrow> 'a \<Rightarrow> 'a option) \<Rightarrow> string \<Rightarrow> (string \<times> any) list \<Rightarrow> 'a \<Rightarrow> 'a option" where
  "decode_field decode name [] old = Some old"
| "decode_field decode name ((k, v) # rest) old =
     (if go_equal_fold k name
      then (case decode v old of None \<Rightarrow> None | Some x \<Rightarrow> decode_field decode name rest x)
      else decode_field decode name rest old)"

fun json_object :: "any \<Rightarrow> (string \<times> any) list option" where
  "json_object ANil = Some []"
| "json_object (AMap es) = Some (go_sort key_lt es)"
| "json_object _ = None"

record agent_origin =
  ao_OwnerMXID :: string
  ao_AgentMXID :: string
  ao_BindingRevision :: int
  ao_RequestID :: string

definition decode_origin :: "any \<Rightarrow> agent_origin option" where
  "decode_origin marker = (case json_object marker of
       None \<Rightarrow> None
     | Some es \<Rightarrow>
         (case (decode_field decode_string ''owner_mxid'' es [], decode_field decode_string ''agent_mxid'' es [],
                decode_field decode_int64 ''binding_revision'' es 0, decode_field decode_string ''request_id'' es []) of
            (Some own, Some agent, Some rv, Some req) \<Rightarrow>
              Some \<lparr>ao_OwnerMXID = own, ao_AgentMXID = agent, ao_BindingRevision = rv, ao_RequestID = req\<rparr>
          | _ \<Rightarrow> None))"

record agent_state =
  as_Enabled :: bool
  as_RoomID :: string
  as_OwnerMXID :: string
  as_AgentMXID :: string
  as_Revision :: int

definition decode_agent_state :: "content \<Rightarrow> agent_state option" where
  "decode_agent_state es =
     (case (decode_field decode_bool ''enabled'' es False, decode_field decode_string ''room_id'' es [],
            decode_field decode_string ''owner_mxid'' es [], decode_field decode_string ''agent_mxid'' es [],
            decode_field decode_int64 ''revision'' es 0) of
        (Some en, Some room, Some own, Some agent, Some rv) \<Rightarrow>
          Some \<lparr>as_Enabled = en, as_RoomID = room, as_OwnerMXID = own, as_AgentMXID = agent, as_Revision = rv\<rparr>
      | _ \<Rightarrow> None)"

record client_event_request =
  ce_RoomID :: string
  ce_SenderMXID :: string
  ce_EventType :: string
  ce_Content :: content
  ce_BlockChecker :: "(string \<Rightarrow> string \<Rightarrow> bool result) option"

definition agent_marked :: "matrix_ids \<Rightarrow> client_event_request \<Rightarrow> bool" where
  "agent_marked ids r \<longleftrightarrow> chas (ce_Content r) ''io.dirextalk.group_agent'' \<or>
     go_has_prefix (stringValue (cget (ce_Content r) ''msg_type'')) ''group_agent_'' \<or>
     IsNativeYingMXID ids (ce_SenderMXID r)"

definition validateGroupAgentMessage :: "matrix_ids \<Rightarrow> querier \<Rightarrow> client_event_request \<Rightarrow> unit result" where
  "validateGroupAgentMessage ids q r =
     (if \<not> agent_marked ids r then Inr ()
      else case decode_origin (cget (ce_Content r) ''io.dirextalk.group_agent'') of
             None \<Rightarrow> Forbidden ''group Agent identity cannot be impersonated''
           | Some origin \<Rightarrow>
               if \<not> IsNativeYingMXID ids (ce_SenderMXID r) \<or> ao_AgentMXID origin \<noteq> ce_SenderMXID r \<or>
                  ao_BindingRevision origin \<le> 0 \<or> ao_RequestID origin = []
               then Forbidden ''group Agent identity cannot be impersonated''
               else rbind (q_CurrentState q (ce_RoomID r) False [(''io.dirextalk.group_agent'', [])]) (\<lambda>state.
                 case state_event state (''io.dirextalk.group_agent'', []) of
                   None \<Rightarrow> Forbidden ''group Agent binding is unavailable''
                 | Some event \<Rightarrow>
                     (case Option.bind (he_Content event) decode_agent_state of
                        None \<Rightarrow> Forbidden ''group Agent binding was revoked''
                      | Some binding \<Rightarrow>
                          if \<not> as_Enabled binding \<or> as_RoomID binding \<noteq> ce_RoomID r \<or>
                             as_OwnerMXID binding \<noteq> ao_OwnerMXID origin \<or> as_AgentMXID binding \<noteq> ce_SenderMXID r \<or>
                             as_Revision binding \<noteq> ao_BindingRevision origin
                          then Forbidden ''group Agent binding was revoked'' else Inr ())))"

section \<open>Client events\<close>

definition ValidateBlockedDirectMessage ::
  "matrix_ids \<Rightarrow> querier option \<Rightarrow> client_event_request \<Rightarrow> bool result" where
  "ValidateBlockedDirectMessage ids querier req = (case (querier, ce_BlockChecker req) of
       (Some q, Some block) \<Rightarrow>
         rbind (resolveRoom ids q (ce_RoomID req) (ce_SenderMXID req)) (\<lambda>room.
         if \<not> pol_Product room \<or> pol_RoomType room \<noteq> RoomTypeDirect then Inr False
         else block (go_trim (ce_RoomID req)) (go_trim (ce_SenderMXID req)))
     | _ \<Rightarrow> Inr False)"

definition isProductPolicyEvent :: "string \<Rightarrow> bool" where
  "isProductPolicyEvent eventType \<longleftrightarrow> eventType = ''m.room.message'' \<or> eventType = ''m.reaction''"

definition channelEventKind :: "content \<Rightarrow> string" where
  "channelEventKind content = stringValue (cget content ''p2p_kind'')"

definition isChannelPostEvent :: "content \<Rightarrow> bool" where
  "isChannelPostEvent content \<longleftrightarrow> go_equal_fold (channelEventKind content) ''channel_post''"

definition isChannelCommentEvent :: "string \<Rightarrow> content \<Rightarrow> bool" where
  "isChannelCommentEvent eventType content \<longleftrightarrow>
     (if eventType = ''m.reaction'' then True
      else go_equal_fold (channelEventKind content) ''channel_comment'')"

definition channelPostCommentsEnabled :: "querier \<Rightarrow> string \<Rightarrow> string \<Rightarrow> bool result" where
  "channelPostCommentsEnabled q roomID postID =
     (let postID = go_trim postID; tuple = (ChannelPostSettingsEventType, postID)
      in if postID = [] then Inr False
         else rbind (q_CurrentState q roomID False [tuple]) (\<lambda>res.
           case state_event res tuple of
             None \<Rightarrow> Inr True
           | Some event \<Rightarrow>
               rbind (eventContent (Some event)) (\<lambda>content.
               let statePostID = go_trim (stringValue (cget content ''post_id''))
               in if statePostID \<noteq> [] \<and> statePostID \<noteq> postID then Inr False
                  else (case cget content ''comments_enabled'' of ABool enabled \<Rightarrow> Inr enabled | _ \<Rightarrow> Inr False))))"

text \<open>The checks for senders of a channel that are not its owner.\<close>

definition channel_check :: "querier \<Rightarrow> client_event_request \<Rightarrow> string \<Rightarrow> room_policy \<Rightarrow> unit result" where
  "channel_check q req eventType room =
     (if isChannelPostEvent (ce_Content req)
      then Forbidden ''sender cannot create channel posts in this dirextalk room''
      else if isChannelCommentEvent eventType (ce_Content req) then
        (if \<not> pol_CommentsEnabled room then Forbidden ''channel comments are disabled''
         else if \<not> go_equal_fold (channelEventKind (ce_Content req)) ''channel_comment'' then Inr ()
         else rbind (channelPostCommentsEnabled q (ce_RoomID req) (stringValue (cget (ce_Content req) ''post_id'')))
           (\<lambda>enabled. if \<not> enabled then Forbidden ''comments are disabled for this channel post'' else Inr ()))
      else Inr ())"

definition ValidateClientEvent :: "matrix_ids \<Rightarrow> querier option \<Rightarrow> client_event_request \<Rightarrow> unit result" where
  "ValidateClientEvent ids querier req = (case querier of None \<Rightarrow> Inr () | Some q \<Rightarrow>
     (let eventType = go_trim (ce_EventType req)
      in if \<not> isProductPolicyEvent eventType then Inr ()
         else rbind (resolveRoom ids q (ce_RoomID req) (ce_SenderMXID req)) (\<lambda>room.
           if \<not> pol_Product room then Inr ()
           else if pol_Dissolved room then Forbidden ''dirextalk room is dissolved''
           else if \<not> pol_SenderJoined room then Forbidden ''sender is not joined to the dirextalk room''
           else if pol_SenderMuted room then Forbidden ''sender is muted in the dirextalk room''
           else rbind (if pol_RoomType room = RoomTypeGroup \<and> eventType = ''m.room.message''
                       then validateGroupAgentMessage ids q req else Inr ()) (\<lambda>_.
             if pol_RoomType room = RoomTypeDirect \<and> \<not> pol_DirectPeerJoined room
             then Forbidden ''direct room peer is not joined to the dirextalk room''
             else rbind (if pol_RoomType room = RoomTypeDirect \<and> eventType = ''m.room.message'' \<and>
                            ce_BlockChecker req \<noteq> None
                         then ValidateBlockedDirectMessage ids querier req else Inr False) (\<lambda>blocked.
               if blocked then Forbidden ''sender is blocked in this dirextalk direct room''
               else if pol_RoomType room = RoomTypeChannel \<and> \<not> SenderPrivileged room
               then channel_check q req eventType room
               else Inr ())))))"

section \<open>Redactions\<close>

definition queryTargetEvent :: "querier \<Rightarrow> string \<Rightarrow> string \<Rightarrow> headered_event option result" where
  "queryTargetEvent q roomID eventID =
     rbind (q_EventsByID q roomID [eventID]) (\<lambda>events. Inr (case events of [] \<Rightarrow> None | e # _ \<Rightarrow> Some e))"

definition ValidateClientRedaction ::
  "matrix_ids \<Rightarrow> querier option \<Rightarrow> string \<Rightarrow> string \<Rightarrow> string \<Rightarrow> unit result" where
  "ValidateClientRedaction ids querier roomID senderMXID targetEventID = (case querier of None \<Rightarrow> Inr () | Some q \<Rightarrow>
     rbind (resolveRoom ids q roomID senderMXID) (\<lambda>room.
     if \<not> pol_Product room then Inr ()
     else if pol_Dissolved room then Forbidden ''dirextalk room is dissolved''
     else if \<not> pol_SenderJoined room then Forbidden ''sender is not joined to the dirextalk room''
     else if pol_SenderMuted room then Forbidden ''sender is muted in the dirextalk room''
     else rbind (queryTargetEvent q roomID targetEventID) (\<lambda>target.
       case target of
         None \<Rightarrow> Inr ()
       | Some e \<Rightarrow>
           if he_Sender e = senderMXID \<or> SenderPrivileged room then Inr ()
           else Forbidden ''sender cannot redact another sender in dirextalk room'')))"

section \<open>Membership changes\<close>

definition validateJoin :: "room_policy \<Rightarrow> unit result" where
  "validateJoin room =
     (if pol_SenderJoined room then Inr ()
      else if go_equal_fold (pol_SenderMembership room) ''invite'' then Inr ()
      else if pol_RoomType room = RoomTypeChannel then
        (if go_equal_fold (pol_JoinPolicy room) ''open'' then Inr ()
         else if go_equal_fold (pol_JoinRequestStatus room) ''approved'' then Inr ()
         else Forbidden ''channel join requires approved join request'')
      else if pol_RoomType room = RoomTypeGroup then Forbidden ''group join requires invite''
      else if pol_RoomType room = RoomTypeDirect then Forbidden ''direct room join requires invite''
      else Forbidden ''sender is not joined to the dirextalk room'')"

record client_membership_request =
  cr_GroupAgentControl :: bool
  cr_RoomID :: string
  cr_SenderMXID :: string
  cr_TargetMXID :: string
  cr_Membership :: string

definition invite_check :: "matrix_ids \<Rightarrow> querier \<Rightarrow> client_membership_request \<Rightarrow> room_policy \<Rightarrow> unit result" where
  "invite_check ids q req room =
     (if DirectPeerInvite room (cr_SenderMXID req) (cr_TargetMXID req) then Inr ()
      else rbind (if pol_RoomType room = RoomTypeDirect
                  then priorRoomMember ids q (cr_RoomID req) (cr_TargetMXID req) else Inr False) (\<lambda>wasMember.
        if wasMember then Inr ()
        else if pol_RoomType room = RoomTypeGroup \<and> go_equal_fold (pol_InvitePolicy room) ''member'' then Inr ()
        else if SenderPrivileged room then Inr ()
        else Forbidden ''sender cannot invite members to this dirextalk room''))"

definition ValidateClientMembership ::
  "matrix_ids \<Rightarrow> querier option \<Rightarrow> client_membership_request \<Rightarrow> unit result" where
  "ValidateClientMembership ids querier req = (case querier of None \<Rightarrow> Inr () | Some q \<Rightarrow>
     rbind (resolveRoom ids q (cr_RoomID req) (cr_SenderMXID req)) (\<lambda>room.
     if \<not> pol_Product room then Inr ()
     else let membership = go_lower (go_trim (cr_Membership req));
              self = (go_trim (cr_SenderMXID req) = go_trim (cr_TargetMXID req))
       in if pol_RoomType room = RoomTypeGroup \<and> membership = ''invite'' \<and>
             IsNativeYingMXID ids (cr_TargetMXID req) \<and> \<not> cr_GroupAgentControl req
          then Forbidden ''Native Ying can only be enabled by the group owner''
          else if membership = ''join'' \<and> self then
            (if pol_Dissolved room then Forbidden ''dirextalk room is dissolved'' else validateJoin room)
          else if membership = ''leave'' \<and> self then Inr ()
          else if pol_Dissolved room then Forbidden ''dirextalk room is dissolved''
          else if \<not> pol_SenderJoined room then Forbidden ''sender is not joined to the dirextalk room''
          else if membership = ''invite'' then invite_check ids q req room
          else if membership = ''ban'' then
            (if SenderPrivileged room then Inr () else Forbidden ''sender cannot ban members in this dirextalk room'')
          else if membership = ''leave'' then
            (if SenderPrivileged room then Inr ()
             else Forbidden ''sender cannot remove another member from this dirextalk room'')
          else Inr ()))"

section \<open>Lemmas\<close>

lemma channel_check_accepts:
  "channel_check q req ty room = Inr () \<longleftrightarrow>
     \<not> isChannelPostEvent (ce_Content req) \<and>
     (isChannelCommentEvent ty (ce_Content req) \<longrightarrow> pol_CommentsEnabled room) \<and>
     (go_equal_fold (channelEventKind (ce_Content req)) ''channel_comment'' \<longrightarrow>
        channelPostCommentsEnabled q (ce_RoomID req) (stringValue (cget (ce_Content req) ''post_id'')) = Inr True)"
  by (auto simp: channel_check_def rbind_Inr_iff isChannelCommentEvent_def split: if_splits)

lemma validateJoin_accepts:
  "validateJoin room = Inr () \<longleftrightarrow> pol_SenderJoined room \<or> go_equal_fold (pol_SenderMembership room) ''invite'' \<or>
     pol_RoomType room = RoomTypeChannel \<and>
       (go_equal_fold (pol_JoinPolicy room) ''open'' \<or> go_equal_fold (pol_JoinRequestStatus room) ''approved'')"
  by (simp add: validateJoin_def)

lemma unit_result_Inr: "(r :: unit result) = Inr u \<longleftrightarrow> r = Inr ()"
  by simp

text \<open>The decisions in a product room, once it is resolved.\<close>

lemma ValidateClientEvent_product:
  assumes "isProductPolicyEvent (go_trim (ce_EventType req))"
    and "resolveRoom ids q (ce_RoomID req) (ce_SenderMXID req) = Inr room" and "pol_Product room"
  shows "ValidateClientEvent ids (Some q) req = Inr () \<longleftrightarrow>
    \<not> pol_Dissolved room \<and> pol_SenderJoined room \<and> \<not> pol_SenderMuted room \<and>
    (pol_RoomType room = RoomTypeGroup \<and> go_trim (ce_EventType req) = ''m.room.message'' \<longrightarrow>
       validateGroupAgentMessage ids q req = Inr ()) \<and>
    (pol_RoomType room = RoomTypeDirect \<longrightarrow> pol_DirectPeerJoined room) \<and>
    (pol_RoomType room = RoomTypeDirect \<and> go_trim (ce_EventType req) = ''m.room.message'' \<longrightarrow>
       (\<forall>block. ce_BlockChecker req = Some block \<longrightarrow>
          block (go_trim (ce_RoomID req)) (go_trim (ce_SenderMXID req)) = Inr False)) \<and>
    (pol_RoomType room = RoomTypeChannel \<and> \<not> SenderPrivileged room \<longrightarrow>
       channel_check q req (go_trim (ce_EventType req)) room = Inr ())"
proof -
  have types: "RoomTypeGroup \<noteq> RoomTypeDirect" "RoomTypeChannel \<noteq> RoomTypeDirect" "RoomTypeChannel \<noteq> RoomTypeGroup"
    by (simp_all add: RoomTypeGroup_def RoomTypeDirect_def RoomTypeChannel_def)
  have blocked: "ValidateBlockedDirectMessage ids (Some q) req =
      (if pol_RoomType room = RoomTypeDirect then block (go_trim (ce_RoomID req)) (go_trim (ce_SenderMXID req)) else Inr False)"
    if "ce_BlockChecker req = Some block" for block
    using assms(2,3) that by (simp add: ValidateBlockedDirectMessage_def)
  note d = ValidateClientEvent_def Let_def assms
  show ?thesis
  proof (cases "pol_RoomType room = RoomTypeDirect")
    case True
    with types show ?thesis
      by (cases "ce_BlockChecker req") (auto simp: d rbind_Inr_iff blocked)
  next
    case False
    with types show ?thesis
      by (cases "pol_RoomType room = RoomTypeGroup") (auto simp: d rbind_Inr_iff)
  qed
qed

lemma ValidateClientMembership_product:
  assumes "resolveRoom ids q (cr_RoomID req) (cr_SenderMXID req) = Inr room" and "pol_Product room"
    and "membership = go_lower (go_trim (cr_Membership req))"
    and "self \<longleftrightarrow> go_trim (cr_SenderMXID req) = go_trim (cr_TargetMXID req)"
  shows "membership = ''join'' \<Longrightarrow> self \<Longrightarrow>
      ValidateClientMembership ids (Some q) req = Inr () \<longleftrightarrow> \<not> pol_Dissolved room \<and> validateJoin room = Inr ()"
    and "membership = ''leave'' \<Longrightarrow> self \<Longrightarrow> ValidateClientMembership ids (Some q) req = Inr ()"
    and "membership = ''ban'' \<or> membership = ''leave'' \<and> \<not> self \<Longrightarrow>
      ValidateClientMembership ids (Some q) req = Inr () \<longleftrightarrow>
        \<not> pol_Dissolved room \<and> pol_SenderJoined room \<and> SenderPrivileged room"
    and "membership = ''invite'' \<Longrightarrow>
      ValidateClientMembership ids (Some q) req = Inr () \<longleftrightarrow>
        \<not> (pol_RoomType room = RoomTypeGroup \<and> IsNativeYingMXID ids (cr_TargetMXID req) \<and> \<not> cr_GroupAgentControl req) \<and>
        \<not> pol_Dissolved room \<and> pol_SenderJoined room \<and> invite_check ids q req room = Inr ()"
  using assms by (auto simp: ValidateClientMembership_def Let_def)

lemma validateGroupAgentMessage_accepts:
  assumes "validateGroupAgentMessage ids q r = Inr ()" and "agent_marked ids r"
  shows "\<exists>origin state event binding.
    IsNativeYingMXID ids (ce_SenderMXID r) \<and>
    decode_origin (cget (ce_Content r) ''io.dirextalk.group_agent'') = Some origin \<and>
    q_CurrentState q (ce_RoomID r) False [(''io.dirextalk.group_agent'', [])] = Inr state \<and>
    state_event state (''io.dirextalk.group_agent'', []) = Some event \<and>
    Option.bind (he_Content event) decode_agent_state = Some binding \<and>
    ao_AgentMXID origin = ce_SenderMXID r \<and> ao_RequestID origin \<noteq> [] \<and> 0 < ao_BindingRevision origin \<and>
    as_Enabled binding \<and> as_RoomID binding = ce_RoomID r \<and> as_AgentMXID binding = ce_SenderMXID r \<and>
    as_OwnerMXID binding = ao_OwnerMXID origin \<and> as_Revision binding = ao_BindingRevision origin"
proof -
  let ?m = "cget (ce_Content r) ''io.dirextalk.group_agent''"
  note v = assms(1) [unfolded validateGroupAgentMessage_def]
  obtain origin where o: "decode_origin ?m = Some origin"
    using v assms(2) by (cases "decode_origin ?m") simp_all
  have g: "IsNativeYingMXID ids (ce_SenderMXID r)" "ao_AgentMXID origin = ce_SenderMXID r"
    "0 < ao_BindingRevision origin" "ao_RequestID origin \<noteq> []"
    using v assms(2) o by (auto split: if_splits)
  then obtain state where s: "q_CurrentState q (ce_RoomID r) False [(''io.dirextalk.group_agent'', [])] = Inr state"
    using v assms(2) o by (cases "q_CurrentState q (ce_RoomID r) False [(''io.dirextalk.group_agent'', [])]") simp_all
  then obtain event where e: "state_event state (''io.dirextalk.group_agent'', []) = Some event"
    using v assms(2) o g by (cases "state_event state (''io.dirextalk.group_agent'', [])") simp_all
  then obtain b where b: "Option.bind (he_Content event) decode_agent_state = Some b"
    using v assms(2) o g s by (cases "Option.bind (he_Content event) decode_agent_state") simp_all
  have "as_Enabled b" "as_RoomID b = ce_RoomID r" "as_AgentMXID b = ce_SenderMXID r"
    "as_OwnerMXID b = ao_OwnerMXID origin" "as_Revision b = ao_BindingRevision origin"
    using v assms(2) o g s e b by (auto split: if_splits)
  with o g s e b show ?thesis by blast
qed

section \<open>Properties\<close>

text \<open>C3: a message or reaction in a product room is accepted exactly when the room is not dissolved, the
  sender is joined and not muted, a group message does not claim the agent identity without right, the
  peer of a direct room is joined and has not blocked the sender, and in a channel a sender other than
  the owner does not post, comments or reacts only while comments are enabled, and comments only under a
  post that allows it.\<close>

theorem ValidateClientEvent_accepts:
  assumes "isProductPolicyEvent (go_trim (ce_EventType req))"
    and "resolveRoom ids q (ce_RoomID req) (ce_SenderMXID req) = Inr room" and "pol_Product room"
  shows "ValidateClientEvent ids (Some q) req = Inr () \<longleftrightarrow>
    \<not> pol_Dissolved room \<and> pol_SenderJoined room \<and> \<not> pol_SenderMuted room \<and>
    (pol_RoomType room = RoomTypeGroup \<and> go_trim (ce_EventType req) = ''m.room.message'' \<longrightarrow>
       validateGroupAgentMessage ids q req = Inr ()) \<and>
    (pol_RoomType room = RoomTypeDirect \<longrightarrow> pol_DirectPeerJoined room) \<and>
    (pol_RoomType room = RoomTypeDirect \<and> go_trim (ce_EventType req) = ''m.room.message'' \<longrightarrow>
       (\<forall>block. ce_BlockChecker req = Some block \<longrightarrow>
          block (go_trim (ce_RoomID req)) (go_trim (ce_SenderMXID req)) = Inr False)) \<and>
    (pol_RoomType room = RoomTypeChannel \<and> \<not> SenderPrivileged room \<longrightarrow>
       \<not> isChannelPostEvent (ce_Content req) \<and>
       (isChannelCommentEvent (go_trim (ce_EventType req)) (ce_Content req) \<longrightarrow> pol_CommentsEnabled room) \<and>
       (go_equal_fold (channelEventKind (ce_Content req)) ''channel_comment'' \<longrightarrow>
          channelPostCommentsEnabled q (ce_RoomID req) (stringValue (cget (ce_Content req) ''post_id'')) = Inr True))"
  unfolding ValidateClientEvent_product [OF assms] channel_check_accepts ..

theorem ValidateClientEvent_accepts_witness:
  "let q = sample_querier (channel_state ''@b:x'');
       post = [(''p2p_kind'', AStr ''channel_post'')];
       req = (\<lambda>c. \<lparr>ce_RoomID = ''!r:x'', ce_SenderMXID = ''@b:x'', ce_EventType = ''m.room.message'', ce_Content = c,
                ce_BlockChecker = None\<rparr>)
   in ValidateClientEvent sample_ids (Some q) (req post) \<noteq> Inr () \<and>
      ValidateClientEvent sample_ids (Some q) (req []) = Inr ()"
proof -
  define q where "q = sample_querier (channel_state ''@b:x'')"
  define req where "req = (\<lambda>c. \<lparr>ce_RoomID = ''!r:x'', ce_SenderMXID = ''@b:x'', ce_EventType = ''m.room.message'',
    ce_Content = c, ce_BlockChecker = None\<rparr>)"
  define room where "room = sample_policy RoomTypeChannel ''@b:x''"
  have trims: "go_trim ''m.room.message'' = ''m.room.message''" "go_trim ''channel_post'' = ''channel_post''"
    by (simp_all add: go_trim_ascii ascii_graph_def)
  have r: "resolveRoom sample_ids q (ce_RoomID (req c)) (ce_SenderMXID (req c)) = Inr room" "pol_Product room"
    "isProductPolicyEvent (go_trim (ce_EventType (req c)))" for c
    using sample_channel [of "''@b:x''"]
    by (simp_all add: q_def room_def req_def isProductPolicyEvent_def trims sample_policy_def)
  have kind: "channelEventKind [] = []" "channelEventKind [(''p2p_kind'', AStr ''channel_post'')] = ''channel_post''"
    by (simp_all add: channelEventKind_def cget_def gget_def stringValue_def trims)
  have fold: "\<not> go_equal_fold [] ''channel_post''" "\<not> go_equal_fold [] ''channel_comment''"
    by code_simp+
  have types: "RoomTypeChannel \<noteq> RoomTypeDirect" "RoomTypeChannel \<noteq> RoomTypeGroup"
    by (simp_all add: RoomTypeGroup_def RoomTypeDirect_def RoomTypeChannel_def)
  have c: "ce_Content (req c) = c" "ce_EventType (req c) = ''m.room.message''" for c by (simp_all add: req_def)
  have "ValidateClientEvent sample_ids (Some q) (req [(''p2p_kind'', AStr ''channel_post'')]) \<noteq> Inr ()"
    using ValidateClientEvent_accepts [OF r(3,1,2)] types
    by (simp add: c kind room_def sample_policy_def isChannelPostEvent_def go_equal_fold_def SenderPrivileged_roles)
  moreover have "ValidateClientEvent sample_ids (Some q) (req []) = Inr ()"
    using ValidateClientEvent_accepts [OF r(3,1,2), of "[]"] types
    by (simp add: c kind fold trims room_def sample_policy_def isChannelPostEvent_def isChannelCommentEvent_def default_policy_def
        zero_policy_def)
  ultimately show ?thesis by (simp add: Let_def q_def req_def)
qed

text \<open>C4: moderation belongs to the creator: a ban, or the removal of another member, is accepted in a
  product room only when the room is not dissolved and the sender is joined and is the user whom the
  room's create event names as its creator.\<close>

theorem moderation_needs_creator:
  assumes "resolveRoom ids q (cr_RoomID req) (cr_SenderMXID req) = Inr room" and "pol_Product room"
    and "go_lower (go_trim (cr_Membership req)) = ''ban'' \<or>
      go_lower (go_trim (cr_Membership req)) = ''leave'' \<and> go_trim (cr_SenderMXID req) \<noteq> go_trim (cr_TargetMXID req)"
  shows "\<exists>res creator. q_CurrentState q (cr_RoomID req) False (room_tuples (cr_SenderMXID req)) = Inr res \<and>
    authoritativeCreateSenderMXID ids q (cr_RoomID req) (state_event res (''m.room.create'', [])) = Inr creator \<and>
    (ValidateClientMembership ids (Some q) req = Inr () \<longleftrightarrow>
       \<not> pol_Dissolved room \<and> pol_SenderJoined room \<and> creator = cr_SenderMXID req)"
  using resolveRoom_privileged [OF assms(1,2)] ValidateClientMembership_product(3) [OF assms(1,2) refl refl assms(3)]
  by blast

theorem moderation_needs_creator_witness:
  "let req = (\<lambda>u. \<lparr>cr_GroupAgentControl = False, cr_RoomID = ''!r:x'', cr_SenderMXID = u, cr_TargetMXID = ''@c:x'',
               cr_Membership = ''Ban''\<rparr>);
       try = (\<lambda>u. ValidateClientMembership sample_ids (Some (sample_querier (channel_state u))) (req u))
   in try ''@a:x'' = Inr () \<and> try ''@b:x'' \<noteq> Inr ()"
proof -
  define req where "req = (\<lambda>u. \<lparr>cr_GroupAgentControl = False, cr_RoomID = ''!r:x'', cr_SenderMXID = u,
    cr_TargetMXID = ''@c:x'', cr_Membership = ''Ban''\<rparr>)"
  define room where "room = sample_policy RoomTypeChannel"
  have r: "resolveRoom sample_ids (sample_querier (channel_state u)) (cr_RoomID (req u)) (cr_SenderMXID (req u)) = Inr (room u)"
    "pol_Product (room u)" for u
    by (simp_all add: sample_channel room_def req_def) (simp add: sample_policy_def)
  have ban: "go_lower (go_trim ''Ban'') = ''ban''" by code_simp
  have b: "go_lower (go_trim (cr_Membership (req u))) = ''ban'' \<or>
      go_lower (go_trim (cr_Membership (req u))) = ''leave'' \<and> go_trim (cr_SenderMXID (req u)) \<noteq> go_trim (cr_TargetMXID (req u))" for u
    using ban by (simp add: req_def)
  have "ValidateClientMembership sample_ids (Some (sample_querier (channel_state u))) (req u) = Inr () \<longleftrightarrow> u = ''@a:x''" for u
    using moderation_needs_creator [OF r [of u] b]
    by (auto simp: sample_querier_def authoritativeCreateSenderMXID_def sample_create sample_ids_def go_has_prefix_def
        req_def room_def sample_policy_def default_policy_def zero_policy_def go_trim_ascii ascii_graph_def)
  then show ?thesis by (simp add: Let_def req_def)
qed



text \<open>C30: joining a product room on one's own is accepted exactly when the room is not dissolved and the
  user is already joined or invited, or the room is a channel that is open or has approved the user's
  join request.\<close>

theorem join_accepts:
  assumes "resolveRoom ids q (cr_RoomID req) (cr_SenderMXID req) = Inr room" and "pol_Product room"
    and "go_lower (go_trim (cr_Membership req)) = ''join''"
    and "go_trim (cr_SenderMXID req) = go_trim (cr_TargetMXID req)"
  shows "ValidateClientMembership ids (Some q) req = Inr () \<longleftrightarrow>
    \<not> pol_Dissolved room \<and>
    (pol_SenderJoined room \<or> go_equal_fold (pol_SenderMembership room) ''invite'' \<or>
     pol_RoomType room = RoomTypeChannel \<and>
       (go_equal_fold (pol_JoinPolicy room) ''open'' \<or> go_equal_fold (pol_JoinRequestStatus room) ''approved''))"
  using ValidateClientMembership_product(1) [OF assms(1,2) refl refl assms(3,4)]
  by (simp add: validateJoin_accepts)

theorem join_accepts_witness:
  "ValidateClientMembership sample_ids (Some (sample_querier (channel_state ''@b:x'')))
     \<lparr>cr_GroupAgentControl = False, cr_RoomID = ''!r:x'', cr_SenderMXID = ''@b:x'', cr_TargetMXID = ''@b:x'',
      cr_Membership = ''join''\<rparr> = Inr ()"
proof (subst join_accepts [where room = "sample_policy RoomTypeChannel ''@b:x''"])
  show "go_lower (go_trim (cr_Membership \<lparr>cr_GroupAgentControl = False, cr_RoomID = ''!r:x'', cr_SenderMXID = ''@b:x'',
      cr_TargetMXID = ''@b:x'', cr_Membership = ''join''\<rparr>)) = ''join''"
    by code_simp
qed (simp_all add: sample_channel sample_policy_def default_policy_def zero_policy_def)

text \<open>Leaving is never refused: a user's own departure from a product room is accepted whatever the
  state of the room, dissolved or not.\<close>

theorem leave_never_refused:
  assumes "resolveRoom ids q (cr_RoomID req) (cr_SenderMXID req) = Inr room"
    and "go_lower (go_trim (cr_Membership req)) = ''leave''"
    and "go_trim (cr_SenderMXID req) = go_trim (cr_TargetMXID req)"
  shows "ValidateClientMembership ids (Some q) req = Inr ()"
proof (cases "pol_Product room")
  case True
  show ?thesis by (rule ValidateClientMembership_product(2) [OF assms(1) True refl refl assms(2,3)])
next
  case False
  with assms(1) show ?thesis by (simp add: ValidateClientMembership_def)
qed

theorem leave_never_refused_witness:
  "ValidateClientMembership sample_ids (Some (sample_querier (channel_state ''@b:x'')))
     \<lparr>cr_GroupAgentControl = False, cr_RoomID = ''!r:x'', cr_SenderMXID = ''@b:x'', cr_TargetMXID = ''@b:x'',
      cr_Membership = ''leave''\<rparr> = Inr ()"
  by (rule leave_never_refused [where room = "sample_policy RoomTypeChannel ''@b:x''"])
    (simp_all add: sample_channel, code_simp)

end
