(* ===== verification/Go_Time.thy ===== *)
theory Go_Time
  imports Go_Values "HOL-Library.Monad_Syntax"
begin

text \<open>
  The part of Go's \<open>time\<close> package the server uses.  A \<open>time.Time\<close> is its number of nanoseconds since the
  Unix epoch; \<open>rfc3339nano\<close> is \<open>t.UTC().Format(time.RFC3339Nano)\<close> and \<open>parse_rfc3339nano\<close> is
  \<open>time.Parse(time.RFC3339Nano, s)\<close>, with the leniencies of the library: an hour of one digit, a fraction
  of any length after a period or a comma, offsets of up to 24 hours and 60 minutes.  The property is
  that parsing inverts formatting for every instant of the years 0 to 9999.
\<close>

section \<open>Calendar\<close>

text \<open>The proleptic Gregorian date of a day number, in years that start in March.\<close>

definition year_start :: "int \<Rightarrow> int" where
  "year_start y = 365 * y + y div 4 - y div 100"

definition month_start :: "int \<Rightarrow> int" where
  "month_start mp = (153 * mp + 2) div 5"

definition era_year :: "int \<Rightarrow> int \<times> int" where
  "era_year r =
     (let c = min 3 (r div 36524); r = r - 36524 * c;
          q = r div 1461; r = r - 1461 * q;
          n = min 3 (r div 365)
      in (100 * c + 4 * q + n, r - 365 * n))"

definition civil_date :: "int \<Rightarrow> int \<times> int \<times> int" where
  "civil_date days =
     (let z = days + 719468; (yoe, doy) = era_year (z mod 146097);
          mp = (5 * doy + 2) div 153;
          d = doy - month_start mp + 1;
          m = (if mp < 10 then mp + 3 else mp - 9);
          y = yoe + 400 * (z div 146097)
      in (if m \<le> 2 then y + 1 else y, m, d))"

definition days_from_civil :: "int \<Rightarrow> int \<Rightarrow> int \<Rightarrow> int" where
  "days_from_civil y m d =
     (let y = (if m \<le> 2 then y - 1 else y); era = y div 400; yoe = y mod 400;
          doy = month_start (if m > 2 then m - 3 else m + 9) + d - 1
      in era * 146097 + year_start yoe + doy - 719468)"

definition leap_year :: "int \<Rightarrow> bool" where
  "leap_year y \<longleftrightarrow> y mod 4 = 0 \<and> (y mod 100 \<noteq> 0 \<or> y mod 400 = 0)"

definition days_in :: "int \<Rightarrow> int \<Rightarrow> int" where
  "days_in y m = (if m = 2 then (if leap_year y then 29 else 28) else if m \<in> {4, 6, 9, 11} then 30 else 31)"

section \<open>Formatting\<close>

definition pad :: "nat \<Rightarrow> int \<Rightarrow> string" where
  "pad w n = (let ds = nat_digits (nat (abs n))
              in (if n < 0 then ''-'' else []) @ replicate (w - length ds) (CHR ''0'') @ ds)"

definition fraction :: "int \<Rightarrow> string" where
  "fraction nanos = (if nanos = 0 then []
     else CHR ''.'' # rev (dropWhile (\<lambda>c. c = CHR ''0'') (rev (pad 9 nanos))))"

definition rfc3339nano :: "int \<Rightarrow> string" where
  "rfc3339nano t =
     (let nanos = t mod 10 ^ 9; secs = t div 10 ^ 9; sod = secs mod 86400; (y, m, d) = civil_date (secs div 86400)
      in pad 4 y @ ''-'' @ pad 2 m @ ''-'' @ pad 2 d @ ''T'' @ pad 2 (sod div 3600) @ '':'' @
         pad 2 (sod div 60 mod 60) @ '':'' @ pad 2 (sod mod 60) @ fraction nanos @ ''Z'')"

section \<open>Parsing\<close>

text \<open>
  \<open>getnum\<close> reads two digits, or one when the layout's field is not fixed; \<open>skip\<close> reads a literal.
\<close>

definition getnum :: "bool \<Rightarrow> string \<Rightarrow> (int \<times> string) option" where
  "getnum fixed s = (case s of
       c # d # rest \<Rightarrow>
         if \<not> is_digit c then None
         else if is_digit d then Some (int (digits_val [c, d]), rest)
         else if fixed then None else Some (int (digit_val c), d # rest)
     | [c] \<Rightarrow> if is_digit c \<and> \<not> fixed then Some (int (digit_val c), []) else None
     | [] \<Rightarrow> None)"

definition skip :: "char \<Rightarrow> string \<Rightarrow> string option" where
  "skip c s = (case s of d # rest \<Rightarrow> if d = c then Some rest else None | [] \<Rightarrow> None)"

definition parse_year :: "string \<Rightarrow> (int \<times> string) option" where
  "parse_year s =
     (if length s < 4 \<or> \<not> list_all is_digit (take 4 s) then None
      else Some (int (digits_val (take 4 s)), drop 4 s))"

definition parse_fraction :: "string \<Rightarrow> int \<times> string" where
  "parse_fraction s = (case s of
       c # d # rest \<Rightarrow>
         if (c = CHR ''.'' \<or> c = CHR '','') \<and> is_digit d
         then (let ds = take 9 (takeWhile is_digit (d # rest))
               in (int (digits_val ds) * 10 ^ (9 - length ds), dropWhile is_digit (d # rest)))
         else (0, s)
     | _ \<Rightarrow> (0, s))"

definition parse_zone :: "string \<Rightarrow> (int \<times> string) option" where
  "parse_zone s = (case s of
       [] \<Rightarrow> None
     | c # rest \<Rightarrow>
         if c = CHR ''Z'' then Some (0, rest)
         else if length s < 6 \<or> s ! 3 \<noteq> CHR '':'' then None
         else do {
           (hh, _) \<leftarrow> getnum True (take 2 rest);
           (mm, _) \<leftarrow> getnum True (take 2 (drop 4 s));
           if hh > 24 \<or> mm > 60 then None
           else if c = CHR ''+'' then Some ((hh * 60 + mm) * 60, drop 6 s)
           else if c = CHR ''-'' then Some (- ((hh * 60 + mm) * 60), drop 6 s)
           else None })"

definition parse_day :: "string \<Rightarrow> (int \<times> string) option" where
  "parse_day s = do {
     (y, s) \<leftarrow> parse_year s; s \<leftarrow> skip (CHR ''-'') s;
     (m, s) \<leftarrow> getnum True s; s \<leftarrow> skip (CHR ''-'') s;
     (d, s) \<leftarrow> getnum True s;
     if m < 1 \<or> m > 12 \<or> d < 1 \<or> d > days_in y m then None
     else Some (days_from_civil y m d, s) }"

definition parse_clock :: "string \<Rightarrow> (int \<times> string) option" where
  "parse_clock s = do {
     (hour, s) \<leftarrow> getnum False s; s \<leftarrow> skip (CHR '':'') s;
     (minute, s) \<leftarrow> getnum True s; s \<leftarrow> skip (CHR '':'') s;
     (second, s) \<leftarrow> getnum True s;
     if hour \<ge> 24 \<or> minute \<ge> 60 \<or> second \<ge> 60 then None
     else Some (hour * 3600 + minute * 60 + second, s) }"

definition parse_rfc3339nano :: "string \<Rightarrow> int option" where
  "parse_rfc3339nano s = do {
     (days, s) \<leftarrow> parse_day s; s \<leftarrow> skip (CHR ''T'') s;
     (secs, s) \<leftarrow> parse_clock s;
     (nanos, s) \<leftarrow> Some (parse_fraction s);
     (offset, s) \<leftarrow> parse_zone s;
     if s \<noteq> [] then None else Some ((days * 86400 + secs - offset) * 10 ^ 9 + nanos) }"

text \<open>\<open>time.Time{}\<close>: the first of January of the year one.\<close>

definition zero_time :: int where
  "zero_time = days_from_civil 1 1 1 * 86400 * 10 ^ 9"

text \<open>\<open>t.Sub(u)\<close> saturates at the range of a \<open>Duration\<close>; \<open>d.Milliseconds()\<close> truncates.\<close>

definition time_sub :: "int \<Rightarrow> int \<Rightarrow> int" where
  "time_sub t u = clamp64 (t - u)"

definition milliseconds :: "int \<Rightarrow> int" where
  "milliseconds d = (if d < 0 then - (- d div 10 ^ 6) else d div 10 ^ 6)"

section \<open>Calendar lemmas\<close>

lemma era_year_spec:
  assumes "0 \<le> r" and "r < 146097" and "era_year r = (y, doy)"
  shows "0 \<le> y \<and> y < 400 \<and> year_start y + doy = r \<and> 0 \<le> doy \<and> doy \<le> (if leap_year (y + 1) then 365 else 364)"
proof -
  define c where "c = min 3 (r div 36524)"
  define s where "s = r - 36524 * c"
  define q where "q = s div 1461"
  define u where "u = s - 1461 * q"
  define n where "n = min 3 (u div 365)"
  have e: "y = 100 * c + 4 * q + n" "doy = u - 365 * n"
    using assms(3) by (simp_all add: era_year_def Let_def c_def s_def q_def u_def n_def)
  have c: "0 \<le> c" "c \<le> 3" "0 \<le> s" "s \<le> 36524" "c < 3 \<Longrightarrow> s < 36524"
    using assms(1,2) unfolding c_def s_def by linarith+
  have q: "0 \<le> q" "q \<le> 24" "0 \<le> u" "u \<le> 1460" "c < 3 \<Longrightarrow> q = 24 \<Longrightarrow> u < 1460"
    using c unfolding q_def u_def by linarith+
  have n: "0 \<le> n" "n \<le> 3" "0 \<le> doy" "doy \<le> 365" "n < 3 \<Longrightarrow> doy < 365" "doy = 365 \<Longrightarrow> u = 1460 \<and> n = 3"
    using q unfolding n_def e(2) by linarith+
  have div: "y div 4 = 25 * c + q" "y div 100 = c" using e(1) c q n by linarith+
  then have d: "y div 4 = 25 * c + q" "y div 100 = c" "y mod 4 = n"
    using e(1) minus_mult_div_eq_mod [of y 4] by linarith+
  have "year_start y + doy = r"
    unfolding year_start_def d using e s_def u_def by linarith
  moreover have "leap_year (y + 1)" if "doy = 365"
  proof -
    have n3: "n = 3" and u: "u = 1460" using n(6) [OF that] by auto
    have "(y + 1) mod 4 = 0" using d(3) n3 by presburger
    moreover have "(y + 1) mod 400 = 0" if "q = 24"
      using c(1,2) q(5) [OF _ that] u e(1) n3 that by fastforce
    moreover have "(y + 1) mod 100 \<noteq> 0" if "q \<noteq> 24"
    proof -
      have "y + 1 = (4 * q + 4) + 100 * c" using e(1) n3 by simp
      then have "(y + 1) mod 100 = (4 * q + 4) mod 100" by (metis mod_mult_self2)
      also have "\<dots> = 4 * q + 4" using q that by (intro mod_pos_pos_trivial) linarith+
      finally show ?thesis using q(1) by linarith
    qed
    ultimately show ?thesis unfolding leap_year_def by (cases "q = 24") simp_all
  qed
  moreover have "0 \<le> y" "y < 400" using e(1) c(1,2) q(1,2) n(1,2) by linarith+
  moreover have "doy = 365 \<or> doy \<le> 364" using n(4) by linarith
  ultimately show ?thesis using n(3,4) by (cases "leap_year (y + 1)") auto
qed

lemma month_of_year:
  assumes "0 \<le> doy" and "doy \<le> 365"
  defines "mp \<equiv> (5 * doy + 2) div 153"
  shows "0 \<le> mp \<and> mp \<le> 11 \<and> month_start mp \<le> doy \<and> doy < month_start (mp + 1)"
proof -
  have "0 \<le> mp" "mp \<le> 11" using assms(1,2) unfolding mp_def by linarith+
  moreover have lo: "153 * mp \<le> 5 * doy + 2" and hi: "5 * doy + 2 < 153 * mp + 153" unfolding mp_def by linarith+
  have "(153 * mp + 2) div 5 \<le> doy" using lo by linarith
  moreover have "5 * (doy + 1) \<le> 153 * (mp + 1) + 2" using hi by simp
  ultimately have "(153 * mp + 2) div 5 \<le> doy" "doy + 1 \<le> (153 * (mp + 1) + 2) div 5"
    "0 \<le> mp" "mp \<le> 11"
    using zdiv_mono1 [of "5 * (doy + 1)" "153 * (mp + 1) + 2" 5] by simp_all
  then show ?thesis by (simp add: month_start_def)
qed

lemma leap_year_era: "leap_year (y + 400 * k) \<longleftrightarrow> leap_year y"
proof -
  have "(y + 400 * k) mod 4 = y mod 4" using mod_mult_self2 [of y 4 "100 * k"] by simp
  moreover have "(y + 400 * k) mod 100 = y mod 100" using mod_mult_self2 [of y 100 "4 * k"] by simp
  ultimately show ?thesis by (simp add: leap_year_def)
qed

lemma month_lengths:
  assumes "0 \<le> mp" and "mp \<le> 11" and "doy < month_start (mp + 1)"
    and "doy \<le> (if leap_year y then 365 else 364)"
  shows "doy - month_start mp + 1 \<le> days_in y (if mp < 10 then mp + 3 else mp - 9)"
proof -
  have "mp \<in> {0, 1, 2, 3, 4, 5, 6, 7, 8, 9, 10, 11}"
    using assms(1,2) by (simp add: insert_iff) presburger
  then show ?thesis using assms(3,4) by (elim insertE) (simp_all add: month_start_def days_in_def split: if_splits)
qed

text \<open>The date of a day is valid and determines the day.\<close>

lemma civil_date_spec:
  assumes "civil_date days = (y, m, d)"
  shows "1 \<le> m \<and> m \<le> 12 \<and> 1 \<le> d \<and> d \<le> days_in y m \<and> days_from_civil y m d = days"
proof -
  define z where "z = days + 719468"
  obtain yoe doy where ed: "era_year (z mod 146097) = (yoe, doy)" by (cases "era_year (z mod 146097)")
  define mp where "mp = (5 * doy + 2) div 153"
  have E: "0 \<le> yoe" "yoe < 400" "year_start yoe + doy = z mod 146097" "0 \<le> doy"
    "doy \<le> (if leap_year (yoe + 1) then 365 else 364)"
    using era_year_spec [OF _ _ ed] by simp_all
  then have "doy \<le> 365" by (simp split: if_splits)
  from month_of_year [OF E(4) this] have M: "0 \<le> mp" "mp \<le> 11" "month_start mp \<le> doy" "doy < month_start (mp + 1)"
    by (simp_all add: mp_def)
  have r: "d = doy - month_start mp + 1" "m = (if mp < 10 then mp + 3 else mp - 9)"
    "y = (if m \<le> 2 then yoe + 400 * (z div 146097) + 1 else yoe + 400 * (z div 146097))"
    using assms ed by (auto simp: civil_date_def Let_def z_def mp_def split: prod.splits)
  have "m > 2 \<longleftrightarrow> mp < 10" using r(2) M by auto
  then have shift: "(if m > 2 then m - 3 else m + 9) = mp" "(if m \<le> 2 then y - 1 else y) = yoe + 400 * (z div 146097)"
    using r(2,3) by auto
  have "(yoe + 400 * (z div 146097)) div 400 = z div 146097" "(yoe + 400 * (z div 146097)) mod 400 = yoe"
    using E(1,2) by simp_all
  then have "days_from_civil y m d = z div 146097 * 146097 + year_start yoe + (month_start mp + d - 1) - 719468"
    unfolding days_from_civil_def Let_def shift by simp
  also have "\<dots> = days" using r(1) E(3) z_def div_mult_mod_eq [of z 146097] by linarith
  finally have "days_from_civil y m d = days" .
  moreover have "1 \<le> d" using r(1) M by simp
  moreover have "days_in y m = days_in (yoe + 1) m"
    using leap_year_era [of "yoe + 1" "z div 146097"] r(3)
    by (cases "m = 2") (simp_all add: days_in_def ac_simps)
  then have "d \<le> days_in y m" using month_lengths [OF M(1,2,4) E(5)] r(1,2) by simp
  moreover have "1 \<le> m" "m \<le> 12" using r(2) M by auto
  ultimately show ?thesis by blast
qed

section \<open>Digits\<close>

lemma length_nat_digits: "n < 10 ^ w \<Longrightarrow> 0 < w \<Longrightarrow> length (nat_digits n) \<le> w"
proof (induction n arbitrary: w rule: nat_digits.induct)
  case (1 n)
  show ?case
  proof (cases "n < 10")
    case True
    then show ?thesis using "1.prems" by (simp add: nat_digits.simps [of n])
  next
    case False
    then obtain v where v: "w = Suc v" "0 < v" using "1.prems" by (cases w; cases "w - 1") auto
    have "n div 10 < 10 ^ v" using "1.prems"(1) v(1) by (simp add: less_mult_imp_div_less mult.commute)
    then show ?thesis using "1.IH" [OF False _ v(2)] False v(1) by (simp add: nat_digits.simps [of n])
  qed
qed

lemma digits_val_zeros: "digits_val (replicate k (CHR ''0'') @ s) = digits_val s"
  by (induction k) (simp_all add: digits_val_def digit_val_def)

lemma digits_val_shift: "digits_val (s @ replicate k (CHR ''0'')) = digits_val s * 10 ^ k"
proof (induction k)
  case (Suc k)
  have "s @ replicate (Suc k) (CHR ''0'') = (s @ replicate k (CHR ''0'')) @ [CHR ''0'']"
    by (simp add: replicate_append_same)
  then show ?case using Suc by (simp only: digits_val_snoc) (simp add: digit_val_def)
qed simp

lemma pad_digits:
  assumes "0 \<le> n" and "n < 10 ^ w" and "0 < w"
  shows "length (pad w n) = w \<and> list_all is_digit (pad w n) \<and> int (digits_val (pad w n)) = n"
proof -
  have "nat n < 10 ^ w" using assms(1,2) by (simp add: nat_less_iff)
  then have "length (nat_digits (nat n)) \<le> w" using assms(3) by (rule length_nat_digits)
  moreover have "is_digit (CHR ''0'')" by (simp add: is_digit_def)
  ultimately show ?thesis using assms(1) nat_digits_digits [of "nat n"]
    by (auto simp: pad_def Let_def digits_val_zeros digits_val_nat_digits list_all_iff)
qed

lemma getnum_pad:
  assumes "0 \<le> n" and "n < 100"
  shows "getnum fixed (pad 2 n @ s) = Some (n, s)"
proof -
  have p: "length (pad 2 n) = 2" "list_all is_digit (pad 2 n)" "int (digits_val (pad 2 n)) = n"
    using pad_digits [of n 2] assms by simp_all
  then obtain c d where "pad 2 n = [c, d]" by (auto simp: numeral_2_eq_2 length_Suc_conv)
  then show ?thesis using p by (simp add: getnum_def)
qed

lemma parse_year_pad:
  assumes "0 \<le> y" and "y < 10000"
  shows "parse_year (pad 4 y @ s) = Some (y, s)"
  using pad_digits [of y 4] assms by (simp add: parse_year_def)

lemma skip_same: "skip c (c # s) = Some s"
  by (simp add: skip_def)

lemma parse_clock_pad:
  assumes "0 \<le> h" "h < 24" and "0 \<le> m" "m < 60" and "0 \<le> n" "n < 60"
  shows "parse_clock (pad 2 h @ '':'' @ pad 2 m @ '':'' @ pad 2 n @ s) = Some (h * 3600 + m * 60 + n, s)"
  using assms by (simp add: parse_clock_def getnum_pad skip_same)

lemma parse_fraction_inverse:
  assumes "0 \<le> n" and "n < 10 ^ 9"
  shows "parse_fraction (fraction n @ ''Z'') = (n, ''Z'')"
proof (cases "n = 0")
  case True
  then show ?thesis by (simp add: fraction_def parse_fraction_def)
next
  case False
  define ds where "ds = rev (dropWhile (\<lambda>c. c = CHR ''0'') (rev (pad 9 n)))"
  define k where "k = length (takeWhile (\<lambda>c. c = CHR ''0'') (rev (pad 9 n)))"
  have p: "length (pad 9 n) = 9" "list_all is_digit (pad 9 n)" "int (digits_val (pad 9 n)) = n"
    using pad_digits [of n 9] assms by simp_all
  have "takeWhile (\<lambda>c. c = CHR ''0'') (rev (pad 9 n)) = replicate k (CHR ''0'')"
    unfolding k_def by (rule replicate_eqI [symmetric, THEN sym]) (auto dest: set_takeWhileD)
  then have split: "pad 9 n = ds @ replicate k (CHR ''0'')"
    unfolding ds_def by (metis rev_append rev_replicate rev_rev_ident takeWhile_dropWhile_id)
  have len: "length ds + k = 9" using p(1) by (simp add: split)
  have dig: "list_all is_digit ds" using p(2) by (simp add: split)
  have val: "int (digits_val ds) * 10 ^ k = n" using p(3) by (simp add: split digits_val_shift)
  then have "ds \<noteq> []" using False by (auto simp: digits_val_def)
  then obtain d rest where d: "ds = d # rest" by (cases ds) auto
  have "takeWhile is_digit (ds @ ''Z'') = ds" "dropWhile is_digit (ds @ ''Z'') = ''Z''"
    using dig by (auto simp: takeWhile_append2 dropWhile_append2 list_all_iff is_digit_def)
  then show ?thesis using d dig len val False
    by (auto simp: fraction_def parse_fraction_def ds_def [symmetric] Let_def)
qed

section \<open>Characters of a formatted time\<close>

definition time_char :: "char \<Rightarrow> bool" where
  "time_char c \<longleftrightarrow> is_digit c \<or> c \<in> set ''-:TZ.''"

lemma pad_chars: "list_all time_char (pad w n)"
  using nat_digits_digits [of "nat (abs n)"]
  by (auto simp: pad_def Let_def list_all_iff time_char_def set_replicate_conv_if is_digit_def)

lemma fraction_chars: "list_all time_char (fraction n)"
proof -
  have "set (dropWhile P xs) \<subseteq> set xs" for P and xs :: string by (auto dest: set_dropWhileD)
  then show ?thesis using pad_chars [of 9 n] by (fastforce simp: fraction_def list_all_iff time_char_def)
qed

lemma rfc3339nano_chars: "list_all time_char (rfc3339nano t)"
proof -
  have "time_char (CHR ''-'')" "time_char (CHR '':'')" "time_char (CHR ''T'')" "time_char (CHR ''Z'')"
    by (simp_all add: time_char_def)
  then show ?thesis using pad_chars fraction_chars by (simp add: rfc3339nano_def Let_def split: prod.splits)
qed

lemma time_char_code: "time_char c \<Longrightarrow> of_char c \<in> {45 :: nat, 46, 58, 84, 90} \<or> 48 \<le> (of_char c :: nat) \<and> (of_char c :: nat) \<le> 57"
  by (auto simp: time_char_def is_digit_def less_eq_char_def)

lemma time_char_graph: "time_char c \<Longrightarrow> ascii_graph c"
  using time_char_code [of c] by (auto simp: ascii_graph_def less_eq_char_def)

lemma rfc3339nano_trim: "go_trim (rfc3339nano t) = rfc3339nano t"
proof -
  have "rfc3339nano t \<noteq> []" by (simp add: rfc3339nano_def Let_def split: prod.splits)
  moreover from this have "time_char (hd (rfc3339nano t))" "time_char (last (rfc3339nano t))"
    using rfc3339nano_chars [of t] by (simp_all add: list_all_iff)
  ultimately show ?thesis by (intro go_trim_ascii time_char_graph)
qed

section \<open>Round trip\<close>

lemma parse_rfc3339nano_format:
  assumes "civil_date (t div 10 ^ 9 div 86400) = (y, m, d)" and "0 \<le> y" and "y < 10000"
  shows "parse_rfc3339nano (rfc3339nano t) = Some t"
proof -
  define secs sod where "secs = t div 10 ^ 9" and "sod = secs mod 86400"
  have D: "1 \<le> m" "m \<le> 12" "1 \<le> d" "d \<le> days_in y m" "days_from_civil y m d = secs div 86400"
    using civil_date_spec [OF assms(1)] by (simp_all add: secs_def)
  then have "d < 100" "m < 100" by (simp_all add: days_in_def split: if_splits)
  then have day: "parse_day (pad 4 y @ ''-'' @ pad 2 m @ ''-'' @ pad 2 d @ s) = Some (secs div 86400, s)" for s
    using D assms(2,3) by (simp add: parse_day_def parse_year_pad getnum_pad skip_same)
  have S: "0 \<le> sod" "sod < 86400" by (simp_all add: sod_def)
  have H: "sod div 3600 < 24" "0 \<le> sod div 3600" using S by linarith+
  have "sod div 3600 = sod div 60 div 60" using zdiv_zmult2_eq [of 60 sod 60] by simp
  then have "sod div 3600 * 3600 + sod div 60 mod 60 * 60 + sod mod 60 = sod"
    using div_mult_mod_eq [of "sod div 60" 60] div_mult_mod_eq [of sod 60] by linarith
  then have clock: "parse_clock (pad 2 (sod div 3600) @ '':'' @ pad 2 (sod div 60 mod 60) @ '':'' @ pad 2 (sod mod 60) @ s)
      = Some (sod, s)" for s
    using parse_clock_pad [OF H(2,1), of "sod div 60 mod 60" "sod mod 60" s] by simp
  have txt_eq: "rfc3339nano t = pad 4 y @ ''-'' @ pad 2 m @ ''-'' @ pad 2 d @ ''T'' @ pad 2 (sod div 3600) @ '':'' @
      pad 2 (sod div 60 mod 60) @ '':'' @ pad 2 (sod mod 60) @ fraction (t mod 10 ^ 9) @ ''Z''"
    using assms(1) by (simp add: rfc3339nano_def Let_def secs_def sod_def)
  have "parse_rfc3339nano (rfc3339nano t) = Some ((secs div 86400 * 86400 + sod) * 10 ^ 9 + t mod 10 ^ 9)"
    using parse_fraction_inverse [of "t mod 10 ^ 9"] unfolding txt_eq
    by (simp add: parse_rfc3339nano_def day [simplified] clock [simplified] skip_same parse_zone_def)
  also have "\<dots> = Some t" unfolding sod_def secs_def by (simp only: div_mult_mod_eq)
  finally show ?thesis .
qed

text \<open>For every instant of the years 0 to 9999, parsing the RFC 3339 text gives the instant back, to the nanosecond.\<close>

theorem rfc3339nano_roundtrip:
  assumes "civil_date (t div 10 ^ 9 div 86400) = (y, m, d)" and "0 \<le> y" and "y < 10000"
  shows "parse_rfc3339nano (rfc3339nano t) = Some t"
  using assms by (rule parse_rfc3339nano_format)

theorem rfc3339nano_roundtrip_witness:
  "parse_rfc3339nano (rfc3339nano 951782400000000005) = Some 951782400000000005 \<and>
   rfc3339nano 951782400000000005 = ''2000-02-29T00:00:00.000000005Z''"
proof
  have "civil_date (951782400000000005 div 10 ^ 9 div 86400) = (2000, 2, 29)" by code_simp
  from rfc3339nano_roundtrip [OF this] show "parse_rfc3339nano (rfc3339nano 951782400000000005) = Some 951782400000000005"
    by simp
  show "rfc3339nano 951782400000000005 = ''2000-02-29T00:00:00.000000005Z''" by code_simp
qed

end
