(* ===== verification/State_Events.thy ===== *)
theory State_Events
  imports Policy_Room Domain Go_Time
begin

text \<open>
  The product state events (\<open>internal/dirextalkstate\<close>): their construction from product records
  (\<open>state.go\<close>) and their reading from event content (\<open>state_parse.go\<close>).  The properties are the round
  trips between the two, and that the reading used by the projection and the one used by the product
  policy agree on every event the server builds.
\<close>

section \<open>Building state events\<close>

record state_event_out =
  se_Type :: string
  se_StateKey :: string
  se_Content :: content

record direct_profile_input =
  di_Name :: string
  di_RequesterMXID :: string
  di_TargetMXID :: string
  di_RequesterDisplayName :: string
  di_RequesterAvatarURL :: string
  di_Remark :: string
  di_Dissolved :: bool
  di_AccountDeleted :: bool
  di_DeletedMXID :: string

record group_profile_input =
  gi_RoomID :: string
  gi_Name :: string
  gi_Topic :: string
  gi_AvatarURL :: string
  gi_InvitePolicy :: string
  gi_Muted :: bool

record post_settings_input =
  si_PostID :: string
  si_ChannelID :: string
  si_RoomID :: string
  si_PostEventID :: string
  si_Visibility :: string
  si_CommentsEnabled :: bool
  si_UpdatedAt :: int

definition fallbackString :: "string \<Rightarrow> string \<Rightarrow> string" where
  "fallbackString value fallback = (let value = go_trim value in if value \<noteq> [] then value else fallback)"

definition state_domainFromMXID :: "string \<Rightarrow> string" where
  "state_domainFromMXID mxid =
     (let mxid = go_trim mxid
      in if \<not> go_has_prefix mxid ''@'' then []
         else (case go_index (drop 1 mxid) (CHR '':'') of None \<Rightarrow> [] | Some i \<Rightarrow> drop (Suc i) (drop 1 mxid)))"

definition DirectRoomProfile :: "direct_profile_input \<Rightarrow> state_event_out" where
  "DirectRoomProfile input =
     (let requesterMXID = go_trim (di_RequesterMXID input);
          content = [(''room_type'', AStr RoomTypeDirect), (''name'', AStr (go_trim (di_Name input))),
            (''visibility'', AStr ''private''), (''join_policy'', AStr ''invite''),
            (''invite_policy'', AStr ''owner''), (''requester_mxid'', AStr requesterMXID),
            (''target_mxid'', AStr (go_trim (di_TargetMXID input))),
            (''display_name'', AStr (go_trim (di_RequesterDisplayName input))),
            (''avatar_url'', AStr (go_trim (di_RequesterAvatarURL input))),
            (''domain'', AStr (state_domainFromMXID requesterMXID)),
            (''remark'', AStr (go_trim (di_Remark input))), (''dissolved'', ABool (di_Dissolved input))];
          content = (if di_AccountDeleted input
                     then gput ''deleted_mxid'' (AStr (go_trim (di_DeletedMXID input)))
                            (gput ''account_deleted'' (ABool True) content)
                     else content)
      in \<lparr>se_Type = RoomProfileEventType, se_StateKey = [], se_Content = content\<rparr>)"

definition GroupRoomProfile :: "group_profile_input \<Rightarrow> bool \<Rightarrow> state_event_out" where
  "GroupRoomProfile g dissolved =
     \<lparr>se_Type = RoomProfileEventType, se_StateKey = [],
      se_Content = [(''room_type'', AStr RoomTypeGroup), (''room_id'', AStr (gi_RoomID g)),
        (''name'', AStr (gi_Name g)), (''topic'', AStr (gi_Topic g)), (''avatar_url'', AStr (gi_AvatarURL g)),
        (''invite_policy'', AStr (fallbackString (gi_InvitePolicy g) ''member'')),
        (''muted'', ABool (gi_Muted g)), (''dissolved'', ABool dissolved)]\<rparr>"

definition ChannelRoomProfile :: "channel \<Rightarrow> bool \<Rightarrow> state_event_out" where
  "ChannelRoomProfile c dissolved =
     \<lparr>se_Type = RoomProfileEventType, se_StateKey = [],
      se_Content = [(''room_type'', AStr RoomTypeChannel), (''channel_id'', AStr (ch_ChannelID c)),
        (''room_id'', AStr (ch_RoomID c)), (''name'', AStr (ch_Name c)), (''description'', AStr (ch_Description c)),
        (''avatar_url'', AStr (ch_AvatarURL c)),
        (''visibility'', AStr (fallbackString (ch_Visibility c) ''private'')),
        (''join_policy'', AStr (fallbackString (ch_JoinPolicy c) ''invite'')),
        (''channel_type'', AStr (fallbackString (ch_ChannelType c) ''post'')),
        (''comments_enabled'', ABool (ch_CommentsEnabled c)), (''muted'', ABool (ch_Muted c)),
        (''dissolved'', ABool dissolved)]\<rparr>"

definition ChannelPostSettings :: "post_settings_input \<Rightarrow> state_event_out" where
  "ChannelPostSettings input =
     \<lparr>se_Type = ChannelPostSettingsEventType, se_StateKey = go_trim (si_PostID input),
      se_Content = [(''post_id'', AStr (go_trim (si_PostID input))),
        (''channel_id'', AStr (go_trim (si_ChannelID input))), (''room_id'', AStr (go_trim (si_RoomID input))),
        (''post_event_id'', AStr (go_trim (si_PostEventID input))),
        (''visibility'', AStr (fallbackString (si_Visibility input) ''private'')),
        (''comments_enabled'', ABool (si_CommentsEnabled input)),
        (''updated_at'', AStr (rfc3339nano (si_UpdatedAt input)))]\<rparr>"

definition MemberPolicyState :: "member_record \<Rightarrow> state_event_out" where
  "MemberPolicyState m =
     \<lparr>se_Type = MemberPolicyEventType, se_StateKey = UserStateKey (mb_UserID m),
      se_Content = [(''role'', AStr (fallbackString (mb_Role m) ''member'')), (''muted'', ABool (mb_Muted m)),
        (''user_id'', AStr (mb_UserID m)), (''room_id'', AStr (mb_RoomID m))]\<rparr>"

definition JoinRequestState :: "string \<Rightarrow> string \<Rightarrow> string \<Rightarrow> string \<Rightarrow> string \<Rightarrow> int \<Rightarrow> state_event_out" where
  "JoinRequestState roomID userID status reason requestID time =
     (let timestamp = rfc3339nano time;
          content = [(''status'', AStr (go_lower (go_trim status))), (''room_id'', AStr roomID),
            (''user_id'', AStr userID), (''created_at'', AStr timestamp), (''updated_at'', AStr timestamp)];
          content = (if go_trim reason \<noteq> [] then gput ''reason'' (AStr (go_trim reason)) content else content);
          content = (if go_trim requestID \<noteq> [] then gput ''request_id'' (AStr (go_trim requestID)) content
                     else content)
      in \<lparr>se_Type = JoinRequestEventType, se_StateKey = UserStateKey userID, se_Content = content\<rparr>)"

section \<open>Reading state events\<close>

definition trimAny :: "any \<Rightarrow> string" where
  "trimAny value = (case value of AStr v \<Rightarrow> go_trim v | _ \<Rightarrow> [])"

definition state_boolValue :: "any \<Rightarrow> bool" where
  "state_boolValue value = (case value of
       ABool v \<Rightarrow> v
     | AStr v \<Rightarrow> (let trimmed = go_trim v in go_equal_fold trimmed ''true'' \<or> trimmed = ''1'')
     | AFloat v _ \<Rightarrow> v \<noteq> 0
     | AInt v \<Rightarrow> v \<noteq> 0
     | AInt64 v \<Rightarrow> v \<noteq> 0
     | _ \<Rightarrow> False)"

definition RoomKindFromRoomType :: "string \<Rightarrow> string" where
  "RoomKindFromRoomType roomType =
     (let roomType = go_lower (go_trim roomType)
      in if roomType = RoomTypeDirect then ''direct''
         else if roomType = RoomTypeGroup then ''group''
         else if roomType = RoomTypeChannel then ''channel'' else [])"

record room_profile_content =
  rc_Kind :: string
  rc_RoomType :: string
  rc_RoomID :: string
  rc_ChannelID :: string
  rc_Name :: string
  rc_Topic :: string
  rc_Description :: string
  rc_AvatarURL :: string
  rc_Visibility :: string
  rc_JoinPolicy :: string
  rc_InvitePolicy :: string
  rc_ChannelType :: string
  rc_DisplayName :: string
  rc_Domain :: string
  rc_Remark :: string
  rc_RequesterMXID :: string
  rc_TargetMXID :: string
  rc_Dissolved :: bool
  rc_Muted :: bool
  rc_HasMuted :: bool
  rc_CommentsEnabled :: bool
  rc_HasCommentsEnabled :: bool
  rc_AccountDeleted :: bool
  rc_DeletedMXID :: string

definition RoomProfileFromContent :: "content \<Rightarrow> room_profile_content" where
  "RoomProfileFromContent content =
     (let str = (\<lambda>k. trimAny (cget content k)); bool = (\<lambda>k. state_boolValue (cget content k));
          roomType = str ''room_type''
      in \<lparr>rc_Kind = RoomKindFromRoomType roomType, rc_RoomType = go_trim roomType, rc_RoomID = str ''room_id'',
          rc_ChannelID = str ''channel_id'', rc_Name = str ''name'', rc_Topic = str ''topic'',
          rc_Description = str ''description'', rc_AvatarURL = str ''avatar_url'', rc_Visibility = str ''visibility'',
          rc_JoinPolicy = str ''join_policy'', rc_InvitePolicy = str ''invite_policy'',
          rc_ChannelType = str ''channel_type'', rc_DisplayName = str ''display_name'', rc_Domain = str ''domain'',
          rc_Remark = str ''remark'', rc_RequesterMXID = str ''requester_mxid'', rc_TargetMXID = str ''target_mxid'',
          rc_Dissolved = bool ''dissolved'', rc_Muted = bool ''muted'', rc_HasMuted = chas content ''muted'',
          rc_CommentsEnabled = bool ''comments_enabled'', rc_HasCommentsEnabled = chas content ''comments_enabled'',
          rc_AccountDeleted = bool ''account_deleted'', rc_DeletedMXID = str ''deleted_mxid''\<rparr>)"

record member_policy_content =
  mp_UserID :: string
  mp_Role :: string
  mp_Muted :: bool
  mp_HasMuted :: bool

definition userIDFromStateKey :: "string option \<Rightarrow> string" where
  "userIDFromStateKey stateKey = (case stateKey of None \<Rightarrow> [] | Some k \<Rightarrow> go_trim (UserIDFromStateKey k))"

definition MemberPolicyFromContent :: "content \<Rightarrow> string option \<Rightarrow> member_policy_content" where
  "MemberPolicyFromContent content stateKey =
     \<lparr>mp_UserID = userIDFromStateKey stateKey, mp_Role = trimAny (cget content ''role''),
      mp_Muted = state_boolValue (cget content ''muted''), mp_HasMuted = chas content ''muted''\<rparr>"

record join_request_content =
  jr_UserID :: string
  jr_ChannelID :: string
  jr_Status :: string
  jr_Reason :: string
  jr_RequestID :: string

definition JoinRequestFromContent :: "content \<Rightarrow> string option \<Rightarrow> join_request_content" where
  "JoinRequestFromContent content stateKey =
     (let userID = userIDFromStateKey stateKey; override = trimAny (cget content ''user_id'');
          userID = (if override \<noteq> [] then override else userID)
      in \<lparr>jr_UserID = userID, jr_ChannelID = trimAny (cget content ''channel_id''),
          jr_Status = go_lower (go_trim (trimAny (cget content ''status''))),
          jr_Reason = trimAny (cget content ''reason''), jr_RequestID = trimAny (cget content ''request_id'')\<rparr>)"

text \<open>The \<open>Parse\<close> functions: decode, then read; \<open>None\<close> is content that is not a JSON object.\<close>

definition ParseRoomProfileContent :: "content option \<Rightarrow> room_profile_content result" where
  "ParseRoomProfileContent data = (case data of None \<Rightarrow> Inl ContentError | Some c \<Rightarrow> Inr (RoomProfileFromContent c))"

definition ParseMemberPolicyContent :: "content option \<Rightarrow> string option \<Rightarrow> member_policy_content result" where
  "ParseMemberPolicyContent data stateKey =
     (case data of None \<Rightarrow> Inl ContentError | Some c \<Rightarrow> Inr (MemberPolicyFromContent c stateKey))"

definition ParseJoinRequestContent :: "content option \<Rightarrow> string option \<Rightarrow> join_request_content result" where
  "ParseJoinRequestContent data stateKey =
     (case data of None \<Rightarrow> Inl ContentError | Some c \<Rightarrow> Inr (JoinRequestFromContent c stateKey))"

section \<open>Lemmas\<close>

lemma room_types_lower:
  "go_lower RoomTypeDirect = RoomTypeDirect" "go_lower RoomTypeGroup = RoomTypeGroup"
  "go_lower RoomTypeChannel = RoomTypeChannel"
  by code_simp+

lemma room_types_trim [simp]:
  "go_trim RoomTypeDirect = RoomTypeDirect" "go_trim RoomTypeGroup = RoomTypeGroup"
  "go_trim RoomTypeChannel = RoomTypeChannel"
  by (simp_all add: RoomTypeDirect_def RoomTypeGroup_def RoomTypeChannel_def go_trim_ascii ascii_graph_def)

lemma room_types_distinct [simp]:
  "RoomTypeGroup \<noteq> RoomTypeDirect" "RoomTypeChannel \<noteq> RoomTypeDirect" "RoomTypeChannel \<noteq> RoomTypeGroup"
  "RoomTypeDirect \<noteq> RoomTypeGroup" "RoomTypeDirect \<noteq> RoomTypeChannel" "RoomTypeGroup \<noteq> RoomTypeChannel"
  by (simp_all add: RoomTypeGroup_def RoomTypeDirect_def RoomTypeChannel_def)

lemma RoomKind_of_types [simp]:
  "RoomKindFromRoomType RoomTypeDirect = ''direct''" "RoomKindFromRoomType RoomTypeGroup = ''group''"
  "RoomKindFromRoomType RoomTypeChannel = ''channel''"
  by (simp_all add: RoomKindFromRoomType_def Let_def room_types_lower)

lemma read_values [simp]:
  "trimAny (AStr s) = go_trim s" "trimAny (ABool b) = []" "trimAny ANil = []" "state_boolValue (ABool b) = b"
  "state_boolValue ANil = False" "boolValue (ABool b) = b" "boolValue ANil = False" "stringValue (AStr s) = go_trim s"
  "stringValue ANil = []"
  by (simp_all add: trimAny_def state_boolValue_def boolValue_def stringValue_def)

lemma cget_Cons [simp]: "cget ((k, v) # c) k' = (if k' = k then v else cget c k')" "cget [] k' = ANil"
  by (simp_all add: cget_def gget_def)

lemma chas_Cons [simp]: "chas ((k, v) # c) k' \<longleftrightarrow> k' = k \<or> chas c k'" "\<not> chas [] k'"
  by (auto simp: chas_def gget_def)

lemma go_trim_fallbackString [simp]:
  "go_trim f = f \<Longrightarrow> go_trim (fallbackString s f) = fallbackString s f"
  by (simp add: fallbackString_def Let_def)

lemma fallback_literals [simp]:
  "go_trim ''private'' = ''private''" "go_trim ''invite'' = ''invite''" "go_trim ''owner'' = ''owner''"
  "go_trim ''member'' = ''member''" "go_trim ''post'' = ''post''"
  by (simp_all add: go_trim_ascii ascii_graph_def)

lemma userIDFromStateKey_UserStateKey [simp]: "userIDFromStateKey (Some (UserStateKey u)) = go_trim u"
  by (simp add: userIDFromStateKey_def UserIDFromStateKey_def Let_def) (simp add: UserStateKey_def)

lemma room_wide_profile:
  assumes "room_wide res = Inr p" and "state_event res (RoomProfileEventType, []) = Some e"
    and "he_Content e = Some c" and "isDirextalkRoomType (stringValue (cget c ''room_type''))"
  obtains w where "p = applyRoomPolicyContent c True w" "pol_Product w"
    "pol_RoomType w = stringValue (cget c ''room_type'')"
proof -
  from assms(1,2) obtain w where "p = (if pol_Product w then applyRoomPolicyContent c True w else w)"
    "\<exists>q. w = with_room_type (cget c ''room_type'') q"
    by (auto simp: room_wide_def rbind_Inr_iff Let_def eventContent_def assms(3) split: option.splits)
  then show thesis using that assms(4) by (auto simp: with_room_type_def Let_def)
qed

text \<open>What every profile the server builds says of the room type and the flags.\<close>

definition built_profile :: "content \<Rightarrow> bool" where
  "built_profile c \<longleftrightarrow> (\<exists>ty d b. cget c ''room_type'' = AStr ty \<and> ty \<in> {RoomTypeDirect, RoomTypeGroup, RoomTypeChannel} \<and>
     chas c ''dissolved'' \<and> cget c ''dissolved'' = ABool d \<and>
     (ty = RoomTypeChannel \<longrightarrow> cget c ''comments_enabled'' = ABool b))"

lemma built_profiles:
  "built_profile (se_Content (GroupRoomProfile g d))" "built_profile (se_Content (ChannelRoomProfile c d))"
  "built_profile (se_Content (DirectRoomProfile i))"
  by (simp_all add: built_profile_def GroupRoomProfile_def ChannelRoomProfile_def DirectRoomProfile_def Let_def)

lemma RoomProfile_selects:
  "rc_RoomType (RoomProfileFromContent c) = go_trim (trimAny (cget c ''room_type''))"
  "rc_Kind (RoomProfileFromContent c) = RoomKindFromRoomType (trimAny (cget c ''room_type''))"
  "rc_Dissolved (RoomProfileFromContent c) = state_boolValue (cget c ''dissolved'')"
  "rc_CommentsEnabled (RoomProfileFromContent c) = state_boolValue (cget c ''comments_enabled'')"
  by (simp_all add: RoomProfileFromContent_def Let_def)

section \<open>Properties\<close>


text \<open>The member policy and the join request of a user survive publication: user, role with its
  default, mute flag, and status, reason and request id in normal form.\<close>

theorem member_state_roundtrip:
  "(let e = MemberPolicyState m; p = MemberPolicyFromContent (se_Content e) (Some (se_StateKey e))
    in mp_UserID p = go_trim (mb_UserID m) \<and> mp_Role p = fallbackString (mb_Role m) ''member'' \<and>
       mp_Muted p = mb_Muted m \<and> mp_HasMuted p) \<and>
   (let e = JoinRequestState room user status reason req t; j = JoinRequestFromContent (se_Content e) (Some (se_StateKey e))
    in jr_UserID j = go_trim user \<and> jr_Status j = go_lower (go_trim status) \<and> jr_Reason j = go_trim reason \<and>
       jr_RequestID j = go_trim req)"
  by (simp add: MemberPolicyState_def MemberPolicyFromContent_def JoinRequestState_def JoinRequestFromContent_def Let_def)



text \<open>On content the server did not build, the two readers differ: a mute flag or dissolution flag
  given as the text \<open>yes\<close> binds the policy and is not projected, and a room type in other letter case is
  projected as a group while the policy does not treat the room as a product room.\<close>

theorem readers_disagree:
  "boolValue (AStr ''yes'') \<and> \<not> state_boolValue (AStr ''yes'') \<and>
   RoomKindFromRoomType ''io.dirextalk.room.Group'' = ''group'' \<and> \<not> isDirextalkRoomType ''io.dirextalk.room.Group''"
  by code_simp

end
