(* ===== verification/Action_Registry.thy ===== *)
theory Action_Registry
  imports Go_Values
begin

text \<open>
  The ProductCore action boundary (\<open>p2p/internal/action\<close>): the tolerant readers of action parameters
  (\<open>params.go\<close>), the error values (\<open>action.go\<close>) and the registry that combines the handler maps of the
  modules (\<open>registry.go\<close>).  Handlers are opaque values.  The properties: a refused merge leaves the
  registry unchanged, and a registry that validates after any sequence of merges serves exactly the
  published actions, each by one module; the list readers return trimmed, non-empty, distinct values in
  order of first occurrence; integers stay in the range of \<open>int64\<close>.
\<close>

section \<open>Parameters\<close>

definition Params_String :: "any \<Rightarrow> string" where
  "Params_String value = (case value of AStr v \<Rightarrow> go_trim v | ANumber v \<Rightarrow> go_trim v | _ \<Rightarrow> [])"

text \<open>The loop of \<open>normalizedStrings\<close>, with the values seen so far.\<close>

fun normalized_from :: "string set \<Rightarrow> string list \<Rightarrow> string list" where
  "normalized_from seen [] = []"
| "normalized_from seen (v # vs) =
     (let v = go_trim v
      in if v = [] then normalized_from seen vs
         else if v \<in> seen then normalized_from seen vs
         else v # normalized_from (insert v seen) vs)"

definition normalizedStrings :: "string list \<Rightarrow> string list" where
  "normalizedStrings = normalized_from {}"

definition Params_Strings :: "any \<Rightarrow> string list" where
  "Params_Strings value = (case value of
       AStrs v \<Rightarrow> normalizedStrings v | AList v \<Rightarrow> normalizedStrings (map Params_String v) | _ \<Rightarrow> [])"

text \<open>
  \<open>int64(v)\<close> of a \<open>float64\<close> out of range is left to the implementation by the language; \<open>f\<close> is that
  value.
\<close>

definition Params_Int64 :: "(rat \<Rightarrow> int) \<Rightarrow> any \<Rightarrow> int" where
  "Params_Int64 f value = (case value of
       AInt64 v \<Rightarrow> v
     | AInt v \<Rightarrow> v
     | AFloat v _ \<Rightarrow> if int64_range (float_trunc v) then float_trunc v else f v
     | ANumber v \<Rightarrow> parse_int64 v
     | AStr v \<Rightarrow> parse_int64 (go_trim v)
     | _ \<Rightarrow> 0)"

definition Params_Int64s :: "(rat \<Rightarrow> int) \<Rightarrow> any \<Rightarrow> int list" where
  "Params_Int64s f value = (case value of
       AList v \<Rightarrow> filter (\<lambda>n. n \<noteq> 0) (map (Params_Int64 f) v)
     | _ \<Rightarrow> if Params_Int64 f value \<noteq> 0 then [Params_Int64 f value] else [])"

definition Params_Bool :: "any \<Rightarrow> bool" where
  "Params_Bool value = (case value of
       ABool v \<Rightarrow> v
     | AStr v \<Rightarrow> go_equal_fold (go_trim v) ''true'' \<or> go_trim v = ''1''
     | AFloat v _ \<Rightarrow> v \<noteq> 0
     | AInt v \<Rightarrow> v \<noteq> 0
     | AInt64 v \<Rightarrow> v \<noteq> 0
     | _ \<Rightarrow> False)"

definition Params_BoolMap :: "any \<Rightarrow> (string, bool) gomap" where
  "Params_BoolMap value = (case value of
       AMap raw \<Rightarrow> fold (\<lambda>(key, v) flags.
         (let key = go_trim key in if key = [] then flags else gput key (Params_Bool v) flags)) raw gempty
     | _ \<Rightarrow> gempty)"

fun FirstString :: "content \<Rightarrow> string list \<Rightarrow> string" where
  "FirstString p [] = []"
| "FirstString p (key # keys) =
     (let value = Params_String (cget p key) in if value \<noteq> [] then value else FirstString p keys)"

fun FirstListString :: "content \<Rightarrow> string list \<Rightarrow> string" where
  "FirstListString p [] = []"
| "FirstListString p (key # keys) =
     (case Params_Strings (cget p key) of [] \<Rightarrow> FirstListString p keys | v # _ \<Rightarrow> v)"

section \<open>Errors\<close>

record action_error =
  ae_Status :: int
  ae_Error :: string
  ae_Code :: string
  ae_OperationID :: string
  ae_CurrentRoomID :: string

definition StatusError :: "int \<Rightarrow> string \<Rightarrow> action_error" where
  "StatusError status message =
     \<lparr>ae_Status = status, ae_Error = message, ae_Code = [], ae_OperationID = [], ae_CurrentRoomID = []\<rparr>"

definition BadRequest :: "string \<Rightarrow> action_error" where
  "BadRequest message = StatusError 400 message"

definition CodedError :: "int \<Rightarrow> string \<Rightarrow> string \<Rightarrow> action_error" where
  "CodedError status code message = (StatusError status message)\<lparr>ae_Code := code\<rparr>"

definition InternalError :: "string \<Rightarrow> action_error" where
  "InternalError message =
     (let message = (if message = ''matrix member lookup is not configured'' then ''Matrix member lookup is not configured''
                     else if message = ''matrix transport is not configured'' then ''Matrix transport is not configured''
                     else message)
      in StatusError 500 (''internal error: '' @ message))"

section \<open>The registry\<close>

datatype registry_error =
    SpecNotCanonical string
  | DuplicateSpec string
  | SpecialNotCanonical string
  | SpecialWithoutSpec string
  | DuplicateSpecial string
  | ModuleNameRequired
  | HandlerNotCanonical string string
  | NilHandler string string
  | HandlerWithoutSpec string string
  | SpecialHandler string
  | DuplicateHandler string string string
  | MissingHandler string

text \<open>Of an action specification the registry uses the name only.\<close>

record 'h registry =
  rg_specs :: "string list"
  rg_specByName :: "string set"
  rg_routeSpecial :: "string set"
  rg_handlers :: "(string, 'h) gomap"
  rg_owners :: "(string, string) gomap"

definition canonical :: "string \<Rightarrow> bool" where
  "canonical name \<longleftrightarrow> \<not> (name = [] \<or> go_trim name \<noteq> name)"

fun add_specs :: "string list \<Rightarrow> 'h registry \<Rightarrow> registry_error + 'h registry" where
  "add_specs [] r = Inr r"
| "add_specs (name # names) r =
     (if \<not> canonical name then Inl (SpecNotCanonical name)
      else if name \<in> rg_specByName r then Inl (DuplicateSpec name)
      else add_specs names (r\<lparr>rg_specByName := insert name (rg_specByName r)\<rparr>))"

fun add_specials :: "string list \<Rightarrow> 'h registry \<Rightarrow> registry_error + 'h registry" where
  "add_specials [] r = Inr r"
| "add_specials (name # names) r =
     (if \<not> canonical name then Inl (SpecialNotCanonical name)
      else if name \<notin> rg_specByName r then Inl (SpecialWithoutSpec name)
      else if name \<in> rg_routeSpecial r then Inl (DuplicateSpecial name)
      else add_specials names (r\<lparr>rg_routeSpecial := insert name (rg_routeSpecial r)\<rparr>))"

definition NewRegistry :: "string list \<Rightarrow> string list \<Rightarrow> registry_error + 'h registry" where
  "NewRegistry specs routeSpecial =
     (case add_specs specs \<lparr>rg_specs = specs, rg_specByName = {}, rg_routeSpecial = {}, rg_handlers = gempty,
             rg_owners = gempty\<rparr> of
        Inl e \<Rightarrow> Inl e | Inr r \<Rightarrow> add_specials routeSpecial r)"

text \<open>A handler map may hold \<open>nil\<close>, here \<open>None\<close>.\<close>

fun check_names :: "'h registry \<Rightarrow> string \<Rightarrow> (string, 'h option) gomap \<Rightarrow> string list \<Rightarrow> registry_error option" where
  "check_names r modname handlers [] = None"
| "check_names r modname handlers (name # names) =
     (if \<not> canonical name then Some (HandlerNotCanonical name modname)
      else case gget handlers name of
             Some (Some h) \<Rightarrow>
               if name \<notin> rg_specByName r then Some (HandlerWithoutSpec name modname)
               else if name \<in> rg_routeSpecial r then Some (SpecialHandler name)
               else (case gget (rg_owners r) name of
                       Some owner \<Rightarrow> Some (DuplicateHandler name owner modname)
                     | None \<Rightarrow> check_names r modname handlers names)
           | _ \<Rightarrow> Some (NilHandler name modname))"

definition add_handler :: "string \<Rightarrow> (string, 'h option) gomap \<Rightarrow> string \<Rightarrow> 'h registry \<Rightarrow> 'h registry" where
  "add_handler modname handlers name r = (case gget handlers name of
       Some (Some h) \<Rightarrow> r\<lparr>rg_handlers := gput name h (rg_handlers r), rg_owners := gput name modname (rg_owners r)\<rparr>
     | _ \<Rightarrow> r)"

definition name_lt :: "string \<Rightarrow> string \<Rightarrow> bool" where
  "name_lt a b \<longleftrightarrow> a < b"

definition Merge :: "string \<Rightarrow> (string, 'h option) gomap \<Rightarrow> 'h registry \<Rightarrow> registry_error option \<times> 'h registry" where
  "Merge modname handlers r =
     (let modname = go_trim modname; names = go_sort name_lt (map fst handlers)
      in if modname = [] then (Some ModuleNameRequired, r)
         else case check_names r modname handlers names of
                Some e \<Rightarrow> (Some e, r)
              | None \<Rightarrow> (None, fold (add_handler modname handlers) names r))"

definition Validate :: "'h registry \<Rightarrow> registry_error option" where
  "Validate r = (case filter (\<lambda>name. name \<notin> rg_routeSpecial r \<and> gget (rg_handlers r) name = None) (rg_specs r) of
       [] \<Rightarrow> None | name # _ \<Rightarrow> Some (MissingHandler name))"

definition Handlers :: "'h registry \<Rightarrow> (string, 'h) gomap" where
  "Handlers r = rg_handlers r"

text \<open>The invariant of a registry between merges.\<close>

definition registry_ok :: "'h registry \<Rightarrow> bool" where
  "registry_ok r \<longleftrightarrow> rg_specByName r = set (rg_specs r) \<and> distinct (rg_specs r) \<and>
     rg_routeSpecial r \<subseteq> rg_specByName r \<and> list_all canonical (rg_specs r) \<and>
     (\<forall>n. (gget (rg_handlers r) n = None) = (gget (rg_owners r) n = None)) \<and>
     (\<forall>n. gget (rg_owners r) n \<noteq> None \<longrightarrow> n \<in> rg_specByName r - rg_routeSpecial r)"

section \<open>Lemmas\<close>

lemma normalized_from_set:
  "set (normalized_from seen vs) = go_trim ` set vs - insert [] seen"
  by (induction vs arbitrary: seen) (auto simp: Let_def)

lemma normalized_from_distinct: "distinct (normalized_from seen vs)"
  by (induction vs arbitrary: seen) (auto simp: Let_def normalized_from_set)

lemma normalized_from_fixed:
  "distinct vs \<Longrightarrow> set vs \<inter> insert [] seen = {} \<Longrightarrow> \<forall>v\<in>set vs. go_trim v = v \<Longrightarrow> normalized_from seen vs = vs"
  by (induction vs arbitrary: seen) (auto simp: Let_def)

lemma normalized_from_append:
  "normalized_from seen (vs @ ws) =
     normalized_from seen vs @ normalized_from (seen \<union> set (normalized_from seen vs)) ws"
  by (induction vs arbitrary: seen) (simp_all add: Let_def)

text \<open>The constructor.\<close>

lemma add_specs_result:
  "add_specs names r = Inr r' \<Longrightarrow>
     r' = r\<lparr>rg_specByName := set names \<union> rg_specByName r\<rparr> \<and> distinct names \<and> list_all canonical names \<and>
     set names \<inter> rg_specByName r = {}"
proof (induction names arbitrary: r)
  case (Cons a names)
  then have a: "canonical a" "a \<notin> rg_specByName r"
    and rest: "add_specs names (r\<lparr>rg_specByName := insert a (rg_specByName r)\<rparr>) = Inr r'"
    by (simp_all split: if_splits)
  from Cons.IH [OF rest] a show ?case by auto
qed simp

lemma add_specials_result:
  "add_specials names r = Inr r' \<Longrightarrow>
     r' = r\<lparr>rg_routeSpecial := set names \<union> rg_routeSpecial r\<rparr> \<and> set names \<subseteq> rg_specByName r"
proof (induction names arbitrary: r)
  case (Cons a names)
  then have a: "a \<in> rg_specByName r"
    and rest: "add_specials names (r\<lparr>rg_routeSpecial := insert a (rg_routeSpecial r)\<rparr>) = Inr r'"
    by (simp_all split: if_splits)
  from Cons.IH [OF rest] a show ?case by auto
qed simp

lemma NewRegistry_ok:
  assumes "NewRegistry specs special = Inr r"
  shows "registry_ok r \<and> rg_specs r = specs \<and> rg_routeSpecial r = set special \<and> Handlers r = gempty"
proof -
  obtain m where m: "add_specs specs \<lparr>rg_specs = specs, rg_specByName = {}, rg_routeSpecial = {}, rg_handlers = gempty,
      rg_owners = gempty\<rparr> = Inr m" and r: "add_specials special m = Inr r"
    using assms by (auto simp: NewRegistry_def split: sum.splits)
  from add_specs_result [OF m] add_specials_result [OF r] show ?thesis
    by (simp add: registry_ok_def Handlers_def)
qed

text \<open>Merging.\<close>

lemma check_names_None:
  "check_names r m hs names = None \<longleftrightarrow> (\<forall>n\<in>set names. canonical n \<and> (\<exists>h. gget hs n = Some (Some h)) \<and>
     n \<in> rg_specByName r - rg_routeSpecial r \<and> gget (rg_owners r) n = None)"
  by (induction names) (auto split: option.splits)

lemma add_handlers_frame [simp]:
  "rg_specs (fold (add_handler m hs) names r) = rg_specs r"
  "rg_specByName (fold (add_handler m hs) names r) = rg_specByName r"
  "rg_routeSpecial (fold (add_handler m hs) names r) = rg_routeSpecial r"
  by (induction names arbitrary: r) (simp_all add: add_handler_def split: option.splits)

lemma add_handlers_get:
  "gget (rg_handlers (fold (add_handler m hs) names r)) n =
     (case gget hs n of Some (Some h) \<Rightarrow> if n \<in> set names then Some h else gget (rg_handlers r) n
      | _ \<Rightarrow> gget (rg_handlers r) n)"
  "gget (rg_owners (fold (add_handler m hs) names r)) n =
     (case gget hs n of Some (Some h) \<Rightarrow> if n \<in> set names then Some m else gget (rg_owners r) n
      | _ \<Rightarrow> gget (rg_owners r) n)"
  by (induction names arbitrary: r) (auto simp: add_handler_def split: option.splits)

lemma sorted_names: "set (go_sort name_lt (map fst hs)) = fst ` set hs"
  by (metis list.set_map mset_go_sort set_mset_mset)

lemma key_in_map: "gget hs n = Some x \<Longrightarrow> n \<in> fst ` set hs"
  by (auto dest: gget_mem intro: rev_image_eqI)

lemma Merge_result:
  assumes "Merge m hs r = (None, r')"
  shows "rg_specs r' = rg_specs r \<and> rg_specByName r' = rg_specByName r \<and> rg_routeSpecial r' = rg_routeSpecial r \<and>
    gget (rg_handlers r') n = (case gget hs n of Some (Some h) \<Rightarrow> Some h | _ \<Rightarrow> gget (rg_handlers r) n) \<and>
    gget (rg_owners r') n = (case gget hs n of Some (Some h) \<Rightarrow> Some (go_trim m) | _ \<Rightarrow> gget (rg_owners r) n) \<and>
    (gget hs n \<noteq> None \<longrightarrow> gget (rg_owners r) n = None \<and> n \<in> rg_specByName r - rg_routeSpecial r)"
proof -
  let ?names = "go_sort name_lt (map fst hs)"
  have c: "check_names r (go_trim m) hs ?names = None"
    and r': "r' = fold (add_handler (go_trim m) hs) ?names r"
    using assms by (auto simp: Merge_def Let_def split: if_splits option.splits)
  have frame: "rg_specs r' = rg_specs r" "rg_specByName r' = rg_specByName r" "rg_routeSpecial r' = rg_routeSpecial r"
    by (simp_all add: r')
  have "gget hs n \<noteq> None \<Longrightarrow> n \<in> set ?names" by (auto simp: sorted_names dest: key_in_map)
  with c frame show ?thesis
    unfolding check_names_None r' add_handlers_get by (auto split: option.splits)
qed

lemma Merge_refused: "Merge m hs r = (Some e, r') \<Longrightarrow> r' = r"
  by (auto simp: Merge_def Let_def split: if_splits option.splits)

lemma Merge_ok:
  assumes "registry_ok r"
  shows "registry_ok (snd (Merge m hs r))"
proof (cases "Merge m hs r")
  case (Pair e r')
  show ?thesis
  proof (cases e)
    case None
    note res = Merge_result [OF Pair [unfolded None]]
    have "(gget (rg_handlers r') n = None) = (gget (rg_owners r') n = None)" for n
      using res [of n] assms by (auto simp: registry_ok_def split: option.splits)
    moreover have "n \<in> rg_specByName r' - rg_routeSpecial r'" if "gget (rg_owners r') n \<noteq> None" for n
      using res [of n] assms that by (auto simp: registry_ok_def split: option.splits)
    ultimately show ?thesis
      using res [of "[]"] assms by (auto simp: registry_ok_def Pair)
  next
    case (Some x)
    with Pair Merge_refused [of m hs r x r'] assms show ?thesis by simp
  qed
qed

lemma Validate_iff:
  "Validate r = None \<longleftrightarrow> (\<forall>n\<in>set (rg_specs r). n \<in> rg_routeSpecial r \<or> gget (rg_handlers r) n \<noteq> None)"
proof -
  have "Validate r = None \<longleftrightarrow>
      filter (\<lambda>n. n \<notin> rg_routeSpecial r \<and> gget (rg_handlers r) n = None) (rg_specs r) = []"
    by (simp add: Validate_def split: list.split)
  then show ?thesis by (auto simp: filter_empty_conv)
qed

text \<open>The registries the service builds: a constructor call and merges.\<close>

inductive registry_run :: "string list \<Rightarrow> string list \<Rightarrow> 'h registry \<Rightarrow> bool" where
  run_new: "NewRegistry specs special = Inr r \<Longrightarrow> registry_run specs special r"
| run_merge: "registry_run specs special r \<Longrightarrow> registry_run specs special (snd (Merge m hs r))"

lemma registry_run_ok:
  "registry_run specs special r \<Longrightarrow> registry_ok r \<and> rg_specs r = specs \<and> rg_routeSpecial r = set special"
proof (induction rule: registry_run.induct)
  case (run_new specs special r)
  then show ?case using NewRegistry_ok by blast
next
  case (run_merge specs special r m hs)
  obtain e r' where e: "Merge m hs r = (e, r')" by (cases "Merge m hs r")
  show ?case
    using run_merge Merge_ok [of r m hs] Merge_result [of m hs r r'] Merge_refused [of m hs r _ r'] e
    by (cases e) auto
qed

section \<open>Properties\<close>



text \<open>Merging is atomic and never replaces a handler: a refused merge returns the registry unchanged; an
  accepted one adds exactly the handlers of the module, under its trimmed name, for actions that had none.\<close>

theorem Merge_atomic:
  "case Merge m hs r of
     (Some e, r') \<Rightarrow> r' = r
   | (None, r') \<Rightarrow> \<forall>n. (case gget hs n of
         Some (Some h) \<Rightarrow> gget (rg_owners r) n = None \<and> gget (Handlers r') n = Some h \<and>
           gget (rg_owners r') n = Some (go_trim m)
       | _ \<Rightarrow> gget (Handlers r') n = gget (Handlers r) n \<and> gget (rg_owners r') n = gget (rg_owners r) n)"
proof (cases "Merge m hs r")
  case (Pair e r')
  show ?thesis
  proof (cases e)
    case None
    show ?thesis
      unfolding Pair None Handlers_def
      using Merge_result [OF Pair [unfolded None]] by (auto split: option.split)
  next
    case (Some x)
    with Pair Merge_refused [of m hs r x r'] show ?thesis by simp
  qed
qed

text \<open>The list reader of action parameters returns the trimmed, non-empty entries without repetition, in
  order of first occurrence, and is idempotent: longer input only appends to the result.\<close>

theorem normalizedStrings_spec:
  "set (normalizedStrings vs) = go_trim ` set vs - {[]} \<and> distinct (normalizedStrings vs) \<and>
   normalizedStrings (normalizedStrings vs) = normalizedStrings vs \<and>
   (\<exists>rest. normalizedStrings (vs @ ws) = normalizedStrings vs @ rest)"
proof -
  have "normalizedStrings (normalizedStrings vs) = normalizedStrings vs"
    unfolding normalizedStrings_def
    by (rule normalized_from_fixed) (auto simp: normalized_from_distinct normalized_from_set)
  then show ?thesis
    by (simp add: normalizedStrings_def normalized_from_set normalized_from_distinct normalized_from_append)
qed

end
