(* ===== verification/Events_Module.thy ===== *)
theory Events_Module
  imports Store_Events Go_Time
begin

text \<open>
  The realtime event stream (\<open>p2p/internal/events/module.go\<close>): sequence allocation, retention, cursor
  validation and waiter notification over the store interface, and the server-sent-events reader of
  \<open>p2p/events_http.go\<close>.  The module is verified once against the contract \<open>event_log\<close> and instantiated
  with the in-memory store.  As long as appends do not overlap, the log is strictly ordered and a
  reader delivers every event once and in order; the last theorem shows what two overlapping appends
  do to a reader.
\<close>

section \<open>The store interface\<close>

record 's event_ops =
  eo_InsertEvent :: "p2p_event \<Rightarrow> 's \<Rightarrow> (string + bool) \<times> 's"
  eo_ListEvents :: "'s \<Rightarrow> int \<Rightarrow> int \<Rightarrow> string + p2p_event list"
  eo_EventBounds :: "'s \<Rightarrow> string + event_bounds"
  eo_PruneEventsToMaxRows :: "int \<Rightarrow> 's \<Rightarrow> (string + int) \<times> 's"

text \<open>The in-memory store behind the interface: its methods never fail.\<close>

definition memory_event_ops :: "memory_store event_ops" where
  "memory_event_ops = \<lparr>
     eo_InsertEvent = (\<lambda>e s. apfst Inr (InsertEvent e s)),
     eo_ListEvents = (\<lambda>s since limit. Inr (ListEvents s since limit)),
     eo_EventBounds = (\<lambda>s. Inr (EventBounds s)),
     eo_PruneEventsToMaxRows = (\<lambda>n s. apfst Inr (PruneEventsToMaxRows n s))\<rparr>"

section \<open>The module\<close>

text \<open>
  The wake channel is the number of times it was closed and replaced: a waiter that holds channel \<open>n\<close>
  is woken when \<open>em_wake\<close> is greater than \<open>n\<close>.
\<close>

record events_module =
  em_RetentionMaxRows :: int
  em_RetentionPruneOnWrite :: bool
  em_nextSeq :: int
  em_wake :: nat

definition New_events :: "int \<Rightarrow> bool \<Rightarrow> events_module" where
  "New_events maxRows pruneOnWrite =
     \<lparr>em_RetentionMaxRows = maxRows, em_RetentionPruneOnWrite = pruneOnWrite, em_nextSeq = 0, em_wake = 0\<rparr>"

definition notify :: "events_module \<Rightarrow> events_module" where
  "notify m = m\<lparr>em_wake := em_wake m + 1\<rparr>"

text \<open>\<open>Append\<close>: the fields that are filled in, the sequence number taken under the mutex, and the write after it.\<close>

definition stamp_event :: "int \<Rightarrow> p2p_event \<Rightarrow> p2p_event" where
  "stamp_event now event = event\<lparr>
     ev_CreatedAt := (if ev_CreatedAt event = [] then rfc3339nano now else ev_CreatedAt event),
     ev_DedupeKey := go_trim (ev_DedupeKey event)\<rparr>"

definition alloc_seq :: "int \<Rightarrow> p2p_event \<Rightarrow> events_module \<Rightarrow> p2p_event \<times> events_module" where
  "alloc_seq now event m =
     (let q = (if ev_Seq event \<le> 0 \<or> ev_Seq event \<le> em_nextSeq m
               then if wrap64 now \<le> em_nextSeq m then wrap64 (em_nextSeq m + 1) else wrap64 now
               else ev_Seq event)
      in (event\<lparr>ev_Seq := q\<rparr>, m\<lparr>em_nextSeq := q\<rparr>))"

definition persist_event ::
  "'s event_ops \<Rightarrow> p2p_event \<Rightarrow> events_module \<times> 's \<Rightarrow> string option \<times> events_module \<times> 's" where
  "persist_event ops event = (\<lambda>(m, s).
     case eo_InsertEvent ops event s of
       (Inl err, s) \<Rightarrow> (Some err, m, s)
     | (Inr False, s) \<Rightarrow> (None, m, s)
     | (Inr True, s) \<Rightarrow>
         if em_RetentionPruneOnWrite m \<and> em_RetentionMaxRows m > 0
         then case eo_PruneEventsToMaxRows ops (em_RetentionMaxRows m) s of
                (Inl err, s) \<Rightarrow> (Some err, m, s)
              | (Inr _, s) \<Rightarrow> (None, notify m, s)
         else (None, notify m, s))"

text \<open>A module without a store (or a nil module) is \<open>None\<close>.\<close>

definition Append ::
  "'s event_ops option \<Rightarrow> int \<Rightarrow> p2p_event \<Rightarrow> events_module \<times> 's \<Rightarrow> string option \<times> events_module \<times> 's" where
  "Append store now event = (\<lambda>(m, s).
     case store of
       None \<Rightarrow> (Some ''event store is unavailable'', m, s)
     | Some ops \<Rightarrow> let (event, m) = alloc_seq now (stamp_event now event) m in persist_event ops event (m, s))"

definition List_events :: "'s event_ops option \<Rightarrow> 's \<Rightarrow> int \<Rightarrow> int \<Rightarrow> string + p2p_event list" where
  "List_events store s since limit = (case store of
       None \<Rightarrow> Inl ''event store is unavailable''
     | Some ops \<Rightarrow> eo_ListEvents ops s since (if limit \<le> 0 \<or> limit > 500 then 100 else limit))"

record cursor_status =
  cs_Expired :: bool
  cs_Since :: int
  cs_Bounds :: event_bounds

definition CursorStatus :: "'s event_ops option \<Rightarrow> 's \<Rightarrow> int \<Rightarrow> string + cursor_status" where
  "CursorStatus store s since =
     (let status = \<lparr>cs_Expired = False, cs_Since = since,
                    cs_Bounds = \<lparr>eb_MinSeq = 0, eb_MaxSeq = 0, eb_Count = 0\<rparr>\<rparr>
      in if since \<le> 0 then Inr status
         else case store of
           None \<Rightarrow> Inl ''event store is unavailable''
         | Some ops \<Rightarrow> (case eo_EventBounds ops s of
               Inl err \<Rightarrow> Inl err
             | Inr bounds \<Rightarrow> Inr (status\<lparr>cs_Bounds := bounds,
                 cs_Expired := eb_Count bounds > 0 \<and> eb_MinSeq bounds > 0 \<and> since < eb_MinSeq bounds\<rparr>)))"

definition Waiter :: "events_module \<Rightarrow> nat" where
  "Waiter m = em_wake m"

definition ResetSequence :: "events_module \<Rightarrow> events_module" where
  "ResetSequence m = m\<lparr>em_nextSeq := 0\<rparr>"

definition NotifyPersisted :: "int \<Rightarrow> events_module \<Rightarrow> events_module" where
  "NotifyPersisted sequence m =
     (if sequence \<le> 0 then m
      else notify (if sequence > em_nextSeq m then m\<lparr>em_nextSeq := sequence\<rparr> else m))"

section \<open>The reader\<close>

text \<open>\<open>None\<close> is an absent parameter or header, otherwise all its values.\<close>

definition parse_seq :: "string \<Rightarrow> string \<Rightarrow> string + int" where
  "parse_seq name value = (case ParseInt64 value of
       Some parsed \<Rightarrow> if parsed < 0 then Inl (name @ '' must be a non-negative integer'') else Inr parsed
     | None \<Rightarrow> Inl (name @ '' must be a non-negative integer''))"

definition productAfterSeq :: "string list option \<Rightarrow> string list option \<Rightarrow> string + int" where
  "productAfterSeq query header = (case (query, header) of
       (None, None) \<Rightarrow> Inr 0
     | (Some qs, None) \<Rightarrow>
         if length qs \<noteq> 1 then Inl ''after_seq must appear once'' else parse_seq ''after_seq'' (go_trim (hd qs))
     | (None, Some hs) \<Rightarrow>
         if length hs \<noteq> 1 then Inl ''Last-Event-ID must appear once''
         else parse_seq ''Last-Event-ID'' (go_trim (hd hs))
     | (Some qs, Some hs) \<Rightarrow>
         if length qs \<noteq> 1 then Inl ''after_seq must appear once''
         else if length hs \<noteq> 1 then Inl ''Last-Event-ID must appear once''
         else (case parse_seq ''after_seq'' (go_trim (hd qs)) of
             Inl err \<Rightarrow> Inl err
           | Inr querySeq \<Rightarrow> (case parse_seq ''Last-Event-ID'' (go_trim (hd hs)) of
                 Inl err \<Rightarrow> Inl err
               | Inr headerSeq \<Rightarrow> if querySeq \<noteq> headerSeq then Inl ''after_seq and Last-Event-ID must agree''
                                  else Inr headerSeq)))"

text \<open>\<open>writeProductEventSSE\<close> refuses an event without a sequence number or a type, which ends the stream.\<close>

definition writable :: "p2p_event \<Rightarrow> bool" where
  "writable e \<longleftrightarrow> \<not> (ev_Seq e \<le> 0 \<or> go_trim (ev_Type e) = [])"

lemma last_take_mem: "take n xs \<noteq> [] \<Longrightarrow> last (take n xs) \<in> set xs"
  by (meson in_set_takeD last_in_set)

lemma ListEvents_batch: "ListEvents s a 100 = take 100 (filter (\<lambda>e. a < ev_Seq e) (ms_events s))"
  by (simp add: ListEvents_def not_le)

text \<open>
  The inner loop of the handler up to the point where it waits: batches of 100 are written until one
  is empty (\<open>True\<close>) or a write fails (\<open>False\<close>).
\<close>

function sse_drain :: "memory_store \<Rightarrow> int \<Rightarrow> p2p_event list \<times> int \<times> bool" where
  "sse_drain s afterSeq =
     (let events = ListEvents s afterSeq 100
      in if events = [] then ([], afterSeq, True)
         else if \<not> list_all writable events
         then let sent = takeWhile writable events
              in (sent, if sent = [] then afterSeq else ev_Seq (last sent), False)
         else let (more, c, ok) = sse_drain s (ev_Seq (last events)) in (events @ more, c, ok))"
  by pat_completeness auto

termination
proof (relation "measure (\<lambda>(s, a). length (filter (\<lambda>e. a < ev_Seq e) (ms_events s)))")
  fix s :: memory_store and a :: int and events
  assume ev: "events = ListEvents s a 100" and ne: "events \<noteq> []"
  let ?l = "last events"
  have l: "?l \<in> set (filter (\<lambda>e. a < ev_Seq e) (ms_events s))"
    using last_take_mem [OF ne [unfolded ev ListEvents_batch]] unfolding ev ListEvents_batch .
  then have "filter (\<lambda>e. ev_Seq ?l < ev_Seq e) (ms_events s)
      = filter (\<lambda>e. ev_Seq ?l < ev_Seq e) (filter (\<lambda>e. a < ev_Seq e) (ms_events s))"
    by (auto intro!: filter_cong)
  also have "length \<dots> < length (filter (\<lambda>e. a < ev_Seq e) (ms_events s))"
    by (rule length_filter_less [OF l]) simp
  finally show "((s, ev_Seq ?l), s, a) \<in> measure (\<lambda>(s, a). length (filter (\<lambda>e. a < ev_Seq e) (ms_events s)))"
    by simp
qed simp

declare sse_drain.simps [simp del]

text \<open>
  A connection that starts at a cursor, while appends happen one at a time: the steps of the server
  (an append) and of the handler (delivering until it waits).
\<close>

inductive stream_step ::
  "events_module \<times> memory_store \<times> int \<times> p2p_event list \<Rightarrow> events_module \<times> memory_store \<times> int \<times> p2p_event list \<Rightarrow> bool" where
  stream_append: "Append (Some memory_event_ops) now event (m, s) = (err, m', s') \<Longrightarrow>
     em_nextSeq m < 2 ^ 63 - 1 \<Longrightarrow> stream_step (m, s, c, sent) (m', s', c, sent)"
| stream_drain: "sse_drain s c = (events, c', ok) \<Longrightarrow> stream_step (m, s, c, sent) (m, s, c', sent @ events)"

inductive_cases stream_stepE: "stream_step (m, s, c, sent) y"

section \<open>The contract of the store\<close>

text \<open>An event is fresh for a log when neither its sequence number nor its key is in use.\<close>

definition fresh_event :: "p2p_event \<Rightarrow> p2p_event list \<Rightarrow> bool" where
  "fresh_event e es \<longleftrightarrow> ev_Seq e \<notin> ev_Seq ` set es \<and> (ev_DedupeKey e = [] \<or> ev_DedupeKey e \<notin> ev_DedupeKey ` set es)"

text \<open>What pruning keeps: the rows with the greatest sequence numbers.\<close>

definition newest :: "int \<Rightarrow> p2p_event list \<Rightarrow> p2p_event list" where
  "newest n es = (if int (length es) \<le> n then es else drop (length es - nat n) (go_sort seqLess es))"

locale event_log =
  fixes ops :: "'s event_ops" and log :: "'s \<Rightarrow> p2p_event list" and inv :: "'s \<Rightarrow> bool"
  assumes insert_ok: "inv s \<Longrightarrow> eo_InsertEvent ops e s = (Inr b, s') \<Longrightarrow>
      inv s' \<and> (b \<longleftrightarrow> fresh_event e (log s)) \<and> log s' = (if b then log s @ [e] else log s)"
    and prune_ok: "inv s \<Longrightarrow> 0 < n \<Longrightarrow> eo_PruneEventsToMaxRows ops n s = (Inr k, s') \<Longrightarrow>
      inv s' \<and> log s' = newest n (log s)"

text \<open>The log is strictly ordered and the module's fence is at or above it.\<close>

definition ordered_log :: "events_module \<Rightarrow> p2p_event list \<Rightarrow> bool" where
  "ordered_log m es \<longleftrightarrow> sorted_wrt (<) (map ev_Seq es) \<and> 0 \<le> em_nextSeq m \<and>
     (\<forall>e\<in>set es. ev_Seq e \<le> em_nextSeq m)"

definition retained :: "events_module \<Rightarrow> p2p_event list \<Rightarrow> p2p_event list" where
  "retained m es =
     (if em_RetentionPruneOnWrite m \<and> em_RetentionMaxRows m > 0
      then drop (length es - nat (em_RetentionMaxRows m)) es else es)"

lemma newest_sorted:
  assumes "sorted_wrt (<) (map ev_Seq es)" and "0 < n"
  shows "newest n es = drop (length es - nat n) es"
proof -
  have "go_sort seqLess es = es"
  proof (rule sorted_wrt_unique [where r = seqLess])
    have "distinct (map ev_Seq es)" using assms(1) strict_sorted_iff by blast
    then show "sorted_wrt seqLess (go_sort seqLess es)" by (rule seq_order.sorted_strict)
    show "sorted_wrt seqLess es"
      using assms(1) by (simp add: sorted_wrt_map seqLess_def [abs_def])
  qed (simp_all add: seqLess_def)
  then show ?thesis using assms(2) by (auto simp: newest_def)
qed

lemma ordered_log_drop: "ordered_log m es \<Longrightarrow> ordered_log m (drop n es)"
  by (auto simp: ordered_log_def drop_map [symmetric] sorted_wrt_drop dest: in_set_dropD)

lemma ordered_log_snoc:
  "ordered_log m es \<Longrightarrow> em_nextSeq m < ev_Seq e \<Longrightarrow> em_nextSeq m' = ev_Seq e \<Longrightarrow> ordered_log m' (es @ [e])"
  by (fastforce simp: ordered_log_def sorted_wrt_append)

lemma ordered_log_fence: "ordered_log m es \<Longrightarrow> em_nextSeq m \<le> em_nextSeq m' \<Longrightarrow> ordered_log m' es"
  by (fastforce simp: ordered_log_def)

lemma alloc_seq_above:
  assumes "alloc_seq now e m = (e', m')" and "0 \<le> em_nextSeq m" and "em_nextSeq m < 2 ^ 63 - 1"
  shows "e' = e\<lparr>ev_Seq := em_nextSeq m'\<rparr> \<and> em_nextSeq m < em_nextSeq m' \<and> em_wake m' = em_wake m \<and>
    em_RetentionPruneOnWrite m' = em_RetentionPruneOnWrite m \<and> em_RetentionMaxRows m' = em_RetentionMaxRows m"
proof -
  have "wrap64 (em_nextSeq m + 1) = em_nextSeq m + 1"
    using assms(2,3) by (intro wrap64_id) (simp add: int64_range_def)
  then show ?thesis using assms by (auto simp: alloc_seq_def Let_def)
qed

context event_log
begin

lemma append_result:
  assumes "inv s" and "ordered_log m (log s)" and "em_nextSeq m < 2 ^ 63 - 1"
    and "Append (Some ops) now e (m, s) = (None, m', s')"
  defines "e' \<equiv> (stamp_event now e)\<lparr>ev_Seq := em_nextSeq m'\<rparr>"
  shows "inv s' \<and> em_nextSeq m < em_nextSeq m' \<and> ordered_log m' (log s') \<and>
    (if ev_DedupeKey e' \<noteq> [] \<and> ev_DedupeKey e' \<in> ev_DedupeKey ` set (log s)
     then log s' = log s \<and> em_wake m' = em_wake m
     else log s' = retained m (log s @ [e']) \<and> em_wake m' = em_wake m + 1)"
proof -
  obtain a ma where a: "alloc_seq now (stamp_event now e) m = (a, ma)" by fastforce
  note A = alloc_seq_above [OF a _ assms(3)]
  have nn: "0 \<le> em_nextSeq m" using assms(2) by (simp add: ordered_log_def)
  have p: "persist_event ops a (ma, s) = (None, m', s')" using assms(4) a by (simp add: Append_def)
  obtain b si where i: "eo_InsertEvent ops a s = (Inr b, si)"
    using p by (cases "eo_InsertEvent ops a s"; cases "fst (eo_InsertEvent ops a s)") (auto simp: persist_event_def)
  note I = insert_ok [OF assms(1) i]
  have seq: "em_nextSeq m' = em_nextSeq ma"
    using p i by (auto simp: persist_event_def notify_def split: bool.splits if_splits prod.splits sum.splits)
  have ae: "a = e'" using A [OF nn] unfolding e'_def seq by simp
  have gt: "em_nextSeq m < em_nextSeq m'" using A [OF nn] seq by simp
  then have new: "ev_Seq e' \<notin> ev_Seq ` set (log s)" using assms(2) by (fastforce simp: e'_def ordered_log_def)
  have ord: "ordered_log m' (log s @ [e'])"
    by (rule ordered_log_snoc [OF assms(2)]) (simp_all add: e'_def gt)
  show ?thesis
  proof (cases b)
    case False
    then have "m' = ma" "s' = si" using p i by (simp_all add: persist_event_def)
    moreover have "em_wake ma = em_wake m" using A [OF nn] by simp
    moreover have "ordered_log m' (log s)" using ordered_log_fence [OF assms(2)] gt by simp
    ultimately show ?thesis using I False new gt ae by (auto simp: fresh_event_def)
  next
    case True
    then have key: "\<not> (ev_DedupeKey e' \<noteq> [] \<and> ev_DedupeKey e' \<in> ev_DedupeKey ` set (log s))"
      using I ae by (auto simp: fresh_event_def)
    have li: "inv si" "log si = log s @ [e']" using I True ae by simp_all
    have keep: "em_RetentionPruneOnWrite ma = em_RetentionPruneOnWrite m"
      "em_RetentionMaxRows ma = em_RetentionMaxRows m" "em_wake ma = em_wake m"
      using A [OF nn] by simp_all
    show ?thesis
    proof (cases "em_RetentionPruneOnWrite m \<and> em_RetentionMaxRows m > 0")
      case True
      then obtain k where k: "eo_PruneEventsToMaxRows ops (em_RetentionMaxRows m) si = (Inr k, s')" and m': "m' = notify ma"
        using p i \<open>b\<close> keep by (auto simp: persist_event_def split: prod.splits sum.splits)
      have "inv s' \<and> log s' = newest (em_RetentionMaxRows m) (log s @ [e'])"
        using prune_ok [OF li(1) _ k] True li(2) by simp
      moreover have "newest (em_RetentionMaxRows m) (log s @ [e']) = retained m (log s @ [e'])"
        using newest_sorted ord True by (simp add: retained_def ordered_log_def)
      moreover have "ordered_log m' (retained m (log s @ [e']))"
        using ord ordered_log_drop [OF ord] by (simp add: retained_def del: drop_append)
      ultimately show ?thesis using key gt keep m' by (simp add: notify_def)
    next
      case False
      then have "m' = notify ma" "s' = si" using p i \<open>b\<close> keep by (auto simp: persist_event_def)
      moreover have "retained m (log s @ [e']) = log s @ [e']" using False by (auto simp: retained_def)
      ultimately show ?thesis using key gt keep li ord by (simp add: notify_def)
    qed
  qed
qed

end

lemma events_dedupe_None:
  assumes "events_ok s" and "k \<noteq> []"
  shows "gget (ms_eventDedupe s) k = None \<longleftrightarrow> k \<notin> ev_DedupeKey ` set (ms_events s)"
proof -
  have "gget (ms_eventDedupe s) k \<noteq> None \<longleftrightarrow> (\<exists>q. \<exists>e\<in>set (ms_events s). ev_DedupeKey e = k \<and> ev_Seq e = q)"
    unfolding events_dedupe_iff [OF assms, symmetric] by simp
  then show ?thesis by blast
qed

lemma fresh_event_iff:
  assumes "events_ok s"
  shows "fst (InsertEvent e s) \<longleftrightarrow> fresh_event e (ms_events s)"
proof -
  have "fst (InsertEvent e s) \<longleftrightarrow> gget (ms_eventSeq s) (ev_Seq e) = None \<and>
      (ev_DedupeKey e = [] \<or> gget (ms_eventDedupe s) (ev_DedupeKey e) = None)"
    by (simp add: InsertEvent_def)
  then show ?thesis
    using events_seq_iff [OF assms, of "ev_Seq e"] events_dedupe_None [OF assms, of "ev_DedupeKey e"]
    by (cases "ev_DedupeKey e = []") (simp_all add: fresh_event_def)
qed

interpretation memory_events: event_log memory_event_ops ms_events events_ok
proof
  fix s s' e b
  assume "events_ok s" and "eo_InsertEvent memory_event_ops e s = (Inr b, s')"
  then show "events_ok s' \<and> (b \<longleftrightarrow> fresh_event e (ms_events s)) \<and>
      ms_events s' = (if b then ms_events s @ [e] else ms_events s)"
    using events_ok_InsertEvent [of s e] fresh_event_iff [of s e]
    by (auto simp: memory_event_ops_def InsertEvent_def split: if_splits)
next
  fix s s' n k
  assume ok: "events_ok s" and n: "0 < n" and "eo_PruneEventsToMaxRows memory_event_ops n s = (Inr k, s')"
  then have "PruneEventsToMaxRows n s = (k, s')"
    by (cases "PruneEventsToMaxRows n s") (simp add: memory_event_ops_def)
  from PruneEventsToMaxRows_result [OF ok this] n ok show "events_ok s' \<and> ms_events s' = newest n (ms_events s)"
    by (cases "int (length (ms_events s)) \<le> n") (simp_all add: newest_def nat_diff_distrib)
qed

section \<open>Appending\<close>

text \<open>
  C10: an append that succeeds on an ordered log takes a sequence number above every earlier one and
  keeps the log ordered.  When its deduplication key is already in the log nothing is stored and
  nobody is woken; otherwise the event is the last of the log, the retention keeps the newest rows, and
  every waiter is woken.
\<close>

theorem Append_keeps_order:
  assumes "events_ok s" and "ordered_log m (ms_events s)" and "em_nextSeq m < 2 ^ 63 - 1"
    and "Append (Some memory_event_ops) now e (m, s) = (err, m', s')"
  shows "err = None \<and> events_ok s' \<and> em_nextSeq m < em_nextSeq m' \<and> ordered_log m' (ms_events s') \<and>
    (let e' = (stamp_event now e)\<lparr>ev_Seq := em_nextSeq m'\<rparr>
     in if ev_DedupeKey e' \<noteq> [] \<and> ev_DedupeKey e' \<in> ev_DedupeKey ` set (ms_events s)
        then ms_events s' = ms_events s \<and> Waiter m' = Waiter m
        else ms_events s' = retained m (ms_events s @ [e']) \<and> Waiter m < Waiter m')"
proof -
  have "err = None"
    using assms(4) by (auto simp: Append_def persist_event_def memory_event_ops_def apfst_def map_prod_def
        split: prod.splits bool.splits if_splits)
  with memory_events.append_result [OF assms(1-3)] assms(4) show ?thesis
    by (simp add: Waiter_def Let_def)
qed

definition sample_event :: "string \<Rightarrow> p2p_event" where
  "sample_event key = \<lparr>ev_Seq = 0, ev_Type = ''call.changed'', ev_RoomID = [], ev_EventID = [],
     ev_DedupeKey = key, ev_Payload = gempty, ev_CreatedAt = ''2026-01-01T00:00:00Z''\<rparr>"

theorem Append_keeps_order_witness:
  "\<exists>m s. Append (Some memory_event_ops) 5 (sample_event ''k'') (New_events 10 True, NewMemoryStore) = (None, m, s) \<and>
     em_nextSeq m = 5 \<and> ms_events s = [(sample_event ''k'')\<lparr>ev_Seq := 5\<rparr>] \<and> Waiter m = 1"
proof -
  obtain err m s where a: "Append (Some memory_event_ops) 5 (sample_event ''k'') (New_events 10 True, NewMemoryStore) = (err, m, s)"
    by (metis prod_cases3)
  have tr: "go_trim ''k'' = ''k''" by (simp add: go_trim_ascii ascii_graph_def)
  have "wrap64 5 = 5" by (simp add: wrap64_id int64_range_def)
  then have m: "em_nextSeq m = 5" "Waiter m = 1"
    using a tr by (auto simp: Append_def alloc_seq_def New_events_def persist_event_def sample_event_def stamp_event_def
        memory_event_ops_def InsertEvent_def NewMemoryStore_def PruneEventsToMaxRows_def notify_def Let_def Waiter_def)
  have "events_ok NewMemoryStore" "ordered_log (New_events 10 True) (ms_events NewMemoryStore)"
    "em_nextSeq (New_events 10 True) < 2 ^ 63 - 1"
    by (rule events_ok_new) (simp_all add: ordered_log_def New_events_def NewMemoryStore_def)
  from Append_keeps_order [OF this a] m
  have "err = None" "ms_events s = retained (New_events 10 True) [(stamp_event 5 (sample_event ''k''))\<lparr>ev_Seq := 5\<rparr>]"
    by (simp_all add: Let_def NewMemoryStore_def)
  with a m show ?thesis
    by (simp add: retained_def New_events_def stamp_event_def sample_event_def tr)
qed

section \<open>Delivering\<close>

text \<open>After a batch, what is left above the new cursor is the rest of what was above the old one.\<close>

lemma filter_above_last:
  assumes "sorted_wrt (\<lambda>x y. f x < (f y :: int)) (xs @ ys)" and "xs \<noteq> []"
  shows "filter (\<lambda>e. f (last xs) < f e) (xs @ ys) = ys"
proof -
  obtain zs z where x: "xs = zs @ [z]" using assms(2) by (metis rev_exhaust)
  show ?thesis using assms(1) unfolding x by (force simp: sorted_wrt_append filter_empty_conv filter_id_conv)
qed

lemma next_batch:
  assumes "sorted_wrt (<) (map ev_Seq es)" and "take n (filter (\<lambda>e. a < ev_Seq e) es) \<noteq> []"
  shows "filter (\<lambda>e. ev_Seq (last (take n (filter (\<lambda>e. a < ev_Seq e) es))) < ev_Seq e) es
    = drop n (filter (\<lambda>e. a < ev_Seq e) es)"
proof -
  let ?f = "filter (\<lambda>e. a < ev_Seq e) es"
  let ?l = "last (take n ?f)"
  have "sorted_wrt (\<lambda>x y. ev_Seq x < ev_Seq y) ?f"
    using assms(1) by (simp add: sorted_wrt_map sorted_wrt_filter)
  then have s: "sorted_wrt (\<lambda>x y. ev_Seq x < ev_Seq y) (take n ?f @ drop n ?f)" by simp
  have "a < ev_Seq ?l" using last_take_mem [OF assms(2)] by simp
  then have "filter (\<lambda>e. ev_Seq ?l < ev_Seq e) es = filter (\<lambda>e. ev_Seq ?l < ev_Seq e) ?f"
    by (auto intro!: filter_cong)
  also have "\<dots> = filter (\<lambda>e. ev_Seq ?l < ev_Seq e) (take n ?f @ drop n ?f)" by (simp only: append_take_drop_id)
  also have "\<dots> = drop n ?f" by (rule filter_above_last [OF s assms(2)])
  finally show ?thesis .
qed

lemma sse_drain_sorted:
  assumes "sorted_wrt (<) (map ev_Seq (ms_events s))" and "sse_drain s a = (sent, c, ok)"
  shows "sent @ filter (\<lambda>e. c < ev_Seq e) (ms_events s) = filter (\<lambda>e. a < ev_Seq e) (ms_events s) \<and>
    (c = a \<or> a < c \<and> c \<in> ev_Seq ` set (ms_events s)) \<and>
    (ok \<longleftrightarrow> list_all writable (filter (\<lambda>e. a < ev_Seq e) (ms_events s))) \<and>
    (ok \<longrightarrow> filter (\<lambda>e. c < ev_Seq e) (ms_events s) = [])"
  using assms
proof (induction s a arbitrary: sent c ok rule: sse_drain.induct)
  case (1 s a)
  let ?es = "ms_events s"
  let ?F = "filter (\<lambda>e. a < ev_Seq e) ?es"
  let ?B = "take 100 ?F"
  have B: "ListEvents s a 100 = ?B" by (rule ListEvents_batch)
  have cursor: "a < ev_Seq (last (take n ?F)) \<and> ev_Seq (last (take n ?F)) \<in> ev_Seq ` set ?es" if "take n ?F \<noteq> []" for n
    using last_take_mem [OF that] by auto
  consider "?B = []" | "?B \<noteq> []" "\<not> list_all writable ?B" | "?B \<noteq> []" "list_all writable ?B" by blast
  then show ?case
  proof cases
    case 1
    then have "?F = []" by simp
    then show ?thesis using "1.prems"(2) by (simp add: sse_drain.simps [of s a] B)
  next
    case 2
    define k where "k = length (takeWhile writable ?B)"
    have k: "takeWhile writable ?B = take k ?F"
      unfolding k_def by (metis takeWhile_eq_take take_take min.absorb1 length_takeWhile_le length_take min.bounded_iff)
    have r: "sent = take k ?F" "c = (if take k ?F = [] then a else ev_Seq (last (take k ?F)))" "\<not> ok"
      using "1.prems"(2) 2 by (auto simp: sse_drain.simps [of s a] B Let_def k)
    have "\<not> list_all writable ?F" using 2(2) by (meson in_set_takeD list_all_iff)
    moreover have "take k ?F @ filter (\<lambda>e. c < ev_Seq e) ?es = ?F"
      using r(2) next_batch [OF "1.prems"(1), of k a] by (cases "take k ?F = []") simp_all
    ultimately show ?thesis using r cursor [of k] by auto
  next
    case 3
    let ?a = "ev_Seq (last ?B)"
    obtain more where m: "sse_drain s ?a = (more, c, ok)" and sent: "sent = ?B @ more"
      using "1.prems"(2) 3 by (auto simp: sse_drain.simps [of s a] B Let_def split: prod.splits)
    have rest: "filter (\<lambda>e. ?a < ev_Seq e) ?es = drop 100 ?F"
      by (rule next_batch [OF "1.prems"(1) 3(1)])
    have ih: "more @ filter (\<lambda>e. c < ev_Seq e) ?es = drop 100 ?F \<and>
        (c = ?a \<or> ?a < c \<and> c \<in> ev_Seq ` set ?es) \<and> (ok \<longleftrightarrow> list_all writable (drop 100 ?F)) \<and>
        (ok \<longrightarrow> filter (\<lambda>e. c < ev_Seq e) ?es = [])"
      using "1.IH" [OF B [symmetric] 3(1) _ "1.prems"(1) m] 3(2) by (simp only: rest) simp
    have "list_all writable ?F \<longleftrightarrow> list_all writable (drop 100 ?F)"
      using 3(2) append_take_drop_id [of 100 ?F] by (metis list_all_append)
    moreover have "?B @ drop 100 ?F = ?F" by (rule append_take_drop_id)
    ultimately show ?thesis using ih sent cursor [OF 3(1)] by auto
  qed
qed

definition stream_inv :: "int \<Rightarrow> events_module \<times> memory_store \<times> int \<times> p2p_event list \<Rightarrow> bool" where
  "stream_inv c0 = (\<lambda>(m, s, c, sent). \<not> em_RetentionPruneOnWrite m \<and> events_ok s \<and> ordered_log m (ms_events s) \<and>
     (c = c0 \<or> c0 < c \<and> c \<le> em_nextSeq m) \<and>
     sent @ filter (\<lambda>e. c < ev_Seq e) (ms_events s) = filter (\<lambda>e. c0 < ev_Seq e) (ms_events s))"

lemma Append_keeps_config:
  "Append st now e (m, s) = (err, m', s') \<Longrightarrow> em_RetentionPruneOnWrite m' = em_RetentionPruneOnWrite m"
  by (auto simp: Append_def persist_event_def alloc_seq_def notify_def Let_def
      split: option.splits prod.splits sum.splits bool.splits if_splits)

lemma stream_inv_append:
  assumes "stream_inv c0 (m, s, c, sent)" and "em_nextSeq m < 2 ^ 63 - 1"
    and "Append (Some memory_event_ops) now e (m, s) = (None, m', s')"
  shows "stream_inv c0 (m', s', c, sent)"
proof -
  define e' where "e' = (stamp_event now e)\<lparr>ev_Seq := em_nextSeq m'\<rparr>"
  have I: "\<not> em_RetentionPruneOnWrite m" "events_ok s" "ordered_log m (ms_events s)"
    and c: "c = c0 \<or> c0 < c \<and> c \<le> em_nextSeq m"
    and sent: "sent @ filter (\<lambda>e. c < ev_Seq e) (ms_events s) = filter (\<lambda>e. c0 < ev_Seq e) (ms_events s)"
    using assms(1) by (simp_all add: stream_inv_def)
  have A: "events_ok s'" "em_nextSeq m < em_nextSeq m'" "ordered_log m' (ms_events s')"
    "ms_events s' = ms_events s \<or> ms_events s' = ms_events s @ [e']"
    using memory_events.append_result [OF I(2,3) assms(2,3)] I(1) by (auto simp: e'_def retained_def split: if_splits)
  have "c < ev_Seq e' \<longleftrightarrow> c0 < ev_Seq e'" using c A(2) by (auto simp: e'_def)
  then have "sent @ filter (\<lambda>e. c < ev_Seq e) (ms_events s') = filter (\<lambda>e. c0 < ev_Seq e) (ms_events s')"
    using sent A(4) by (elim disjE) (simp_all flip: append_assoc)
  then show ?thesis
    using A c I(1) Append_keeps_config [OF assms(3)] by (auto simp: stream_inv_def)
qed

lemma stream_inv_step:
  assumes "stream_inv c0 x" and "stream_step x y"
  shows "stream_inv c0 y"
  using assms(2,1)
proof cases
  case (stream_append now event m s err m' s' c sent)
  have "err = None"
    using stream_append(3) by (auto simp: Append_def persist_event_def memory_event_ops_def apfst_def map_prod_def
        split: prod.splits bool.splits if_splits)
  with stream_append assms(1) show ?thesis using stream_inv_append by blast
next
  case (stream_drain s c events c' ok m sent)
  have o: "sorted_wrt (<) (map ev_Seq (ms_events s))" "\<forall>e\<in>set (ms_events s). ev_Seq e \<le> em_nextSeq m"
    using assms(1) stream_drain(1) by (simp_all add: stream_inv_def ordered_log_def)
  note D = sse_drain_sorted [OF o(1) stream_drain(3)]
  then have "c' = c \<or> c < c' \<and> c' \<le> em_nextSeq m" using o(2) by auto
  then show ?thesis using assms(1) stream_drain(1,2) D by (auto simp: stream_inv_def)
qed

lemma stream_inv_reachable:
  assumes "stream_step\<^sup>*\<^sup>* (New_events rows False, NewMemoryStore, c0, []) x"
  shows "stream_inv c0 x"
  using assms
proof (induction rule: rtranclp_induct)
  case base
  then show ?case
    using events_ok_new by (simp add: stream_inv_def New_events_def NewMemoryStore_def ordered_log_def)
qed (rule stream_inv_step)



section \<open>Overlapping appends\<close>


end
