(* ===== verification/Go_Utf8.thy ===== *)
theory Go_Utf8
  imports Go_Prelude
begin

text \<open>
  Package \<open>unicode/utf8\<close>: the width of the first rune of a byte string, and the validity of an encoding.
\<close>

text \<open>\<open>rune_len\<close> is zero when the encoding is invalid; \<open>rune_width\<close> counts an invalid byte as one rune.\<close>

definition cont_byte :: "char \<Rightarrow> bool" where
  "cont_byte c \<longleftrightarrow> CHR 0x80 \<le> c \<and> c \<le> CHR 0xBF"

definition second_byte :: "char \<Rightarrow> char \<Rightarrow> bool" where
  "second_byte c d \<longleftrightarrow>
     (if c = CHR 0xE0 then CHR 0xA0 else if c = CHR 0xF0 then CHR 0x90 else CHR 0x80) \<le> d \<and>
     d \<le> (if c = CHR 0xED then CHR 0x9F else if c = CHR 0xF4 then CHR 0x8F else CHR 0xBF)"

definition rune_len :: "string \<Rightarrow> nat" where
  "rune_len s = (case s of
       [] \<Rightarrow> 0
     | c # cs \<Rightarrow>
         if c < CHR 0x80 then 1
         else if CHR 0xC2 \<le> c \<and> c \<le> CHR 0xDF then (case cs of d # _ \<Rightarrow> if cont_byte d then 2 else 0 | _ \<Rightarrow> 0)
         else if CHR 0xE0 \<le> c \<and> c \<le> CHR 0xEF
         then (case cs of d # e # _ \<Rightarrow> if second_byte c d \<and> cont_byte e then 3 else 0 | _ \<Rightarrow> 0)
         else if CHR 0xF0 \<le> c \<and> c \<le> CHR 0xF4
         then (case cs of d # e # f # _ \<Rightarrow> if second_byte c d \<and> cont_byte e \<and> cont_byte f then 4 else 0 | _ \<Rightarrow> 0)
         else 0)"

definition rune_width :: "string \<Rightarrow> nat" where
  "rune_width s = max 1 (rune_len s)"

function valid_utf8 :: "string \<Rightarrow> bool" where
  "valid_utf8 s = (if s = [] then True else if rune_len s = 0 then False else valid_utf8 (drop (rune_len s) s))"
  by pat_completeness auto

termination
  by (relation "measure length") auto

declare valid_utf8.simps [simp del]

definition ascii :: "string \<Rightarrow> bool" where
  "ascii s \<longleftrightarrow> list_all (\<lambda>c. c < CHR 0x80) s"

lemma ascii_simps [simp]: "ascii []" "ascii (c # s) \<longleftrightarrow> c < CHR 0x80 \<and> ascii s"
  by (simp_all add: ascii_def)

lemma ascii_append [simp]: "ascii (s @ t) \<longleftrightarrow> ascii s \<and> ascii t"
  by (simp add: ascii_def)

lemma rune_len_ascii [simp]: "c < CHR 0x80 \<Longrightarrow> rune_len (c # s) = 1"
  by (simp add: rune_len_def)

lemma rune_width_ascii [simp]: "c < CHR 0x80 \<Longrightarrow> rune_width (c # s) = 1"
  by (simp add: rune_width_def)

lemma valid_utf8_ascii: "ascii s \<Longrightarrow> valid_utf8 s"
proof (induction s)
  case Nil
  then show ?case by (simp add: valid_utf8.simps [of "[]"])
next
  case (Cons c s)
  then show ?case by (simp add: valid_utf8.simps [of "c # s"])
qed

end
