(* ===== verification/Agent_Completion.thy ===== *)
theory Agent_Completion
  imports Events_Module Go_Sha256 Go_Utf8
begin

text \<open>
  Completion receipts of agent executions: the validation of a receipt and the digest that binds it
  (\<open>internal/dirextalkdomain/agent_execution.go\<close>), and the service method that records a receipt and
  announces it on the event stream (\<open>p2p/product_capability.go\<close>).  The package \<open>google/uuid\<close> is a
  parameter: \<open>parse\<close>, \<open>str\<close> and \<open>unil\<close> are its \<open>Parse\<close>, \<open>String\<close> and \<open>Nil\<close>.
\<close>

section \<open>encoding/json on strings\<close>

definition json_ascii :: "char \<Rightarrow> string" where
  "json_ascii c =
     (if c = CHR 0x22 \<or> c = CHR 0x5C then [CHR 0x5C, c]
      else if c = CHR 0x08 then [CHR 0x5C, CHR ''b'']
      else if c = CHR 0x0C then [CHR 0x5C, CHR ''f'']
      else if c = CHR 0x0A then [CHR 0x5C, CHR ''n'']
      else if c = CHR 0x0D then [CHR 0x5C, CHR ''r'']
      else if c = CHR 0x09 then [CHR 0x5C, CHR ''t'']
      else if c < CHR 0x20 \<or> c = CHR ''<'' \<or> c = CHR ''>'' \<or> c = CHR ''&''
      then [CHR 0x5C] @ ''u00'' @ [hex_digit (of_char c div 16), hex_digit (of_char c mod 16)]
      else [c])"

function json_chars :: "string \<Rightarrow> string" where
  "json_chars [] = []"
| "json_chars (c # cs) =
     (if c < CHR 0x80 then json_ascii c @ json_chars cs
      else if rune_len (c # cs) = 0 then [CHR 0x5C] @ ''ufffd'' @ json_chars cs
      else (if take 3 (c # cs) = [CHR 0xE2, CHR 0x80, CHR 0xA8] then [CHR 0x5C] @ ''u2028''
            else if take 3 (c # cs) = [CHR 0xE2, CHR 0x80, CHR 0xA9] then [CHR 0x5C] @ ''u2029''
            else take (rune_len (c # cs)) (c # cs)) @ json_chars (drop (rune_len (c # cs)) (c # cs)))"
  by pat_completeness auto

termination
  by (relation "measure length") auto

definition json_string :: "string \<Rightarrow> string" where
  "json_string s = [CHR 0x22] @ json_chars s @ [CHR 0x22]"

section \<open>Receipts\<close>

definition canonicalCompletionTime :: "string \<Rightarrow> string option" where
  "canonicalCompletionTime value = (case parse_rfc3339nano value of
       None \<Rightarrow> None
     | Some t \<Rightarrow> if t = zero_time then None else Some (rfc3339nano t))"

definition canonicalNonNilUUID :: "(string \<Rightarrow> 'u option) \<Rightarrow> ('u \<Rightarrow> string) \<Rightarrow> 'u \<Rightarrow> string \<Rightarrow> bool" where
  "canonicalNonNilUUID parse str unil value = (case parse value of
       None \<Rightarrow> False
     | Some parsed \<Rightarrow> parsed \<noteq> unil \<and> str parsed = value)"

definition json_member :: "string \<Rightarrow> string \<Rightarrow> string" where
  "json_member name value = json_string name @ '':'' @ json_string value"

fun json_members :: "(string \<times> string) list \<Rightarrow> string" where
  "json_members [] = []"
| "json_members [(name, value)] = json_member name value"
| "json_members ((name, value) # ms) = json_member name value @ '','' @ json_members ms"

definition completion_payload :: "completion_receipt \<Rightarrow> string \<Rightarrow> string" where
  "completion_payload r completedAt =
     ''{'' @ json_members
       [(''event_id'', cr_EventID r), (''execution_id'', cr_ExecutionID r), (''run_id'', cr_RunID r),
        (''conversation_id'', cr_ConversationID r), (''turn_id'', cr_TurnID r), (''terminal_state'', cr_TerminalState r),
        (''completed_at'', completedAt)] @ ''}''"

definition CanonicalAgentExecutionCompletionDigest :: "completion_receipt \<Rightarrow> string option" where
  "CanonicalAgentExecutionCompletionDigest r = (case canonicalCompletionTime (cr_CompletedAt r) of
       None \<Rightarrow> None
     | Some completedAt \<Rightarrow> Some (hex_encode (sha256_sum (completion_payload r completedAt))))"

text \<open>The identifiers are checked in the iteration order of a map, so the name in the error is not determined.\<close>

datatype receipt_error =
    NotCanonicalUUID | InvalidTerminalState | InvalidCompletedAt | InvalidDigest | DigestMismatch
  | OwnerRequired | GenerationRequired

definition is_hex :: "char \<Rightarrow> bool" where
  "is_hex c \<longleftrightarrow> is_digit c \<or> CHR ''a'' \<le> c \<and> c \<le> CHR ''f'' \<or> CHR ''A'' \<le> c \<and> c \<le> CHR ''F''"

definition Receipt_Validate ::
  "(string \<Rightarrow> 'u option) \<Rightarrow> ('u \<Rightarrow> string) \<Rightarrow> 'u \<Rightarrow> completion_receipt \<Rightarrow> receipt_error option" where
  "Receipt_Validate parse str unil r =
     (if \<not> list_all (canonicalNonNilUUID parse str unil)
             [cr_EventID r, cr_ExecutionID r, cr_RunID r, cr_ConversationID r, cr_TurnID r]
      then Some NotCanonicalUUID
      else if cr_TerminalState r \<notin> {''succeeded'', ''failed'', ''canceled''} then Some InvalidTerminalState
      else if canonicalCompletionTime (cr_CompletedAt r) \<noteq> Some (cr_CompletedAt r) then Some InvalidCompletedAt
      else if length (cr_PayloadDigest r) \<noteq> 64 \<or> go_lower (cr_PayloadDigest r) \<noteq> cr_PayloadDigest r
              \<or> \<not> list_all is_hex (cr_PayloadDigest r) then Some InvalidDigest
      else if CanonicalAgentExecutionCompletionDigest r \<noteq> Some (cr_PayloadDigest r) then Some DigestMismatch
      else if go_trim (cr_OwnerID r) = [] \<or> cr_OwnerID r \<noteq> go_trim (cr_OwnerID r) then Some OwnerRequired
      else if cr_AccountGeneration r \<le> 0 then Some GenerationRequired
      else None)"

definition PublicPayload :: "completion_receipt \<Rightarrow> content" where
  "PublicPayload r =
     [(''event_id'', AStr (cr_EventID r)), (''execution_id'', AStr (cr_ExecutionID r)), (''run_id'', AStr (cr_RunID r)),
      (''conversation_id'', AStr (cr_ConversationID r)), (''turn_id'', AStr (cr_TurnID r)),
      (''terminal_state'', AStr (cr_TerminalState r)), (''completed_at'', AStr (cr_CompletedAt r)),
      (''payload_digest'', AStr (cr_PayloadDigest r))]"

section \<open>Recording through the service\<close>

datatype service_completion_error = ReceiptConflict | ReceiptInvalid receipt_error | StoreRefused completion_error

definition completion_event :: "int \<Rightarrow> completion_receipt \<Rightarrow> p2p_event" where
  "completion_event now receipt = \<lparr>ev_Seq = wrap64 now, ev_Type = ''agent.execution.v2.completed'', ev_RoomID = [],
     ev_EventID = cr_EventID receipt, ev_DedupeKey = ''agent.execution.v2.completed:'' @ cr_EventID receipt,
     ev_Payload = PublicPayload receipt, ev_CreatedAt = rfc3339nano now\<rparr>"

text \<open>The result says whether the receipt was already recorded.\<close>

definition Service_RecordAgentExecutionCompletion ::
  "(string \<Rightarrow> 'u option) \<Rightarrow> ('u \<Rightarrow> string) \<Rightarrow> 'u \<Rightarrow> string \<Rightarrow> int \<Rightarrow> int \<Rightarrow> completion_receipt \<Rightarrow>
   events_module \<times> memory_store \<Rightarrow> (service_completion_error + bool) \<times> events_module \<times> memory_store" where
  "Service_RecordAgentExecutionCompletion parse str unil owner generation now receipt = (\<lambda>(m, s).
     if cr_OwnerID receipt \<noteq> owner \<or> cr_AccountGeneration receipt \<noteq> generation then (Inl ReceiptConflict, m, s)
     else case Receipt_Validate parse str unil receipt of
       Some err \<Rightarrow> (Inl (ReceiptInvalid err), m, s)
     | None \<Rightarrow>
         (case RecordAgentExecutionCompletion receipt (completion_event now receipt) s of
            (inserted, sequence, Some err, s) \<Rightarrow> (Inl (StoreRefused err), m, s)
          | (inserted, sequence, None, s) \<Rightarrow>
              (Inr (\<not> inserted), if inserted then NotifyPersisted sequence m else m, s)))"

section \<open>The digest binds the receipt\<close>

text \<open>Characters that the encoder writes as they are.\<close>

definition json_safe :: "char \<Rightarrow> bool" where
  "json_safe c \<longleftrightarrow> CHR 0x20 \<le> c \<and> c < CHR 0x80 \<and> c \<notin> {CHR 0x22, CHR 0x5C, CHR ''<'', CHR ''>'', CHR ''&''}"

lemma json_ascii_safe:
  assumes "json_safe c"
  shows "json_ascii c = [c]"
proof -
  have lo: "\<not> c < CHR 0x20" using assms by (simp add: json_safe_def not_less)
  have "CHR 0x08 < CHR 0x20" "CHR 0x0C < CHR 0x20" "CHR 0x0A < CHR 0x20" "CHR 0x0D < CHR 0x20" "CHR 0x09 < CHR 0x20"
    by simp_all
  with lo have "c \<noteq> CHR 0x08 \<and> c \<noteq> CHR 0x0C \<and> c \<noteq> CHR 0x0A \<and> c \<noteq> CHR 0x0D \<and> c \<noteq> CHR 0x09" by blast
  with lo assms show ?thesis by (simp add: json_ascii_def json_safe_def)
qed

lemma json_chars_safe: "list_all json_safe s \<Longrightarrow> json_chars s = s"
proof (induction s)
  case (Cons c s)
  then have "c < CHR 0x80" by (simp add: json_safe_def)
  with Cons show ?case by (simp add: json_ascii_safe)
qed simp

lemma json_string_inject:
  assumes "list_all json_safe a" and "list_all json_safe b" and "json_string a @ s = json_string b @ t"
  shows "a = b \<and> s = t"
proof -
  have q: "CHR 0x22 \<notin> set a" "CHR 0x22 \<notin> set b" using assms(1,2) by (auto simp: list_all_iff json_safe_def)
  have "a @ CHR 0x22 # s = b @ CHR 0x22 # t" using assms by (simp add: json_string_def json_chars_safe)
  then show ?thesis using q
  proof (induction a arbitrary: b)
    case Nil
    then show ?case by (cases b) auto
  next
    case (Cons x a)
    then show ?case by (cases b) auto
  qed
qed

lemma json_member_inject:
  assumes "list_all json_safe a" and "list_all json_safe b" and "json_member name a @ s = json_member name b @ t"
  shows "a = b \<and> s = t"
  using json_string_inject [OF assms(1,2), of s t] assms(3) by (simp add: json_member_def)

lemma rfc3339nano_safe: "list_all json_safe (rfc3339nano t)"
proof -
  have "json_safe c" if "time_char c" for c
    using time_char_code [OF that] by (auto simp: json_safe_def less_eq_char_def less_char_def)
  then show ?thesis using rfc3339nano_chars [of t] by (simp add: list_all_iff)
qed

lemma canonical_time_safe: "canonicalCompletionTime v = Some w \<Longrightarrow> list_all json_safe w"
  using rfc3339nano_safe by (auto simp: canonicalCompletionTime_def split: option.splits if_splits)

text \<open>The fields of a receipt the digest covers.\<close>

definition receipt_fields :: "completion_receipt \<Rightarrow> string list" where
  "receipt_fields r = [cr_EventID r, cr_ExecutionID r, cr_RunID r, cr_ConversationID r, cr_TurnID r,
     cr_TerminalState r, cr_CompletedAt r]"

lemma json_members_inject:
  assumes "length vs = length ns" and "length ws = length ns" and "list_all (list_all json_safe) vs"
    and "list_all (list_all json_safe) ws" and "json_members (zip ns vs) @ s = json_members (zip ns ws) @ t"
  shows "vs = ws"
  using assms
proof (induction ns arbitrary: vs ws)
  case (Cons n ns)
  obtain v vs' w ws' where v: "vs = v # vs'" and w: "ws = w # ws'" using Cons.prems(1,2) by (cases vs; cases ws) auto
  have safe: "list_all json_safe v" "list_all json_safe w" using Cons.prems(3,4) v w by simp_all
  show ?case
  proof (cases ns)
    case Nil
    then have "json_member n v @ s = json_member n w @ t" using Cons.prems(5) v w by simp
    from json_member_inject [OF safe this] Nil Cons.prems(1,2) v w show ?thesis by simp
  next
    case (Cons n' ns')
    then obtain x xs y ys where x: "vs' = x # xs" "ws' = y # ys" using Cons.prems(1,2) v w by (cases vs'; cases ws') auto
    have "json_member n v @ ('','' @ json_members (zip ns vs') @ s) = json_member n w @ ('','' @ json_members (zip ns ws') @ t)"
      using Cons.prems(5) v w Cons x by simp
    from json_member_inject [OF safe this] have "v = w" "json_members (zip ns vs') @ s = json_members (zip ns ws') @ t" by simp_all
    then show ?thesis using Cons.IH [of vs' ws'] Cons.prems v w by simp
  qed
qed simp

lemma completion_payload_inject:
  assumes "list_all (list_all json_safe) (receipt_fields r)" and "list_all (list_all json_safe) (receipt_fields q)"
    and "completion_payload r (cr_CompletedAt r) = completion_payload q (cr_CompletedAt q)"
  shows "receipt_fields r = receipt_fields q"
proof (rule json_members_inject [OF _ _ assms(1,2), of _ "''}''" "''}''"])
  let ?ns = "[''event_id'', ''execution_id'', ''run_id'', ''conversation_id'', ''turn_id'', ''terminal_state'', ''completed_at'']"
  show "length (receipt_fields r) = length ?ns" "length (receipt_fields q) = length ?ns" by (simp_all add: receipt_fields_def)
  show "json_members (zip ?ns (receipt_fields r)) @ ''}'' = json_members (zip ?ns (receipt_fields q)) @ ''}''"
    using assms(3) by (simp add: completion_payload_def receipt_fields_def del: json_members.simps)
qed

definition uuid_text :: "string \<Rightarrow> bool" where
  "uuid_text s \<longleftrightarrow> set s \<subseteq> set ''0123456789abcdef-''"

lemma valid_fields_safe:
  assumes "\<And>u. uuid_text (str u)" and "Receipt_Validate parse str unil r = None"
  shows "list_all (list_all json_safe) (receipt_fields r)"
proof -
  have u: "list_all json_safe v" if "canonicalNonNilUUID parse str unil v" for v
  proof -
    obtain x where "str x = v" using \<open>canonicalNonNilUUID parse str unil v\<close> by (auto simp: canonicalNonNilUUID_def split: option.splits)
    then show ?thesis using assms(1) [of x] by (auto simp: uuid_text_def list_all_iff json_safe_def)
  qed
  have t: "list_all json_safe s" if "s \<in> {''succeeded'', ''failed'', ''canceled''}" for s
    using that by (auto simp: json_safe_def)
  have "canonicalCompletionTime (cr_CompletedAt r) = Some (cr_CompletedAt r)"
    using assms(2) by (auto simp: Receipt_Validate_def split: if_splits)
  then have c: "list_all json_safe (cr_CompletedAt r)" by (rule canonical_time_safe)
  show ?thesis
    using assms(2) u t c unfolding Receipt_Validate_def receipt_fields_def by (auto split: if_splits)
qed

lemma hex_digit_code: "d < 16 \<Longrightarrow> of_char (hex_digit d) = (if d < 10 then 48 + d else 87 + d)"
  by (simp add: hex_digit_def)

lemma hex_digit_inject:
  assumes "d < 16" and "e < 16"
  shows "hex_digit d = hex_digit e \<longleftrightarrow> d = e"
proof
  assume "hex_digit d = hex_digit e"
  then have "(if d < 10 then 48 + d else 87 + d) = (if e < 10 then 48 + e else 87 + e)"
    using assms hex_digit_code by metis
  then show "d = e" by (simp split: if_splits)
qed simp

lemma of_char_div: "of_char c div 16 < (16 :: nat)"
  using nat_of_char_less_256 [of c] by (simp add: less_mult_imp_div_less)

lemma hex_encode_inject: "hex_encode a = hex_encode b \<longleftrightarrow> a = b"
proof (induction a arbitrary: b)
  case Nil
  then show ?case by (cases b) (simp_all add: hex_encode_def)
next
  case (Cons x a)
  have "x = y" if "of_char x div 16 = (of_char y div 16 :: nat)" "of_char x mod 16 = (of_char y mod 16 :: nat)" for y
    using that by (metis of_char_eq_iff div_mult_mod_eq)
  then show ?case
    using Cons by (cases b) (auto simp: hex_encode_def hex_digit_inject of_char_div)
qed

text \<open>
  C11: two receipts that pass the validation and carry the same digest agree in all seven fields the
  digest covers, unless their two payloads are a collision of SHA-256.  UUID texts consist of
  lower-case hexadecimal digits and hyphens.
\<close>

theorem completion_digest_binds:
  assumes "\<And>u. uuid_text (str u)"
    and "Receipt_Validate parse str unil r = None" and "Receipt_Validate parse str unil q = None"
    and "cr_PayloadDigest r = cr_PayloadDigest q"
  shows "receipt_fields r = receipt_fields q \<or>
    completion_payload r (cr_CompletedAt r) \<noteq> completion_payload q (cr_CompletedAt q) \<and>
    sha256_sum (completion_payload r (cr_CompletedAt r)) = sha256_sum (completion_payload q (cr_CompletedAt q))"
proof -
  have d: "hex_encode (sha256_sum (completion_payload x (cr_CompletedAt x))) = cr_PayloadDigest x"
    if "Receipt_Validate parse str unil x = None" for x
    using that by (auto simp: Receipt_Validate_def CanonicalAgentExecutionCompletionDigest_def split: if_splits)
  have "sha256_sum (completion_payload r (cr_CompletedAt r)) = sha256_sum (completion_payload q (cr_CompletedAt q))"
    using d [OF assms(2)] d [OF assms(3)] assms(4) hex_encode_inject by metis
  then show ?thesis
    using completion_payload_inject [OF valid_fields_safe [OF assms(1,2)] valid_fields_safe [OF assms(1,3)]] by blast
qed

text \<open>Receipts for the witnesses, with identifiers read by a parser of 36-character texts.\<close>

definition sample_parse :: "string \<Rightarrow> string option" where
  "sample_parse s = (if length s = 36 \<and> uuid_text s then Some s else None)"

definition sample_str :: "string \<Rightarrow> string" where
  "sample_str u = filter (\<lambda>c. c \<in> set ''0123456789abcdef-'') u"

definition sample_uuid :: string where
  "sample_uuid = ''6ba7b810-9dad-11d1-80b4-00c04fd430c8''"

definition unsigned_receipt :: completion_receipt where
  "unsigned_receipt = \<lparr>cr_EventID = sample_uuid, cr_ExecutionID = sample_uuid, cr_RunID = sample_uuid,
     cr_ConversationID = sample_uuid, cr_TurnID = sample_uuid, cr_TerminalState = ''succeeded'',
     cr_CompletedAt = ''1970-01-01T00:00:01Z'', cr_PayloadDigest = [], cr_OwnerID = ''@o:h'', cr_AccountGeneration = 1\<rparr>"

definition signed_receipt :: completion_receipt where
  "signed_receipt = unsigned_receipt\<lparr>cr_PayloadDigest :=
     hex_encode (sha256_sum (completion_payload unsigned_receipt ''1970-01-01T00:00:01Z''))\<rparr>"

lemma hex_encode_chars: "c \<in> set (hex_encode s) \<Longrightarrow> is_hex c \<and> ascii_lower c = c \<and> c < CHR 0x80"
proof -
  assume "c \<in> set (hex_encode s)"
  then obtain d :: nat where d: "d < 16" "c = hex_digit d"
    using of_char_div mod_less_divisor [of 16] unfolding hex_encode_def
    by auto (metis mod_less_divisor zero_less_numeral)
  have "of_char c = (if d < 10 then 48 + d else 87 + d)" using d hex_digit_code by simp
  then show ?thesis
    using d(1) by (simp add: is_hex_def is_digit_def ascii_lower_def less_eq_char_def less_char_def split: if_splits)
qed

lemma go_lower_ascii: "list_all (\<lambda>c. ascii_lower c = c \<and> c < CHR 0x80) s \<Longrightarrow> go_lower s = s"
  by (induction s rule: go_lower.induct) auto

lemma signed_receipt_valid:
  assumes "0 < g"
  shows "Receipt_Validate sample_parse sample_str [] (signed_receipt\<lparr>cr_AccountGeneration := g\<rparr>) = None"
proof -
  let ?r = "signed_receipt\<lparr>cr_AccountGeneration := g\<rparr>"
  let ?p = "completion_payload unsigned_receipt ''1970-01-01T00:00:01Z''"
  let ?d = "hex_encode (sha256_sum ?p)"
  have len: "length ?d = 64" by (simp add: length_sha256_sum)
  have chars: "list_all is_hex ?d" "list_all (\<lambda>c. ascii_lower c = c \<and> c < CHR 0x80) ?d"
    using hex_encode_chars by (auto simp: list_all_iff)
  have low: "go_lower ?d = ?d" by (rule go_lower_ascii [OF chars(2)])
  have u: "canonicalNonNilUUID sample_parse sample_str [] sample_uuid"
    by (simp add: canonicalNonNilUUID_def sample_parse_def sample_str_def sample_uuid_def uuid_text_def)
  have c: "canonicalCompletionTime ''1970-01-01T00:00:01Z'' = Some ''1970-01-01T00:00:01Z''" by code_simp
  have p: "completion_payload ?r t = completion_payload unsigned_receipt t" for t
    by (simp add: completion_payload_def signed_receipt_def)
  have o: "go_trim ''@o:h'' = ''@o:h''" by (simp add: go_trim_ascii ascii_graph_def)
  have f: "cr_PayloadDigest ?r = ?d" "cr_CompletedAt ?r = ''1970-01-01T00:00:01Z''"
    "cr_EventID ?r = sample_uuid" "cr_ExecutionID ?r = sample_uuid" "cr_RunID ?r = sample_uuid"
    "cr_ConversationID ?r = sample_uuid" "cr_TurnID ?r = sample_uuid"
    "cr_TerminalState ?r = ''succeeded''" "cr_OwnerID ?r = ''@o:h''" "cr_AccountGeneration ?r = g"
    by (simp_all add: signed_receipt_def unsigned_receipt_def)
  show ?thesis
    unfolding Receipt_Validate_def CanonicalAgentExecutionCompletionDigest_def f p
    using len chars(1) low u c o assms by simp
qed

theorem completion_digest_binds_witness:
  "let r = signed_receipt\<lparr>cr_AccountGeneration := 1\<rparr>; q = signed_receipt\<lparr>cr_AccountGeneration := 2\<rparr>
   in Receipt_Validate sample_parse sample_str [] r = None \<and> Receipt_Validate sample_parse sample_str [] q = None \<and>
      (receipt_fields r = receipt_fields q \<or>
       completion_payload r (cr_CompletedAt r) \<noteq> completion_payload q (cr_CompletedAt q) \<and>
       sha256_sum (completion_payload r (cr_CompletedAt r)) = sha256_sum (completion_payload q (cr_CompletedAt q)))"
proof -
  have u: "uuid_text (sample_str u)" for u by (auto simp: uuid_text_def sample_str_def)
  have v: "Receipt_Validate sample_parse sample_str [] (signed_receipt\<lparr>cr_AccountGeneration := g\<rparr>) = None" if "0 < g" for g
    using that by (rule signed_receipt_valid)
  from completion_digest_binds [OF u v v, of 1 2] v [of 1] v [of 2] show ?thesis by (simp add: Let_def)
qed

section \<open>Recording\<close>

lemma NotifyPersisted_fence:
  "0 < q \<Longrightarrow> Waiter m < Waiter (NotifyPersisted q m) \<and> em_nextSeq m \<le> em_nextSeq (NotifyPersisted q m) \<and>
     q \<le> em_nextSeq (NotifyPersisted q m)"
  by (simp add: NotifyPersisted_def notify_def Waiter_def)

text \<open>
  C12: the service records a valid receipt of the owner's account once.  The first call appends the
  completion event, wakes every waiter and raises the sequence fence to the event, so that the next
  append is numbered after it; every later call with the receipt reports a replay and changes nothing.
\<close>

theorem service_completion_once:
  assumes "Service_RecordAgentExecutionCompletion parse str unil owner gen now r (m, s) = (Inr False, m1, s1)"
  shows "Receipt_Validate parse str unil r = None \<and> cr_OwnerID r = owner \<and> cr_AccountGeneration r = gen \<and>
    (\<exists>q>0. ms_events s1 = ms_events s @ [(completion_event now r)\<lparr>ev_Seq := q\<rparr>] \<and>
       gget (ms_eventSeq s) q = None \<and> q \<le> em_nextSeq m1 \<and> Waiter m < Waiter m1 \<and>
       (em_nextSeq m1 < 2 ^ 63 - 1 \<longrightarrow> q < ev_Seq (fst (alloc_seq later e m1)))) \<and>
    Service_RecordAgentExecutionCompletion parse str unil owner gen now' r (m1, s1) = (Inr True, m1, s1)"
proof -
  have v: "cr_OwnerID r = owner" "cr_AccountGeneration r = gen" "Receipt_Validate parse str unil r = None"
    using assms by (auto simp: Service_RecordAgentExecutionCompletion_def split: if_splits option.splits prod.splits)
  obtain q where c: "RecordAgentExecutionCompletion r (completion_event now r) s = (True, q, None, s1)"
    and m1: "m1 = NotifyPersisted q m"
    using assms v by (auto simp: Service_RecordAgentExecutionCompletion_def split: option.splits prod.splits if_splits)
  note C = completion_cases [OF c, simplified]
  have q: "0 < q" "gget (ms_eventSeq s) q = None"
    using C next_free_spec [of "ms_eventSeq s" "ev_Seq (completion_event now r)"] by auto
  have es: "ms_events s1 = ms_events s @ [(completion_event now r)\<lparr>ev_Seq := q\<rparr>]" using C by simp
  have rec: "recorded r q s1" using C by (elim conjE)
  have fence: "Waiter m < Waiter m1" "q \<le> em_nextSeq m1" using NotifyPersisted_fence [OF q(1), of m] m1 by simp_all
  have "q < ev_Seq (fst (alloc_seq later e m1))" if "em_nextSeq m1 < 2 ^ 63 - 1"
  proof -
    obtain e' m' where a: "alloc_seq later e m1 = (e', m')" by fastforce
    from alloc_seq_above [OF this _ that] fence(2) q(1) show ?thesis by (simp add: a)
  qed
  moreover have "Service_RecordAgentExecutionCompletion parse str unil owner gen now' r (m1, s1) = (Inr True, m1, s1)"
    using v completion_retry [OF rec] by (simp add: Service_RecordAgentExecutionCompletion_def)
  ultimately show ?thesis using v q es fence by blast
qed

lemma signed_one: "signed_receipt\<lparr>cr_AccountGeneration := 1\<rparr> = signed_receipt"
  by (simp add: signed_receipt_def unsigned_receipt_def)

theorem service_completion_once_witness:
  "\<exists>m1 s1. Service_RecordAgentExecutionCompletion sample_parse sample_str [] ''@o:h'' 1 7 signed_receipt
       (New_events 0 False, NewMemoryStore) = (Inr False, m1, s1) \<and>
     Service_RecordAgentExecutionCompletion sample_parse sample_str [] ''@o:h'' 1 9 signed_receipt (m1, s1) = (Inr True, m1, s1)"
proof -
  have f: "cr_OwnerID signed_receipt = ''@o:h''" "cr_AccountGeneration signed_receipt = 1"
    by (simp_all add: signed_receipt_def unsigned_receipt_def)
  have "wrap64 7 = 7" by (simp add: wrap64_id int64_range_def)
  then obtain q s1 where "RecordAgentExecutionCompletion signed_receipt (completion_event 7 signed_receipt) NewMemoryStore = (True, q, None, s1)"
    by (simp add: RecordAgentExecutionCompletion_def NewMemoryStore_def completion_event_def Let_def)
  then have a: "Service_RecordAgentExecutionCompletion sample_parse sample_str [] ''@o:h'' 1 7 signed_receipt
       (New_events 0 False, NewMemoryStore) = (Inr False, NotifyPersisted q (New_events 0 False), s1)"
    using f signed_receipt_valid [of 1] by (simp add: signed_one Service_RecordAgentExecutionCompletion_def)
  from service_completion_once [OF a] a show ?thesis by blast
qed

end
