(* ===== verification/Calls.thy ===== *)
theory Calls
  imports Action_Registry Events_Module Store_Tables
begin

text \<open>
  Call sessions (\<open>p2p/internal/calls\<close>): the handlers of \<open>module.go\<close> and the lifecycle fields of
  \<open>lifecycle.go\<close>, over the module's store and event interface.  The properties are proved once against
  the contract \<open>call_store\<close> and instantiated with the in-memory store and the event stream: a call that
  has ended keeps its state whatever requests follow, and the duration of a call between two server
  timestamps is their distance in milliseconds.
\<close>

section \<open>Lifecycle\<close>

fun callTimeParam :: "(rat \<Rightarrow> int) \<Rightarrow> any list \<Rightarrow> string" where
  "callTimeParam f [] = []"
| "callTimeParam f (value # values) = (case value of
       AStr typed \<Rightarrow>
         let text = go_trim typed
         in if text = [] then callTimeParam f values
            else (case parse_rfc3339nano text of
                    Some parsed \<Rightarrow> rfc3339nano parsed
                  | None \<Rightarrow> callTimeParam f values)
     | _ \<Rightarrow>
         let milliseconds = Params_Int64 f value
         in if milliseconds > 0 then rfc3339nano (milliseconds * 10 ^ 6) else callTimeParam f values)"

definition callDurationMS :: "string \<Rightarrow> string \<Rightarrow> int" where
  "callDurationMS start end =
     (case (parse_rfc3339nano (go_trim start), parse_rfc3339nano (go_trim end)) of
        (Some startTime, Some endTime) \<Rightarrow>
          let duration = time_sub endTime startTime in if duration < 0 then 0 else milliseconds duration
      | _ \<Rightarrow> 0)"

definition fallback :: "string \<Rightarrow> string \<Rightarrow> string" where
  "fallback value fallbackValue = (if value \<noteq> [] then value else fallbackValue)"

definition end_events :: "string list" where
  "end_events = [''ended'', ''rejected'', ''missed'', ''failed'']"

definition answered_time :: "(rat \<Rightarrow> int) \<Rightarrow> content \<Rightarrow> int \<Rightarrow> call_record \<Rightarrow> string" where
  "answered_time f params now call =
     (let answeredAt = callTimeParam f [cget params ''answered_at'', cget params ''answered_at_ms'']
      in if answeredAt \<noteq> [] then answeredAt
         else if ca_AnsweredAt call = [] then rfc3339nano now else ca_AnsweredAt call)"

definition ended_time :: "(rat \<Rightarrow> int) \<Rightarrow> content \<Rightarrow> int \<Rightarrow> call_record \<Rightarrow> string" where
  "ended_time f params now call =
     (let endedAt = callTimeParam f [cget params ''ended_at'', cget params ''ended_at_ms'']
      in if endedAt \<noteq> [] then endedAt else if ca_EndedAt call = [] then rfc3339nano now else ca_EndedAt call)"

definition applyCallLifecycle ::
  "(rat \<Rightarrow> int) \<Rightarrow> string \<Rightarrow> content \<Rightarrow> int \<Rightarrow> string \<Rightarrow> call_record \<Rightarrow> call_record" where
  "applyCallLifecycle f event params now localUserID call =
     (if event = ''connected'' then call\<lparr>ca_AnsweredAt := answered_time f params now call\<rparr>
      else if event \<in> set end_events then
        let call = call\<lparr>ca_EndedAt := ended_time f params now call,
                        ca_EndedByMXID := fallback (Params_String (cget params ''ended_by_mxid'')) localUserID,
                        ca_EndReason := Params_String (cget params ''reason'')\<rparr>;
            durationMS = Params_Int64 f (cget params ''duration_ms'')
        in if durationMS > 0 then call\<lparr>ca_DurationMS := durationMS\<rparr>
           else if ca_DurationMS call \<le> 0
           then call\<lparr>ca_DurationMS := callDurationMS (ca_AnsweredAt call) (ca_EndedAt call)\<rparr>
           else call
      else call)"

section \<open>The module\<close>

text \<open>
  The module's \<open>Store\<close> and \<open>PublishEvent\<close>; the latter may be nil.  A failing call returns its error
  and the state it leaves.
\<close>

record 's call_ops =
  co_UpsertCall :: "call_record \<Rightarrow> 's \<Rightarrow> string option \<times> 's"
  co_ListCalls :: "'s \<Rightarrow> string \<Rightarrow> bool \<Rightarrow> string + call_record list"
  co_PublishEvent :: "(p2p_event \<Rightarrow> 's \<Rightarrow> string option \<times> 's) option"

record calls_config =
  cc_serverName :: string
  cc_ownerMXID :: string

text \<open>The published record as its JSON object.\<close>

definition call_value :: "call_record \<Rightarrow> any" where
  "call_value c = AMap (
     [(''call_id'', AStr (ca_CallID c)), (''room_id'', AStr (ca_RoomID c)), (''room_type'', AStr (ca_RoomType c)),
      (''media_type'', AStr (ca_MediaType c)), (''created_by_mxid'', AStr (ca_CreatedByMXID c)),
      (''state'', AStr (ca_State c)), (''created_at'', AStr (ca_CreatedAt c))] @
     (if ca_AnsweredAt c = [] then [] else [(''answered_at'', AStr (ca_AnsweredAt c))]) @
     (if ca_EndedAt c = [] then [] else [(''ended_at'', AStr (ca_EndedAt c))]) @
     (if ca_EndedByMXID c = [] then [] else [(''ended_by_mxid'', AStr (ca_EndedByMXID c))]) @
     (if ca_EndReason c = [] then [] else [(''end_reason'', AStr (ca_EndReason c))]) @
     (if ca_DurationMS c = 0 then [] else [(''duration_ms'', AInt64 (ca_DurationMS c))]))"

definition call_event :: "call_record \<Rightarrow> p2p_event" where
  "call_event call = \<lparr>ev_Seq = 0, ev_Type = ''call.changed'', ev_RoomID = ca_RoomID call, ev_EventID = [],
     ev_DedupeKey = [], ev_Payload = [(''call'', call_value call)], ev_CreatedAt = []\<rparr>"

definition publishChanged :: "'s call_ops \<Rightarrow> call_record \<Rightarrow> 's \<Rightarrow> string option \<times> 's" where
  "publishChanged ops call s = (case co_PublishEvent ops of None \<Rightarrow> (None, s) | Some publish \<Rightarrow> publish (call_event call) s)"

definition callByID :: "'s call_ops \<Rightarrow> string \<Rightarrow> 's \<Rightarrow> string + call_record option" where
  "callByID ops callID s = (case co_ListCalls ops s [] False of
       Inl err \<Rightarrow> Inl err
     | Inr calls \<Rightarrow> Inr (find (\<lambda>call. ca_CallID call = callID) calls))"

text \<open>The common end of the two writing handlers.\<close>

definition save_call :: "'s call_ops \<Rightarrow> call_record \<Rightarrow> 's \<Rightarrow> (action_error + call_record) \<times> 's" where
  "save_call ops call s = (case co_UpsertCall ops call s of
       (Some err, s) \<Rightarrow> (Inl (InternalError err), s)
     | (None, s) \<Rightarrow> (case publishChanged ops call s of
           (Some err, s) \<Rightarrow> (Inl (InternalError err), s)
         | (None, s) \<Rightarrow> (Inr call, s)))"

definition session_call ::
  "(rat \<Rightarrow> int) \<Rightarrow> calls_config \<Rightarrow> content \<Rightarrow> int \<Rightarrow> string \<Rightarrow> call_record" where
  "session_call f cfg values now callID =
     (let roomID = Params_String (cget values ''room_id'');
          createdAt = callTimeParam f [cget values ''created_at'', cget values ''created_at_ms'']
      in \<lparr>ca_CallID = callID,
          ca_RoomID = (if roomID = [] then ''!call:'' @ cc_serverName cfg else roomID),
          ca_RoomType = ''direct'',
          ca_MediaType = fallback (Params_String (cget values ''media_type'')) ''voice'',
          ca_CreatedByMXID = fallback (Params_String (cget values ''created_by_mxid'')) (cc_ownerMXID cfg),
          ca_State = fallback (Params_String (cget values ''event'')) ''ringing'',
          ca_CreatedAt = (if createdAt = [] then rfc3339nano now else createdAt),
          ca_AnsweredAt = [], ca_EndedAt = [], ca_EndedByMXID = [], ca_EndReason = [], ca_DurationMS = 0\<rparr>)"

text \<open>\<open>newID\<close> is the identifier \<open>newCallID\<close> returns.\<close>

definition handleSession ::
  "(rat \<Rightarrow> int) \<Rightarrow> calls_config \<Rightarrow> 's call_ops \<Rightarrow> int \<Rightarrow> string \<Rightarrow> content \<Rightarrow> 's \<Rightarrow> (action_error + call_record) \<times> 's" where
  "handleSession f cfg ops now newID values s =
     (let callID = fallback (Params_String (cget values ''call_id'')) newID;
          call = session_call f cfg values now callID
      in case callByID ops callID s of
           Inl err \<Rightarrow> (Inl (InternalError err), s)
         | Inr existing \<Rightarrow>
             (case existing of
                Some call' \<Rightarrow> if TerminalCallState (ca_State call') then (Inr call', s)
                              else save_call ops (applyCallLifecycle f (ca_State call) values now (cc_ownerMXID cfg) call) s
              | None \<Rightarrow> save_call ops (applyCallLifecycle f (ca_State call) values now (cc_ownerMXID cfg) call) s))"

definition handleGet :: "'s call_ops \<Rightarrow> content \<Rightarrow> 's \<Rightarrow> action_error + call_record" where
  "handleGet ops params s =
     (let callID = Params_String (cget params ''call_id'')
      in if callID = [] then Inl (BadRequest ''call_id is required'')
         else case callByID ops callID s of
           Inl err \<Rightarrow> Inl (InternalError err)
         | Inr None \<Rightarrow> Inl (StatusError 404 ''call not found'')
         | Inr (Some call) \<Rightarrow> Inr call)"

definition handleEvent ::
  "(rat \<Rightarrow> int) \<Rightarrow> calls_config \<Rightarrow> 's call_ops \<Rightarrow> int \<Rightarrow> content \<Rightarrow> 's \<Rightarrow> (action_error + call_record) \<times> 's" where
  "handleEvent f cfg ops now values s =
     (let callID = Params_String (cget values ''call_id''); event = Params_String (cget values ''event'')
      in if callID = [] then (Inl (BadRequest ''call_id is required''), s)
         else if event \<noteq> ''connected'' \<and> event \<notin> set end_events
         then (Inl (BadRequest ''event must be connected, ended, rejected, missed, or failed''), s)
         else case callByID ops callID s of
           Inl err \<Rightarrow> (Inl (InternalError err), s)
         | Inr None \<Rightarrow> (Inl (StatusError 404 ''call not found''), s)
         | Inr (Some call) \<Rightarrow>
             if TerminalCallState (ca_State call) \<and> ca_State call \<noteq> event then (Inr call, s)
             else let mediaType = Params_String (cget values ''media_type'');
                      call = call\<lparr>ca_State := event,
                                  ca_MediaType := (if mediaType \<noteq> [] then mediaType else ca_MediaType call)\<rparr>
                  in save_call ops (applyCallLifecycle f event values now (cc_ownerMXID cfg) call) s)"

definition listHandler :: "'s call_ops \<Rightarrow> bool \<Rightarrow> content \<Rightarrow> 's \<Rightarrow> action_error + call_record list" where
  "listHandler ops activeOnly params s =
     (case co_ListCalls ops s (Params_String (cget params ''room_id'')) activeOnly of
        Inl err \<Rightarrow> Inl (InternalError err)
      | Inr calls \<Rightarrow> Inr calls)"

section \<open>The in-memory store and the event stream behind the interface\<close>

definition memory_call_ops :: "int \<Rightarrow> (events_module \<times> memory_store) call_ops" where
  "memory_call_ops now = \<lparr>
     co_UpsertCall = (\<lambda>call (m, s). (None, m, UpsertCall call s)),
     co_ListCalls = (\<lambda>(m, s) roomID activeOnly. Inr (ListCalls s roomID activeOnly)),
     co_PublishEvent = Some (Append (Some memory_event_ops) now)\<rparr>"

section \<open>The contract of the store\<close>

locale call_store =
  fixes ops :: "'s call_ops" and look :: "'s \<Rightarrow> string \<Rightarrow> call_record option" and inv :: "'s \<Rightarrow> bool"
  assumes upsert: "inv s \<Longrightarrow> co_UpsertCall ops c s = (None, s') \<Longrightarrow>
      inv s' \<and> (\<forall>k. look s' k = (if k = ca_CallID c then Some c else look s k))"
    and upsert_error: "inv s \<Longrightarrow> co_UpsertCall ops c s = (Some err, s') \<Longrightarrow> inv s' \<and> look s' = look s"
    and listed: "inv s \<Longrightarrow> co_ListCalls ops s [] False = Inr cs \<Longrightarrow> c \<in> set cs \<longleftrightarrow> look s (ca_CallID c) = Some c"
    and look_key: "inv s \<Longrightarrow> look s k = Some c \<Longrightarrow> ca_CallID c = k"
    and published: "inv s \<Longrightarrow> co_PublishEvent ops = Some publish \<Longrightarrow> publish e s = (r, s') \<Longrightarrow> inv s' \<and> look s' = look s"

text \<open>What a finished call keeps.\<close>

definition same_end :: "call_record \<Rightarrow> call_record \<Rightarrow> bool" where
  "same_end c d \<longleftrightarrow> ca_CallID d = ca_CallID c \<and> ca_State d = ca_State c \<and> ca_RoomID d = ca_RoomID c \<and>
     ca_CreatedByMXID d = ca_CreatedByMXID c \<and> ca_CreatedAt d = ca_CreatedAt c \<and> ca_AnsweredAt d = ca_AnsweredAt c"

lemma applyCallLifecycle_keeps:
  "ca_CallID (applyCallLifecycle f ev p now u c) = ca_CallID c"
  "ca_State (applyCallLifecycle f ev p now u c) = ca_State c"
  "ca_RoomID (applyCallLifecycle f ev p now u c) = ca_RoomID c"
  "ca_CreatedByMXID (applyCallLifecycle f ev p now u c) = ca_CreatedByMXID c"
  "ca_CreatedAt (applyCallLifecycle f ev p now u c) = ca_CreatedAt c"
  "ev \<noteq> ''connected'' \<Longrightarrow> ca_AnsweredAt (applyCallLifecycle f ev p now u c) = ca_AnsweredAt c"
  by (simp_all add: applyCallLifecycle_def Let_def)

context call_store
begin

lemma callByID_look:
  assumes "inv s" and "callByID ops k s = Inr r"
  shows "r = look s k"
proof -
  obtain cs where cs: "co_ListCalls ops s [] False = Inr cs" and r: "r = find (\<lambda>c. ca_CallID c = k) cs"
    using assms(2) by (auto simp: callByID_def split: sum.splits)
  show ?thesis
  proof (cases r)
    case None
    then have "\<forall>c\<in>set cs. ca_CallID c \<noteq> k" using r by (auto simp: find_None_iff)
    have "look s k = None"
    proof (cases "look s k")
      case (Some c)
      then have "ca_CallID c = k" by (rule look_key [OF assms(1)])
      with Some listed [OF assms(1) cs, of c] \<open>\<forall>c\<in>set cs. ca_CallID c \<noteq> k\<close> show ?thesis by simp
    qed
    with None show ?thesis by simp
  next
    case (Some c)
    then have "c \<in> set cs" "ca_CallID c = k" using r by (auto simp: find_Some_iff)
    with listed [OF assms(1) cs, of c] Some show ?thesis by simp
  qed
qed

lemma save_call_look:
  assumes "inv s" and "save_call ops c s = (r, s')"
  shows "inv s' \<and> (look s' = look s \<or> (\<forall>k. look s' k = (if k = ca_CallID c then Some c else look s k)))"
proof -
  obtain err t where u: "co_UpsertCall ops c s = (err, t)" by fastforce
  show ?thesis
  proof (cases err)
    case (Some e)
    then show ?thesis using upsert_error [OF assms(1)] u assms(2) by (simp add: save_call_def)
  next
    case None
    note U = upsert [OF assms(1) u [unfolded None]]
    have "inv s' \<and> look s' = look t"
    proof (cases "co_PublishEvent ops")
      case None
      then show ?thesis using assms(2) u \<open>err = None\<close> U by (simp add: save_call_def publishChanged_def)
    next
      case (Some publish)
      obtain e' w where p: "publish (call_event c) t = (e', w)" by fastforce
      then have "s' = w" using assms(2) u \<open>err = None\<close> Some
        by (auto simp: save_call_def publishChanged_def split: option.splits)
      with published [OF _ Some p] U show ?thesis by simp
    qed
    with U show ?thesis by simp
  qed
qed

lemma session_result:
  assumes "inv s" and "handleSession f cfg ops now newID values s = (r, s')"
  shows "inv s' \<and> (\<forall>k c. look s k = Some c \<and> TerminalCallState (ca_State c) \<longrightarrow> look s' k = Some c)"
proof -
  let ?k = "fallback (Params_String (cget values ''call_id'')) newID"
  let ?c = "session_call f cfg values now ?k"
  let ?d = "applyCallLifecycle f (ca_State ?c) values now (cc_ownerMXID cfg) ?c"
  have id: "ca_CallID ?d = ?k" by (simp add: applyCallLifecycle_keeps session_call_def Let_def)
  consider (same) "s' = s" | (saved) "save_call ops ?d s = (r, s')" "\<not> (\<exists>c. look s ?k = Some c \<and> TerminalCallState (ca_State c))"
    using assms callByID_look [OF assms(1), of ?k]
    by (auto simp: handleSession_def Let_def split: sum.splits option.splits if_splits)
  then show ?thesis
  proof cases
    case same
    with assms(1) show ?thesis by simp
  next
    case saved
    have i: "inv s'" and L: "look s' = look s \<or> (\<forall>j. look s' j = (if j = ?k then Some ?d else look s j))"
      using save_call_look [OF assms(1) saved(1)] id by simp_all
    have "look s' k = Some c" if c: "look s k = Some c" "TerminalCallState (ca_State c)" for k c
      using L c saved(2) by (cases "k = ?k") (metis (no_types, lifting))+
    with i show ?thesis by blast
  qed
qed

lemma event_result:
  assumes "inv s" and "handleEvent f cfg ops now values s = (r, s')"
  shows "inv s' \<and> (\<forall>k c. look s k = Some c \<and> TerminalCallState (ca_State c) \<longrightarrow> (\<exists>d. look s' k = Some d \<and> same_end c d))"
proof -
  let ?k = "Params_String (cget values ''call_id'')"
  let ?e = "Params_String (cget values ''event'')"
  let ?m = "Params_String (cget values ''media_type'')"
  consider (same) "s' = s"
    | (saved) c where "look s ?k = Some c" "\<not> TerminalCallState (ca_State c) \<or> ca_State c = ?e"
        "save_call ops (applyCallLifecycle f ?e values now (cc_ownerMXID cfg)
           (c\<lparr>ca_State := ?e, ca_MediaType := (if ?m \<noteq> [] then ?m else ca_MediaType c)\<rparr>)) s = (r, s')"
    using assms callByID_look [OF assms(1), of ?k]
    by (auto simp: handleEvent_def Let_def split: sum.splits option.splits if_splits)
  then show ?thesis
  proof cases
    case same
    with assms(1) show ?thesis by (auto simp: same_end_def)
  next
    case saved
    let ?d = "applyCallLifecycle f ?e values now (cc_ownerMXID cfg)
           (c\<lparr>ca_State := ?e, ca_MediaType := (if ?m \<noteq> [] then ?m else ca_MediaType c)\<rparr>)"
    have id: "ca_CallID c = ?k" by (rule look_key [OF assms(1) saved(1)])
    have "same_end c ?d" if t: "TerminalCallState (ca_State c)"
    proof -
      have e: "ca_State c = ?e" using saved(2) t by simp
      have "?e \<noteq> ''connected''"
      proof
        assume "?e = ''connected''"
        moreover have "\<not> TerminalCallState ''connected''" by code_simp
        ultimately show False using t e by simp
      qed
      then show ?thesis using e by (simp add: same_end_def applyCallLifecycle_keeps)
    qed
    then have d: "TerminalCallState (ca_State c) \<Longrightarrow> same_end c ?d" .
    have refl: "same_end x x" for x by (simp add: same_end_def)
    have "ca_CallID ?d = ?k" using id by (simp add: applyCallLifecycle_keeps)
    with save_call_look [OF assms(1) saved(3)] have i: "inv s'"
      and L: "look s' = look s \<or> (\<forall>j. look s' j = (if j = ?k then Some ?d else look s j))" by simp_all
    have "\<exists>y. look s' k = Some y \<and> same_end x y" if x: "look s k = Some x" "TerminalCallState (ca_State x)" for k x
    proof (cases "look s' = look s \<or> k \<noteq> ?k")
      case True
      then have "look s' k = Some x" using L x(1) by (metis (no_types, lifting))
      with refl show ?thesis by blast
    next
      case False
      then have "look s' k = Some ?d" "x = c" using L x(1) saved(1) by auto
      with d x(2) show ?thesis by blast
    qed
    with i show ?thesis by blast
  qed
qed

end

lemma Append_calls:
  assumes "Append (Some memory_event_ops) now e (m, s) = (err, m', s')"
  shows "ms_calls s' = ms_calls s"
  using assms
  by (auto simp: Append_def alloc_seq_def persist_event_def memory_event_ops_def InsertEvent_def PruneEventsToMaxRows_def
      rebuildEventIndexesLocked_def Let_def apfst_def map_prod_def split: prod.splits if_splits)

definition look_call :: "events_module \<times> memory_store \<Rightarrow> string \<Rightarrow> call_record option" where
  "look_call = (\<lambda>(m, s). gget (ms_calls s))"

definition calls_ok :: "events_module \<times> memory_store \<Rightarrow> bool" where
  "calls_ok = (\<lambda>(m, s). keyed ca_CallID (ms_calls s))"

interpretation memory_calls: call_store "memory_call_ops now" look_call calls_ok
proof
  fix s s' :: "events_module \<times> memory_store" and c e cs k r publish err
  assume "calls_ok s"
  then obtain m t where s: "s = (m, t)" and ok: "keyed ca_CallID (ms_calls t)" by (cases s) (simp add: calls_ok_def)
  show "calls_ok s' \<and> (\<forall>k. look_call s' k = (if k = ca_CallID c then Some c else look_call s k))"
    if "co_UpsertCall (memory_call_ops now) c s = (None, s')"
  proof -
    have "s' = (m, UpsertCall c t)" using that s by (simp add: memory_call_ops_def)
    then show ?thesis using calls.look_put [OF ok] calls.ok_put [OF ok] s by (simp add: look_call_def calls_ok_def)
  qed
  show "calls_ok s' \<and> look_call s' = look_call s" if "co_UpsertCall (memory_call_ops now) c s = (Some err, s')"
    using that s by (simp add: memory_call_ops_def)
  show "c \<in> set cs \<longleftrightarrow> look_call s (ca_CallID c) = Some c" if "co_ListCalls (memory_call_ops now) s [] False = Inr cs"
    using that s calls.rows_look [OF ok, of c] by (simp add: memory_call_ops_def look_call_def)
  show "ca_CallID c = k" if "look_call s k = Some c"
    using that s keyed_key [OF ok] by (simp add: look_call_def)
  show "calls_ok s' \<and> look_call s' = look_call s"
    if "co_PublishEvent (memory_call_ops now) = Some publish" "publish e s = (r, s')"
  proof -
    obtain m' t' where s': "s' = (m', t')" by (cases s')
    then have "Append (Some memory_event_ops) now e (m, t) = (r, m', t')" using that s by (simp add: memory_call_ops_def)
    then show ?thesis using Append_calls ok s s' by (simp add: look_call_def calls_ok_def)
  qed
qed

section \<open>Properties\<close>

text \<open>The requests that change calls, with any parameters, at any time.\<close>

inductive call_step :: "events_module \<times> memory_store \<Rightarrow> events_module \<times> memory_store \<Rightarrow> bool" where
  step_session: "handleSession f cfg (memory_call_ops t) now newID values s = (r, s') \<Longrightarrow> call_step s s'"
| step_event: "handleEvent f cfg (memory_call_ops t) now values s = (r, s') \<Longrightarrow> call_step s s'"

lemma call_step_ended:
  assumes "call_step s s'" and "calls_ok s"
  shows "calls_ok s' \<and> (\<forall>k c. look_call s k = Some c \<and> TerminalCallState (ca_State c) \<longrightarrow>
    (\<exists>d. look_call s' k = Some d \<and> same_end c d))"
  using assms(1)
proof cases
  case step_session
  have "same_end x x" for x by (simp add: same_end_def)
  with memory_calls.session_result [OF assms(2) step_session] show ?thesis by blast
next
  case step_event
  with memory_calls.event_result [OF assms(2)] show ?thesis by blast
qed

lemma same_end_trans: "same_end a b \<Longrightarrow> same_end b c \<Longrightarrow> same_end a c"
  by (simp add: same_end_def)

lemma same_end_state: "same_end a b \<Longrightarrow> ca_State b = ca_State a"
  by (simp add: same_end_def)

text \<open>
  C13: a call that has ended stays ended: whatever session and event requests follow, it keeps its
  state, its room, its creator and the times at which it was created and answered.
\<close>

theorem ended_call_stable:
  assumes "call_step\<^sup>*\<^sup>* s s'" and "calls_ok s"
    and "look_call s k = Some c" and "TerminalCallState (ca_State c)"
  shows "\<exists>d. look_call s' k = Some d \<and> same_end c d"
proof -
  have "calls_ok s' \<and> (\<exists>d. look_call s' k = Some d \<and> same_end c d)"
    using assms
  proof (induction rule: rtranclp_induct)
    case base
    then show ?case by (simp add: same_end_def)
  next
    case (step y z)
    then obtain d where d: "look_call y k = Some d" "same_end c d" and ok: "calls_ok y" by blast
    then have "TerminalCallState (ca_State d)" using step.prems(3) same_end_state by metis
    with call_step_ended [OF step.hyps(2) ok] d same_end_trans show ?case by blast
  qed
  then show ?thesis by blast
qed

definition ended_call :: call_record where
  "ended_call = \<lparr>ca_CallID = ''c1'', ca_RoomID = ''!r:h'', ca_RoomType = ''direct'', ca_MediaType = ''voice'',
     ca_CreatedByMXID = ''@a:h'', ca_State = ''ended'', ca_CreatedAt = ''1970-01-01T00:00:00Z'', ca_AnsweredAt = [],
     ca_EndedAt = ''1970-01-01T00:00:01Z'', ca_EndedByMXID = ''@a:h'', ca_EndReason = [], ca_DurationMS = 0\<rparr>"

theorem ended_call_stable_witness:
  "let s = (New_events 0 False, UpsertCall ended_call NewMemoryStore);
       s' = snd (handleEvent float_trunc \<lparr>cc_serverName = ''h'', cc_ownerMXID = ''@a:h''\<rparr> (memory_call_ops 1) 1
              [(''call_id'', AStr ''c1''), (''event'', AStr ''ended'')] s)
   in \<exists>d. look_call s' ''c1'' = Some d \<and> same_end ended_call d"
proof -
  let ?s = "(New_events 0 False, UpsertCall ended_call NewMemoryStore)"
  let ?h = "handleEvent float_trunc \<lparr>cc_serverName = ''h'', cc_ownerMXID = ''@a:h''\<rparr> (memory_call_ops 1) 1
              [(''call_id'', AStr ''c1''), (''event'', AStr ''ended'')] ?s"
  have ok: "calls_ok ?s" by (simp add: calls_ok_def UpsertCall_def NewMemoryStore_def)
  have look: "look_call ?s ''c1'' = Some ended_call"
    by (simp add: look_call_def UpsertCall_def NewMemoryStore_def ended_call_def)
  have t: "TerminalCallState (ca_State ended_call)" by code_simp
  have "call_step ?s (snd ?h)" by (rule step_event [of _ _ _ _ _ _ "fst ?h"]) simp
  then have "call_step\<^sup>*\<^sup>* ?s (snd ?h)" by blast
  from ended_call_stable [OF this ok look t] show ?thesis by (simp only: Let_def)
qed

text \<open>
  Between two times the server wrote, the duration of a call is their distance in whole
  milliseconds, and zero when the call ended before it was answered.
\<close>

theorem call_duration:
  assumes "civil_date (a div 10 ^ 9 div 86400) = (y, m, d)" and "0 \<le> y" and "y < 10000"
    and "civil_date (b div 10 ^ 9 div 86400) = (y', m', d')" and "0 \<le> y'" and "y' < 10000"
    and "\<bar>b - a\<bar> < 2 ^ 63"
  shows "callDurationMS (rfc3339nano a) (rfc3339nano b) = max 0 ((b - a) div 10 ^ 6)"
proof -
  have "time_sub b a = b - a" using assms(7) by (simp add: time_sub_def clamp64_def)
  moreover have "(b - a) div 10 ^ 6 < 0" if "b < a" using that by (simp add: neg_imp_zdiv_neg_iff)
  moreover have "0 \<le> (b - a) div 10 ^ 6" if "a \<le> b" using that by (simp add: pos_imp_zdiv_nonneg_iff)
  ultimately show ?thesis
    using parse_rfc3339nano_format [OF assms(1-3)] parse_rfc3339nano_format [OF assms(4-6)]
    by (simp add: callDurationMS_def rfc3339nano_trim milliseconds_def Let_def max_def)
qed

theorem call_duration_witness:
  "callDurationMS (rfc3339nano 1000000000) (rfc3339nano 3500999999) = 2500"
proof -
  have "civil_date (1000000000 div 10 ^ 9 div 86400) = (1970, 1, 1)" "civil_date (3500999999 div 10 ^ 9 div 86400) = (1970, 1, 1)"
    by code_simp+
  from call_duration [OF this(1) _ _ this(2)] show ?thesis by simp
qed

end
