(* ===== verification/Conversation_View.thy ===== *)
theory Conversation_View
  imports Action_Registry Domain Store_Conversations
begin

text \<open>
  Conversations as clients see them (\<open>p2p/internal/conversation\<close>): the view of a record, hydrated with
  the contact, group, channel and member rows behind it (\<open>view.go\<close>), and the operations of the module
  (\<open>module.go\<close>).  The property ties every capability of a view to the rows it rests on.
\<close>

section \<open>Types\<close>

definition no_capabilities :: conversation_capabilities where
  "no_capabilities = \<lparr>cp_Open = False, cp_Send = False, cp_SendMedia = False, cp_Call = False, cp_Invite = False,
     cp_ManageMembers = False, cp_Rename = False, cp_RemoveMembers = False, cp_Leave = False, cp_Delete = False,
     cp_PostCreate = False, cp_CommentCreate = False, cp_ReactionToggle = False, cp_PostRecall = False,
     cp_CommentRecall = False, cp_CommentsEnabled = False\<rparr>"

record hydrator =
  hy_ContactByRoom :: "string \<Rightarrow> string + contact_record option"
  hy_GroupByRoom :: "string \<Rightarrow> string + group_record option"
  hy_ChannelByRoom :: "string \<Rightarrow> string + channel option"
  hy_CountJoinedMembers :: "string \<Rightarrow> string \<Rightarrow> string + int"
  hy_Member :: "string \<Rightarrow> string \<Rightarrow> string + member_record option"
  hy_OwnerMXID :: string

section \<open>The view\<close>

definition trimmedFallback :: "string \<Rightarrow> string \<Rightarrow> string" where
  "trimmedFallback value fallback = (let value = go_trim value in if value \<noteq> [] then value else fallback)"

definition conversationViewFromRecord :: "conversation_record \<Rightarrow> conversation_view" where
  "conversationViewFromRecord r = \<lparr>
     vw_ConversationID = cv_ConversationID r, vw_MatrixRoomID = cv_MatrixRoomID r, vw_Kind = cv_Kind r,
     vw_Lifecycle = cv_Lifecycle r, vw_PeerMXID = cv_PeerMXID r, vw_MemberCount = 0, vw_Membership = [],
     vw_RelationshipStatus = [], vw_Role = [], vw_HydrationState = [], vw_HydrationReason = [],
     vw_Capabilities = no_capabilities, vw_Title = cv_Title r, vw_AvatarURL = cv_AvatarURL r,
     vw_LastEventID = cv_LastEventID r, vw_LastMessage = cv_LastMessage r, vw_LastActivityAt = cv_LastActivityAt r,
     vw_ProjectionState = cv_ProjectionState r, vw_ProjectionReason = cv_ProjectionReason r,
     vw_ChannelType = [], vw_CommentsEnabled = False\<rparr>"

definition directMembership :: "string \<Rightarrow> string" where
  "directMembership status =
     (let s = go_lower (go_trim status)
      in if s = ''accepted'' then ''join''
         else if s \<in> {''pending_inbound'', ''pending_outbound'', ''pending''} then ''pending''
         else if s \<in> {''rejected'', ''reject''} then ''reject''
         else go_trim status)"

definition directView :: "hydrator \<Rightarrow> conversation_view \<Rightarrow> string + conversation_view" where
  "directView h view =
     (case (if go_trim (vw_MatrixRoomID view) \<noteq> [] then hy_ContactByRoom h (vw_MatrixRoomID view) else Inr None) of
        Inl err \<Rightarrow> Inl err
      | Inr found \<Rightarrow> Inr ((case found of
            Some c \<Rightarrow> view\<lparr>vw_PeerMXID := trimmedFallback (ct_PeerMXID c) (vw_PeerMXID view),
                          vw_Title := trimmedFallback (ct_DisplayName c) (vw_Title view),
                          vw_AvatarURL := trimmedFallback (ct_AvatarURL c) (vw_AvatarURL view),
                          vw_RelationshipStatus := ct_Status c,
                          vw_Membership := directMembership (ct_Status c)\<rparr>
          | None \<Rightarrow> view\<lparr>vw_Membership := ''join''\<rparr>)\<lparr>vw_MemberCount := 2, vw_Role := ''member''\<rparr>))"

definition hydrateMembership :: "hydrator \<Rightarrow> string \<Rightarrow> conversation_view \<Rightarrow> string + conversation_view" where
  "hydrateMembership h channelID view = (case hy_CountJoinedMembers h (vw_MatrixRoomID view) channelID of
       Inl err \<Rightarrow> Inl err
     | Inr joined \<Rightarrow>
         let view = (if joined > 0 then view\<lparr>vw_MemberCount := joined\<rparr> else view)
         in if vw_MatrixRoomID view = [] \<or> hy_OwnerMXID h = [] then Inr view
            else case hy_Member h (vw_MatrixRoomID view) (hy_OwnerMXID h) of
              Inl err \<Rightarrow> Inl err
            | Inr None \<Rightarrow> Inr view
            | Inr (Some member) \<Rightarrow> Inr (if \<not> MemberHidden (mb_Membership member)
                then view\<lparr>vw_Membership := mb_Membership member, vw_Role := NormalizeProductMemberRole (mb_Role member)\<rparr>
                else view))"

definition groupView :: "hydrator \<Rightarrow> conversation_view \<Rightarrow> string + conversation_view" where
  "groupView h view = (case hy_GroupByRoom h (vw_MatrixRoomID view) of
       Inl err \<Rightarrow> Inl err
     | Inr found \<Rightarrow> hydrateMembership h [] (case found of
           Some g \<Rightarrow> if gr_MemberCount g > 0 then view\<lparr>vw_MemberCount := gr_MemberCount g\<rparr> else view
         | None \<Rightarrow> view))"

definition channelView :: "hydrator \<Rightarrow> conversation_view \<Rightarrow> string + conversation_view" where
  "channelView h view = (case hy_ChannelByRoom h (vw_MatrixRoomID view) of
       Inl err \<Rightarrow> Inl err
     | Inr None \<Rightarrow> hydrateMembership h [] view
     | Inr (Some c) \<Rightarrow> hydrateMembership h (ch_ChannelID c)
         (view\<lparr>vw_Title := trimmedFallback (ch_Name c) (vw_Title view),
               vw_AvatarURL := trimmedFallback (ch_AvatarURL c) (vw_AvatarURL view),
               vw_ChannelType := trimmedFallback (ch_ChannelType c) ''chat'',
               vw_CommentsEnabled := ch_CommentsEnabled c,
               vw_MemberCount := (if ch_MemberCount c > 0 then ch_MemberCount c else vw_MemberCount view)\<rparr>))"

definition hydration :: "conversation_view \<Rightarrow> string \<times> string" where
  "hydration view =
     (if vw_ProjectionState view \<noteq> [] \<and> vw_ProjectionState view \<noteq> ''ready''
      then (vw_ProjectionState view, vw_ProjectionReason view)
      else if vw_Kind view = ''direct'' \<and> go_trim (vw_PeerMXID view) = [] \<and> go_trim (vw_RelationshipStatus view) = []
      then (''pending'', ''direct_relationship_missing'')
      else if vw_Kind view \<in> {''group'', ''channel''} \<and> go_trim (vw_Membership view) = []
      then (''pending'', ''owner_membership_missing'')
      else (''ready'', []))"

definition capabilities :: "conversation_view \<Rightarrow> conversation_capabilities" where
  "capabilities view =
     (let active = (vw_Lifecycle view = ''active''); ready = (vw_HydrationState view = ''ready'')
      in if vw_Kind view = ''system'' then no_capabilities\<lparr>cp_Open := (ready \<and> active)\<rparr>
         else let joined = MemberMembershipJoined (vw_Membership view);
                  owner = ProductOwnerRole (vw_Role view);
                  open = (if vw_Kind view = ''direct''
                          then ready \<and> active \<and> go_equal_fold (vw_RelationshipStatus view) ''accepted''
                          else ready \<and> active \<and> joined);
                  memberConversation = (vw_Kind view = ''group'' \<or> vw_Kind view = ''channel'');
                  manageMembers = (open \<and> owner \<and> memberConversation);
                  isChannel = (vw_Kind view = ''channel'')
              in \<lparr>cp_Open = open, cp_Send = open, cp_SendMedia = open, cp_Call = (open \<and> \<not> isChannel),
                  cp_Invite = manageMembers, cp_ManageMembers = manageMembers, cp_Rename = manageMembers,
                  cp_RemoveMembers = manageMembers, cp_Leave = (open \<and> memberConversation),
                  cp_Delete = (if vw_Kind view = ''direct'' then open else manageMembers),
                  cp_PostCreate = (open \<and> owner \<and> isChannel),
                  cp_CommentCreate = (open \<and> isChannel \<and> vw_CommentsEnabled view),
                  cp_ReactionToggle = (open \<and> isChannel), cp_PostRecall = (open \<and> owner \<and> isChannel),
                  cp_CommentRecall = (open \<and> owner \<and> isChannel),
                  cp_CommentsEnabled = (isChannel \<and> vw_CommentsEnabled view)\<rparr>)"

definition finalizeView :: "conversation_view \<Rightarrow> conversation_view" where
  "finalizeView view =
     (let view = view\<lparr>vw_HydrationState := fst (hydration view), vw_HydrationReason := snd (hydration view)\<rparr>
      in view\<lparr>vw_Capabilities := capabilities view\<rparr>)"

definition View :: "hydrator \<Rightarrow> conversation_record \<Rightarrow> string + conversation_view" where
  "View h record =
     (let view = conversationViewFromRecord record
      in case (if cv_Kind record = ''direct'' then directView h view
               else if cv_Kind record = ''group'' then groupView h view
               else if cv_Kind record = ''channel'' then channelView h view
               else Inr view) of
           Inl err \<Rightarrow> Inl err
         | Inr view \<Rightarrow> Inr (finalizeView view))"

section \<open>The module\<close>

text \<open>
  The store behind the module is its interface; reads and writes may fail with a message.
\<close>

record 's conversation_ops =
  vo_UpsertConversation :: "conversation_record \<Rightarrow> 's \<Rightarrow> string + 's"
  vo_SetConversationCreator :: "string \<Rightarrow> string \<Rightarrow> 's \<Rightarrow> string + 's"
  vo_GetConversationByID :: "'s \<Rightarrow> string \<Rightarrow> string + conversation_record option"
  vo_GetConversationByRoomID :: "'s \<Rightarrow> string \<Rightarrow> string + conversation_record option"
  vo_ListConversations :: "'s \<Rightarrow> string + conversation_record list"
  vo_DeleteConversationByRoomID :: "string \<Rightarrow> 's \<Rightarrow> string + 's"

definition Save :: "'s conversation_ops \<Rightarrow> int \<Rightarrow> conversation_record \<Rightarrow> 's \<Rightarrow> string + 's" where
  "Save ops now record s = vo_UpsertConversation ops (NormalizeConversationRecord now record) s"

definition SetCreator :: "'s conversation_ops \<Rightarrow> string \<Rightarrow> string \<Rightarrow> 's \<Rightarrow> string + 's" where
  "SetCreator ops roomID creatorMXID s =
     (if go_trim roomID = [] then Inr s
      else vo_SetConversationCreator ops (go_trim roomID) (go_trim creatorMXID) s)"

definition DeleteKindByRoom :: "'s conversation_ops \<Rightarrow> string \<Rightarrow> string \<Rightarrow> 's \<Rightarrow> string + 's" where
  "DeleteKindByRoom ops roomID kind s =
     (if roomID = [] then Inr s
      else case vo_GetConversationByRoomID ops s roomID of
        Inl err \<Rightarrow> Inl err
      | Inr None \<Rightarrow> Inr s
      | Inr (Some record) \<Rightarrow> if cv_Kind record \<noteq> kind then Inr s else vo_DeleteConversationByRoomID ops roomID s)"

definition GetRecord :: "'s conversation_ops \<Rightarrow> 's \<Rightarrow> string \<Rightarrow> string \<Rightarrow> string + conversation_record option" where
  "GetRecord ops s conversationID roomID =
     (if conversationID \<noteq> [] then vo_GetConversationByID ops s conversationID
      else vo_GetConversationByRoomID ops s roomID)"

fun view_all :: "hydrator \<Rightarrow> conversation_record list \<Rightarrow> string + conversation_view list" where
  "view_all h [] = Inr []"
| "view_all h (record # records) = (case View h record of
       Inl err \<Rightarrow> Inl err
     | Inr view \<Rightarrow> (case view_all h records of Inl err \<Rightarrow> Inl err | Inr views \<Rightarrow> Inr (view # views)))"

definition conversation_handleList ::
  "'s conversation_ops \<Rightarrow> hydrator \<Rightarrow> 's \<Rightarrow> action_error + conversation_view list" where
  "conversation_handleList ops h s = (case vo_ListConversations ops s of
       Inl err \<Rightarrow> Inl (InternalError err)
     | Inr records \<Rightarrow> (case view_all h records of Inl err \<Rightarrow> Inl (InternalError err) | Inr views \<Rightarrow> Inr views))"

definition conversation_handleGet ::
  "'s conversation_ops \<Rightarrow> hydrator \<Rightarrow> content \<Rightarrow> 's \<Rightarrow> action_error + conversation_view" where
  "conversation_handleGet ops h params s =
     (let conversationID = Params_String (cget params ''conversation_id'');
          roomID = Params_String (cget params ''room_id'')
      in if conversationID = [] \<and> roomID = [] then Inl (BadRequest ''conversation_id or room_id is required'')
         else case GetRecord ops s conversationID roomID of
           Inl err \<Rightarrow> Inl (InternalError err)
         | Inr None \<Rightarrow> Inl (StatusError 404 ''conversation not found'')
         | Inr (Some record) \<Rightarrow> (case View h record of Inl err \<Rightarrow> Inl (InternalError err) | Inr view \<Rightarrow> Inr view))"

text \<open>The operation report carries the trimmed room and, when the room has a conversation, its id and view.\<close>

record operation_report =
  or_action :: string
  or_status :: string
  or_room_id :: string
  or_conversation_id :: "string option"

definition Operation ::
  "'s conversation_ops \<Rightarrow> hydrator \<Rightarrow> 's \<Rightarrow> string \<Rightarrow> string \<Rightarrow> string \<Rightarrow> string + operation_report \<times> conversation_view option" where
  "Operation ops h s action status roomID =
     (let roomID = go_trim roomID;
          operation = \<lparr>or_action = action, or_status = status, or_room_id = roomID, or_conversation_id = None\<rparr>
      in if roomID = [] then Inr (operation, None)
         else case GetRecord ops s [] roomID of
           Inl err \<Rightarrow> Inl err
         | Inr None \<Rightarrow> Inr (operation, None)
         | Inr (Some record) \<Rightarrow> (case View h record of
               Inl err \<Rightarrow> Inl err
             | Inr view \<Rightarrow> Inr (operation\<lparr>or_conversation_id := Some (vw_ConversationID view)\<rparr>, Some view)))"

text \<open>The in-memory store as the provider; the texts are those of its errors.\<close>

definition conversation_error_text :: "conversation_error \<Rightarrow> string" where
  "conversation_error_text e = (case e of
       KindConflict room existing incoming \<Rightarrow>
         ''conversation kind conflict for room '' @ room @ '': existing '' @ existing @ '', incoming '' @ incoming
     | ConversationNotFound room \<Rightarrow> ''conversation not found for room '' @ room
     | ConversationIDRequired \<Rightarrow> ''conversation_id is required''
     | MatrixRoomIDRequired \<Rightarrow> ''matrix_room_id is required''
     | ConversationKindRequired \<Rightarrow> ''conversation kind is required'')"

definition memory_conversation_ops :: "int \<Rightarrow> memory_store conversation_ops" where
  "memory_conversation_ops now = \<lparr>
     vo_UpsertConversation = (\<lambda>r s. map_sum conversation_error_text id (UpsertConversation now r s)),
     vo_SetConversationCreator = (\<lambda>room c s. map_sum conversation_error_text id (SetConversationCreator room c s)),
     vo_GetConversationByID = (\<lambda>s i. Inr (GetConversationByID s i)),
     vo_GetConversationByRoomID = (\<lambda>s room. Inr (GetConversationByRoomID s room)),
     vo_ListConversations = (\<lambda>s. Inr (ListConversations s)),
     vo_DeleteConversationByRoomID = (\<lambda>room s. Inr (DeleteConversationByRoomID room s))\<rparr>"

section \<open>Properties\<close>

lemma directView_fields:
  assumes "directView h w = Inr u"
  shows "vw_Kind u = vw_Kind w" and "vw_Lifecycle u = vw_Lifecycle w" and "vw_ProjectionState u = vw_ProjectionState w"
    and "vw_RelationshipStatus u = vw_RelationshipStatus w \<or>
      (\<exists>k. hy_ContactByRoom h (vw_MatrixRoomID w) = Inr (Some k) \<and> vw_RelationshipStatus u = ct_Status k)"
  using assms by (auto simp: directView_def split: sum.splits option.splits if_splits)

lemma hydrateMembership_fields:
  assumes "hydrateMembership h cid w = Inr u"
  shows "vw_Kind u = vw_Kind w" and "vw_Lifecycle u = vw_Lifecycle w" and "vw_ProjectionState u = vw_ProjectionState w"
    and "(vw_Membership u = vw_Membership w \<and> vw_Role u = vw_Role w) \<or>
      (\<exists>m. hy_Member h (vw_MatrixRoomID w) (hy_OwnerMXID h) = Inr (Some m) \<and> \<not> MemberHidden (mb_Membership m) \<and>
           vw_Membership u = mb_Membership m \<and> vw_Role u = NormalizeProductMemberRole (mb_Role m))"
  using assms by (auto simp: hydrateMembership_def Let_def split: sum.splits option.splits if_splits)

lemma owner_normalized [simp]: "ProductOwnerRole (NormalizeProductMemberRole role) = ProductOwnerRole role"
proof -
  have "ProductOwnerRole ''owner''" "\<not> ProductOwnerRole ''member''" by code_simp+
  then show ?thesis by (simp add: NormalizeProductMemberRole_def)
qed

lemma not_joined_empty [simp]: "\<not> MemberMembershipJoined []"
  by code_simp

lemma not_accepted_empty [simp]: "\<not> go_equal_fold [] ''accepted''"
  by code_simp

text \<open>What the membership and role of a hydrated group or channel rest on.\<close>

definition grounded :: "hydrator \<Rightarrow> string \<Rightarrow> conversation_view \<Rightarrow> bool" where
  "grounded h room u \<longleftrightarrow> (MemberMembershipJoined (vw_Membership u) \<longrightarrow>
     (\<exists>m. hy_Member h room (hy_OwnerMXID h) = Inr (Some m) \<and> MemberMembershipJoined (mb_Membership m) \<and>
          (ProductOwnerRole (vw_Role u) \<longleftrightarrow> ProductOwnerRole (mb_Role m))))"

lemma hydrateMembership_grounded:
  assumes "hydrateMembership h cid w = Inr u" and "vw_Membership w = []"
  shows "grounded h (vw_MatrixRoomID w) u"
  using hydrateMembership_fields(4) [OF assms(1)] assms(2) by (auto simp: grounded_def)

lemma groupView_fields:
  assumes "groupView h w = Inr u" and "vw_Membership w = []"
  shows "vw_Kind u = vw_Kind w" and "vw_Lifecycle u = vw_Lifecycle w" and "vw_ProjectionState u = vw_ProjectionState w"
    and "grounded h (vw_MatrixRoomID w) u"
proof -
  from assms(1) obtain w' where w': "hydrateMembership h [] w' = Inr u" "vw_MatrixRoomID w' = vw_MatrixRoomID w"
    "vw_Kind w' = vw_Kind w" "vw_Lifecycle w' = vw_Lifecycle w" "vw_ProjectionState w' = vw_ProjectionState w"
    "vw_Membership w' = vw_Membership w"
    by (auto simp: groupView_def split: sum.splits option.splits if_splits)
  from hydrateMembership_fields(1-3) [OF w'(1)] hydrateMembership_grounded [OF w'(1)] w'(2-6) assms(2)
  show "vw_Kind u = vw_Kind w" "vw_Lifecycle u = vw_Lifecycle w" "vw_ProjectionState u = vw_ProjectionState w"
    "grounded h (vw_MatrixRoomID w) u" by simp_all
qed

lemma channelView_fields:
  assumes "channelView h w = Inr u" and "vw_Membership w = []"
  shows "vw_Kind u = vw_Kind w" and "vw_Lifecycle u = vw_Lifecycle w" and "vw_ProjectionState u = vw_ProjectionState w"
    and "grounded h (vw_MatrixRoomID w) u"
proof -
  from assms(1) obtain w' cid where w': "hydrateMembership h cid w' = Inr u" "vw_MatrixRoomID w' = vw_MatrixRoomID w"
    "vw_Kind w' = vw_Kind w" "vw_Lifecycle w' = vw_Lifecycle w" "vw_ProjectionState w' = vw_ProjectionState w"
    "vw_Membership w' = vw_Membership w"
    by (fastforce simp: channelView_def split: sum.splits option.splits)
  from hydrateMembership_fields(1-3) [OF w'(1)] hydrateMembership_grounded [OF w'(1)] w'(2-6) assms(2)
  show "vw_Kind u = vw_Kind w" "vw_Lifecycle u = vw_Lifecycle w" "vw_ProjectionState u = vw_ProjectionState w"
    "grounded h (vw_MatrixRoomID w) u" by simp_all
qed

text \<open>A view that opens says why: the conversation is active and projected, and the row behind it admits the owner.\<close>

definition admitted :: "hydrator \<Rightarrow> conversation_record \<Rightarrow> bool" where
  "admitted h r \<longleftrightarrow>
     (if cv_Kind r = ''direct''
      then \<exists>k. hy_ContactByRoom h (cv_MatrixRoomID r) = Inr (Some k) \<and> go_equal_fold (ct_Status k) ''accepted''
      else if cv_Kind r \<in> {''group'', ''channel''}
      then \<exists>m. hy_Member h (cv_MatrixRoomID r) (hy_OwnerMXID h) = Inr (Some m) \<and> MemberMembershipJoined (mb_Membership m)
      else cv_Kind r = ''system'')"

definition owner_row :: "hydrator \<Rightarrow> conversation_record \<Rightarrow> bool" where
  "owner_row h r \<longleftrightarrow> cv_Kind r \<in> {''group'', ''channel''} \<and>
     (\<exists>m. hy_Member h (cv_MatrixRoomID r) (hy_OwnerMXID h) = Inr (Some m) \<and> ProductOwnerRole (mb_Role m))"

definition hydrated :: "hydrator \<Rightarrow> conversation_record \<Rightarrow> conversation_view \<Rightarrow> bool" where
  "hydrated h r u \<longleftrightarrow> vw_Kind u = cv_Kind r \<and> vw_Lifecycle u = cv_Lifecycle r \<and>
     vw_ProjectionState u = cv_ProjectionState r \<and>
     (cv_Kind r = ''direct'' \<longrightarrow> go_equal_fold (vw_RelationshipStatus u) ''accepted'' \<longrightarrow> admitted h r) \<and>
     (cv_Kind r \<in> {''group'', ''channel''} \<longrightarrow> grounded h (cv_MatrixRoomID r) u) \<and>
     (cv_Kind r \<notin> {''direct'', ''group'', ''channel''} \<longrightarrow> vw_Membership u = [])"

lemma View_hydrated:
  assumes "View h r = Inr v"
  obtains u where "v = finalizeView u" and "hydrated h r u"
proof -
  let ?w = "conversationViewFromRecord r"
  have w: "vw_Kind ?w = cv_Kind r" "vw_Lifecycle ?w = cv_Lifecycle r" "vw_ProjectionState ?w = cv_ProjectionState r"
    "vw_MatrixRoomID ?w = cv_MatrixRoomID r" "vw_Membership ?w = []" "vw_RelationshipStatus ?w = []"
    by (simp_all add: conversationViewFromRecord_def)
  from assms obtain u where v: "v = finalizeView u"
    and u: "(if cv_Kind r = ''direct'' then directView h ?w else if cv_Kind r = ''group'' then groupView h ?w
             else if cv_Kind r = ''channel'' then channelView h ?w else Inr ?w) = Inr u"
    by (auto simp: View_def Let_def split: sum.splits)
  consider "cv_Kind r = ''direct''" | "cv_Kind r = ''group''" | "cv_Kind r = ''channel''"
    | "cv_Kind r \<notin> {''direct'', ''group'', ''channel''}" by blast
  then have "hydrated h r u"
  proof cases
    case 1
    then show ?thesis using u directView_fields [of h ?w u] w by (auto simp: hydrated_def admitted_def)
  next
    case 2
    then show ?thesis using u groupView_fields [of h ?w u] w by (simp add: hydrated_def)
  next
    case 3
    then show ?thesis using u channelView_fields [of h ?w u] w by (simp add: hydrated_def)
  next
    case 4
    then show ?thesis using u w by (auto simp: hydrated_def)
  qed
  with v that show thesis by blast
qed

lemma hydration_ready:
  "fst (hydration u) = ''ready'' \<Longrightarrow> vw_ProjectionState u \<in> {[], ''ready''}"
  by (auto simp: hydration_def split: if_splits)

lemma finalize_capabilities:
  "vw_Capabilities (finalizeView u) = capabilities
     (u\<lparr>vw_HydrationState := fst (hydration u), vw_HydrationReason := snd (hydration u)\<rparr>)"
  by (simp add: finalizeView_def Let_def)

lemma open_grounds:
  assumes "hydrated h r u" and "cp_Open (vw_Capabilities (finalizeView u))"
  shows "cv_Lifecycle r = ''active'' \<and> cv_ProjectionState r \<in> {[], ''ready''} \<and> admitted h r"
  using assms hydration_ready [of u]
  by (auto simp: finalize_capabilities capabilities_def hydrated_def grounded_def admitted_def Let_def split: if_splits)

lemma manage_grounds:
  assumes "hydrated h r u" and "cp_ManageMembers (vw_Capabilities (finalizeView u)) \<or> cp_PostCreate (vw_Capabilities (finalizeView u))"
  shows "owner_row h r"
  using assms
  by (auto simp: finalize_capabilities capabilities_def no_capabilities_def hydrated_def grounded_def owner_row_def Let_def
    split: if_splits)

definition sample_hydrator :: hydrator where
  "sample_hydrator = \<lparr>hy_ContactByRoom = (\<lambda>_. Inr None), hy_GroupByRoom = (\<lambda>_. Inr None),
     hy_ChannelByRoom = (\<lambda>_. Inr None), hy_CountJoinedMembers = (\<lambda>_ _. Inr 1),
     hy_Member = (\<lambda>room user. Inr (Some \<lparr>mb_RoomID = room, mb_ChannelID = [], mb_UserID = user, mb_DisplayName = [],
        mb_AvatarURL = [], mb_Domain = [], mb_Membership = ''join'', mb_Role = ''owner'', mb_Muted = False,
        mb_JoinedAt = 1, mb_RequesterNodeBaseURL = [], mb_RequestID = []\<rparr>)),
     hy_OwnerMXID = ''@o:h''\<rparr>"

definition sample_group :: conversation_record where
  "sample_group = \<lparr>cv_ConversationID = ''c'', cv_MatrixRoomID = ''!r:h'', cv_Kind = ''group'', cv_Lifecycle = ''active'',
     cv_CreatedByMXID = [], cv_PeerMXID = [], cv_Title = ''g'', cv_AvatarURL = [], cv_LastEventID = [],
     cv_LastMessage = [], cv_LastActivityAt = 0, cv_ProjectionState = ''ready'', cv_ProjectionReason = [],
     cv_CreatedAt = 1, cv_UpdatedAt = 1\<rparr>"

definition opened_view :: "string + conversation_view \<Rightarrow> conversation_view" where
  "opened_view r = (case r of Inr v \<Rightarrow> v | Inl _ \<Rightarrow> conversationViewFromRecord sample_group)"



end
