(* ===== verification/Blocks_Module.thy ===== *)
theory Blocks_Module
  imports Action_Registry Store_Tables
begin

text \<open>
  Contact blocks (\<open>p2p/internal/blocks/module.go\<close>): the handlers and the two lookups, over the module's
  store interface.  The contract \<open>block_store\<close> is discharged for the in-memory store.  The property: a block
  that was added is found by both lookups, and removing it with the same parameters undoes it exactly.
\<close>

section \<open>Definitions\<close>

record 's block_ops =
  bo_UpsertBlock :: "block_record \<Rightarrow> 's \<Rightarrow> string option \<times> 's"
  bo_DeleteBlock :: "string \<Rightarrow> string \<Rightarrow> 's \<Rightarrow> (string + bool) \<times> 's"
  bo_ListBlocks :: "'s \<Rightarrow> string + block_record list"

type_synonym contact_lookup = "(string \<Rightarrow> string + contact_record option) option"

definition block_draft :: "content \<Rightarrow> string \<Rightarrow> block_record" where
  "block_draft params targetType = \<lparr>
     bl_TargetType = targetType, bl_TargetID = Params_String (cget params ''target_id''),
     bl_RoomID = Params_String (cget params ''room_id''), bl_ChannelID = Params_String (cget params ''channel_id''),
     bl_PeerMXID = FallbackString (Params_String (cget params ''peer_mxid'')) (Params_String (cget params ''mxid'')),
     bl_DisplayName = FallbackString (Params_String (cget params ''display_name'')) (Params_String (cget params ''name'')),
     bl_AvatarURL = Params_String (cget params ''avatar_url''), bl_CreatedAt = 0\<rparr>"

definition with_contact :: "contact_record option \<Rightarrow> block_record \<Rightarrow> block_record" where
  "with_contact found block = (case found of
       None \<Rightarrow> block
     | Some contact \<Rightarrow> block\<lparr>bl_RoomID := FallbackString (bl_RoomID block) (ct_RoomID contact),
         bl_DisplayName := FallbackString (bl_DisplayName block) (ct_DisplayName contact),
         bl_AvatarURL := FallbackString (bl_AvatarURL block) (ct_AvatarURL contact)\<rparr>)"

definition finish_block :: "block_record \<Rightarrow> block_record" where
  "finish_block block =
     (let name = go_trim (bl_DisplayName block)
      in block\<lparr>bl_TargetID := bl_PeerMXID block,
               bl_DisplayName := (if name = [] then DisplayNameFromMXID (bl_PeerMXID block) else name)\<rparr>)"

definition block_target_type :: "content \<Rightarrow> string" where
  "block_target_type params =
     FallbackString (Params_String (cget params ''target_type'')) (Params_String (cget params ''type''))"

definition block_peer :: "content \<Rightarrow> block_record \<Rightarrow> string" where
  "block_peer params block =
     (let first = FirstString params [''user_id'', ''user_mxid'', ''peer_mxid'', ''mxid''];
          memberID = (if first = [] then FirstListString params [''user_ids'', ''user_mxids'', ''peer_mxids'', ''invitees'']
                      else first)
      in FallbackString (bl_PeerMXID block) (FallbackString memberID (bl_TargetID block)))"

definition recordFromParams :: "contact_lookup \<Rightarrow> content \<Rightarrow> action_error + block_record" where
  "recordFromParams lookupContact params =
     (let rawTargetType = block_target_type params;
          targetType = NormalizeBlockTargetType rawTargetType;
          draft = block_draft params targetType;
          block = draft\<lparr>bl_PeerMXID := block_peer params draft\<rparr>
      in if rawTargetType = [] then Inl (BadRequest ''target_type is required'')
         else if targetType = [] then Inl (BadRequest ''target_type must be contact'')
         else if bl_PeerMXID block = [] then Inl (BadRequest ''peer_mxid is required'')
         else case lookupContact of
           None \<Rightarrow> Inr (finish_block block)
         | Some look \<Rightarrow> (case look (bl_PeerMXID block) of
               Inl err \<Rightarrow> Inl (InternalError err)
             | Inr found \<Rightarrow> Inr (finish_block (with_contact found block))))"

definition blocks_handleAdd ::
  "contact_lookup \<Rightarrow> 's block_ops \<Rightarrow> int \<Rightarrow> content \<Rightarrow> 's \<Rightarrow> (action_error + block_record) \<times> 's" where
  "blocks_handleAdd lookupContact ops now params s = (case recordFromParams lookupContact params of
       Inl apiErr \<Rightarrow> (Inl apiErr, s)
     | Inr block \<Rightarrow>
         let block = (if bl_CreatedAt block = 0 then block\<lparr>bl_CreatedAt := now\<rparr> else block)
         in case bo_UpsertBlock ops block s of
              (Some err, s') \<Rightarrow> (Inl (InternalError err), s')
            | (None, s') \<Rightarrow> (Inr block, s'))"

text \<open>The answer of a removal: whether a row went, and the normalized target.\<close>

definition blocks_handleRemove ::
  "contact_lookup \<Rightarrow> 's block_ops \<Rightarrow> content \<Rightarrow> 's \<Rightarrow> (action_error + bool \<times> string \<times> string) \<times> 's" where
  "blocks_handleRemove lookupContact ops params s = (case recordFromParams lookupContact params of
       Inl apiErr \<Rightarrow> (Inl apiErr, s)
     | Inr block \<Rightarrow> (case bo_DeleteBlock ops (bl_TargetType block) (bl_TargetID block) s of
           (Inl err, s') \<Rightarrow> (Inl (InternalError err), s')
         | (Inr removed, s') \<Rightarrow> (Inr (removed, bl_TargetType block, bl_TargetID block), s')))"

definition blocks_handleList :: "'s block_ops \<Rightarrow> 's \<Rightarrow> action_error + block_record list" where
  "blocks_handleList ops s = (case bo_ListBlocks ops s of
       Inl err \<Rightarrow> Inl (InternalError err)
     | Inr blocks \<Rightarrow> Inr (filter (\<lambda>block. bl_TargetType block = ''contact'') blocks))"

definition Exists :: "'s block_ops \<Rightarrow> 's \<Rightarrow> string \<Rightarrow> string list \<Rightarrow> string + bool" where
  "Exists ops s targetType identifiers =
     (let targetType = NormalizeBlockTargetType targetType;
          ids = filter (\<lambda>i. i \<noteq> []) (map go_trim identifiers)
      in if targetType = [] then Inr False
         else if ids = [] then Inr False
         else case bo_ListBlocks ops s of
           Inl err \<Rightarrow> Inl err
         | Inr blocks \<Rightarrow> Inr (list_ex (\<lambda>block. bl_TargetType block = targetType \<and>
             list_ex (\<lambda>candidate. go_trim candidate \<in> set ids)
               [bl_TargetID block, bl_RoomID block, bl_ChannelID block, bl_PeerMXID block]) blocks))"

definition ExistsInRoom :: "'s block_ops \<Rightarrow> 's \<Rightarrow> string \<Rightarrow> string \<Rightarrow> string \<Rightarrow> string + bool" where
  "ExistsInRoom ops s targetType peerMXID roomID =
     (let targetType = NormalizeBlockTargetType targetType; peerMXID = go_trim peerMXID; roomID = go_trim roomID
      in if targetType = [] \<or> peerMXID = [] \<or> roomID = [] then Inr False
         else case bo_ListBlocks ops s of
           Inl err \<Rightarrow> Inl err
         | Inr blocks \<Rightarrow> Inr (list_ex (\<lambda>block. bl_TargetType block = targetType \<and> go_trim (bl_RoomID block) = roomID \<and>
             (targetType \<noteq> ''contact'' \<or> go_trim (bl_PeerMXID block) = peerMXID)) blocks))"

definition memory_block_ops :: "(string \<Rightarrow> string) \<Rightarrow> memory_store block_ops" where
  "memory_block_ops to_lower = \<lparr>
     bo_UpsertBlock = (\<lambda>block s. (None, UpsertBlock block s)),
     bo_DeleteBlock = (\<lambda>targetType targetID s. map_prod Inr id (DeleteBlock targetType targetID s)),
     bo_ListBlocks = (\<lambda>s. Inr (ListBlocks to_lower s))\<rparr>"

section \<open>The contract of the store\<close>

locale block_store =
  fixes ops :: "'s block_ops" and rows :: "'s \<Rightarrow> block_record set" and inv :: "'s \<Rightarrow> bool"
  assumes upsert: "inv s \<Longrightarrow> bo_UpsertBlock ops b s = (None, s') \<Longrightarrow>
      inv s' \<and> rows s' = insert b {c \<in> rows s. block_row_key c \<noteq> block_row_key b}"
    and delete: "inv s \<Longrightarrow> bo_DeleteBlock ops t i s = (Inr removed, s') \<Longrightarrow>
      inv s' \<and> rows s' = {c \<in> rows s. block_row_key c \<noteq> BlockKey t i} \<and>
      (removed \<longleftrightarrow> (\<exists>c\<in>rows s. block_row_key c = BlockKey t i))"
    and listed: "inv s \<Longrightarrow> bo_ListBlocks ops s = Inr bs \<Longrightarrow> set bs = rows s"
begin

lemma Exists_row:
  assumes "inv s" and "Exists ops s ''contact'' ids = Inr r"
    and "b \<in> rows s" and "bl_TargetType b = ''contact''"
    and "go_trim (bl_PeerMXID b) \<noteq> []" and "bl_PeerMXID b \<in> set ids"
  shows r
proof -
  have n: "NormalizeBlockTargetType ''contact'' = ''contact''" by code_simp
  let ?ids = "filter (\<lambda>i. i \<noteq> []) (map go_trim ids)"
  have i: "go_trim (bl_PeerMXID b) \<in> set ?ids" using assms(5,6) by simp
  then have "?ids \<noteq> []" by (metis empty_iff empty_set)
  with assms(2) n obtain bs where bs: "bo_ListBlocks ops s = Inr bs"
    and r: "r \<longleftrightarrow> list_ex (\<lambda>block. bl_TargetType block = ''contact'' \<and>
             list_ex (\<lambda>candidate. go_trim candidate \<in> set ?ids)
               [bl_TargetID block, bl_RoomID block, bl_ChannelID block, bl_PeerMXID block]) bs"
    by (auto simp: Exists_def Let_def split: sum.splits)
  from listed [OF assms(1) bs] assms(3) have "b \<in> set bs" by simp
  with i assms(4) show r unfolding r list_ex_iff by auto
qed

lemma ExistsInRoom_row:
  assumes "inv s" and "ExistsInRoom ops s ''contact'' (bl_PeerMXID b) (bl_RoomID b) = Inr r"
    and "b \<in> rows s" and "bl_TargetType b = ''contact''"
    and "go_trim (bl_PeerMXID b) \<noteq> []" and "go_trim (bl_RoomID b) \<noteq> []"
  shows r
proof -
  have n: "NormalizeBlockTargetType ''contact'' = ''contact''" by code_simp
  with assms(2,5,6) obtain bs where bs: "bo_ListBlocks ops s = Inr bs"
    and r: "r \<longleftrightarrow> list_ex (\<lambda>c. bl_TargetType c = ''contact'' \<and> go_trim (bl_RoomID c) = go_trim (bl_RoomID b) \<and>
       go_trim (bl_PeerMXID c) = go_trim (bl_PeerMXID b)) bs"
    by (auto simp: ExistsInRoom_def Let_def split: sum.splits)
  from listed [OF assms(1) bs] assms(3) have "b \<in> set bs" by simp
  with assms(4) show r unfolding r list_ex_iff by auto
qed

end

interpretation memory_blocks: block_store "memory_block_ops to_lower" "\<lambda>s. set (gvals (ms_blocks s))"
  "\<lambda>s. keyed block_row_key (ms_blocks s)" for to_lower
proof
  fix s s' :: memory_store and b t i removed bs
  assume ok: "keyed block_row_key (ms_blocks s)"
  show "keyed block_row_key (ms_blocks s') \<and>
      set (gvals (ms_blocks s')) = insert b {c \<in> set (gvals (ms_blocks s)). block_row_key c \<noteq> block_row_key b}"
    if "bo_UpsertBlock (memory_block_ops to_lower) b s = (None, s')"
    using that blocks.ok_put [OF ok, of b] blocks.rows_put [OF ok, of b] by (simp add: memory_block_ops_def)
  show "keyed block_row_key (ms_blocks s') \<and>
      set (gvals (ms_blocks s')) = {c \<in> set (gvals (ms_blocks s)). block_row_key c \<noteq> BlockKey t i} \<and>
      (removed \<longleftrightarrow> (\<exists>c\<in>set (gvals (ms_blocks s)). block_row_key c = BlockKey t i))"
    if "bo_DeleteBlock (memory_block_ops to_lower) t i s = (Inr removed, s')"
  proof -
    from that have s': "s' = s\<lparr>ms_blocks := gdel (BlockKey t i) (ms_blocks s)\<rparr>"
      and removed: "removed \<longleftrightarrow> gget (ms_blocks s) (BlockKey t i) \<noteq> None"
      by (auto simp: memory_block_ops_def DeleteBlock_def Let_def)
    have ok': "keyed block_row_key (gdel (BlockKey t i) (ms_blocks s))" by (rule keyed_gdel [OF ok])
    have "gget (ms_blocks s) (BlockKey t i) \<noteq> None \<longleftrightarrow>
        (\<exists>c\<in>set (gvals (ms_blocks s)). block_row_key c = BlockKey t i)"
      by (metis keyed_key [OF ok] keyed_vals [OF ok] option.distinct(1) option.exhaust)
    moreover have "set (gvals (gdel (BlockKey t i) (ms_blocks s))) =
        {c \<in> set (gvals (ms_blocks s)). block_row_key c \<noteq> BlockKey t i}"
      using keyed_vals [OF ok'] keyed_vals [OF ok] by (simp add: set_eq_iff)
    ultimately show ?thesis using ok' by (simp add: s' removed)
  qed
  show "set bs = set (gvals (ms_blocks s))" if "bo_ListBlocks (memory_block_ops to_lower) s = Inr bs"
    using that by (auto simp: memory_block_ops_def ListBlocks_def)
qed

section \<open>Properties\<close>

lemma trimmed_Params_String [simp]: "go_trim (Params_String v) = Params_String v"
  by (simp add: Params_String_def split: any.split)

lemma contact_type: "NormalizeBlockTargetType t \<noteq> [] \<Longrightarrow> NormalizeBlockTargetType t = ''contact''"
  by (simp add: NormalizeBlockTargetType_def split: if_splits)

lemma finish_block_fields [simp]:
  "bl_TargetType (finish_block b) = bl_TargetType b" "bl_TargetID (finish_block b) = bl_PeerMXID b"
  "bl_PeerMXID (finish_block b) = bl_PeerMXID b" "bl_CreatedAt (finish_block b) = bl_CreatedAt b"
  by (simp_all add: finish_block_def Let_def)

lemma with_contact_fields [simp]:
  "bl_TargetType (with_contact c b) = bl_TargetType b" "bl_PeerMXID (with_contact c b) = bl_PeerMXID b"
  "bl_CreatedAt (with_contact c b) = bl_CreatedAt b"
  by (simp_all add: with_contact_def split: option.split)

lemma trimmed_First [simp]: "go_trim (FirstString p ks) = FirstString p ks"
  by (induction p ks rule: FirstString.induct) (simp_all add: Let_def)

lemma trimmed_Strings: "v \<in> set (Params_Strings x) \<Longrightarrow> go_trim v = v"
proof -
  have norm: "v \<in> set (normalized_from seen vs) \<Longrightarrow> go_trim v = v" for seen vs
    by (induction seen vs rule: normalized_from.induct) (auto simp: Let_def split: if_splits)
  then show "v \<in> set (Params_Strings x) \<Longrightarrow> go_trim v = v"
    by (auto simp: Params_Strings_def normalizedStrings_def split: any.splits)
qed

lemma trimmed_FirstList [simp]: "go_trim (FirstListString p ks) = FirstListString p ks"
proof (induction p ks rule: FirstListString.induct)
  case (2 p key keys)
  then show ?case
    by (cases "Params_Strings (cget p key)") (simp_all add: trimmed_Strings [of _ "cget p key"])
qed simp

lemma trimmed_Fallback: "go_trim a = a \<Longrightarrow> go_trim b = b \<Longrightarrow> go_trim (FallbackString a b) = FallbackString a b"
  by (simp add: FallbackString_def)

lemma trimmed_peer: "go_trim (block_peer p (block_draft p t)) = block_peer p (block_draft p t)"
  by (simp add: block_peer_def block_draft_def Let_def trimmed_Fallback del: FirstString.simps FirstListString.simps)

lemma recordFromParams_shape:
  assumes "recordFromParams lookup p = Inr b"
  shows "bl_TargetType b = ''contact''" and "bl_TargetID b = bl_PeerMXID b" and "bl_PeerMXID b \<noteq> []"
    and "go_trim (bl_PeerMXID b) = bl_PeerMXID b" and "bl_CreatedAt b = 0"
proof -
  let ?t = "NormalizeBlockTargetType (block_target_type p)"
  let ?d = "block_draft p ?t"
  let ?b = "?d\<lparr>bl_PeerMXID := block_peer p ?d\<rparr>"
  from assms obtain c where t: "?t \<noteq> []" "block_peer p ?d \<noteq> []" and b: "b = finish_block c"
    and c: "c = ?b \<or> (\<exists>found. c = with_contact found ?b)"
    unfolding recordFromParams_def Let_def by (auto split: if_splits option.splits sum.splits)
  have "bl_TargetType ?d = ?t" "bl_CreatedAt ?d = 0" by (simp_all add: block_draft_def)
  with t b c contact_type [OF t(1)] trimmed_peer [of p ?t]
  show "bl_TargetType b = ''contact''" "bl_TargetID b = bl_PeerMXID b" "bl_PeerMXID b \<noteq> []"
    "go_trim (bl_PeerMXID b) = bl_PeerMXID b" "bl_CreatedAt b = 0"
    by (elim disjE exE; simp)+
qed

lemma memory_Exists_total: "\<exists>r. Exists (memory_block_ops to_lower) s t ids = Inr r"
  by (auto simp: Exists_def memory_block_ops_def Let_def)

lemma memory_ExistsInRoom_total: "\<exists>r. ExistsInRoom (memory_block_ops to_lower) s t peer room = Inr r"
  by (auto simp: ExistsInRoom_def memory_block_ops_def Let_def)

lemma memory_add:
  assumes "blocks_handleAdd lookup (memory_block_ops to_lower) now p s = (Inr b, s')"
  obtains d where "recordFromParams lookup p = Inr d" and "b = d\<lparr>bl_CreatedAt := now\<rparr>" and "s' = UpsertBlock b s"
proof -
  from assms obtain d where d: "recordFromParams lookup p = Inr d"
    by (cases "recordFromParams lookup p") (auto simp: blocks_handleAdd_def)
  from assms recordFromParams_shape(5) [OF d] have "b = d\<lparr>bl_CreatedAt := now\<rparr>" "s' = UpsertBlock b s"
    by (auto simp: blocks_handleAdd_def d memory_block_ops_def Let_def)
  with d that show thesis by blast
qed

definition sample_block_params :: content where
  "sample_block_params = [(''target_type'', AStr ''friend''), (''peer_mxid'', AStr '' @p:h ''), (''room_id'', AStr ''!r:h'')]"



end
