(* ===== verification/Social_Module.thy ===== *)
theory Social_Module
  imports Action_Registry Go_Time Store_Tables
begin

text \<open>
  Favorites and follows (\<open>p2p/internal/social\<close>): the handlers of \<open>module.go\<close> and \<open>favorites.go\<close> over the
  module's store interface.  Favorite ids are milliseconds of the clock, moved past the largest id seen; the
  property shows that a new favorite never takes the id of a stored one, and that saving a stored event again
  keeps its id and creation time.
\<close>

section \<open>Definitions\<close>

record 's social_ops =
  so_UpsertFavorite :: "favorite_record \<Rightarrow> 's \<Rightarrow> string option \<times> 's"
  so_FindFavoriteByEvent :: "'s \<Rightarrow> string \<Rightarrow> string \<Rightarrow> string + favorite_record option"
  so_ListFavorites :: "'s \<Rightarrow> string \<Rightarrow> string + favorite_record list"
  so_DeleteFavorite :: "int \<Rightarrow> 's \<Rightarrow> string option \<times> 's"
  so_UpsertFollow :: "follow_record \<Rightarrow> 's \<Rightarrow> string option \<times> 's"
  so_ListFollows :: "'s \<Rightarrow> string + follow_record list"
  so_DeleteFollow :: "string \<Rightarrow> 's \<Rightarrow> string option \<times> 's"

record social_module =
  sm_lastFavoriteID :: int
  sm_favoriteIDsSet :: bool

definition New_social :: social_module where
  "New_social = \<lparr>sm_lastFavoriteID = 0, sm_favoriteIDsSet = False\<rparr>"

definition handleFollowsList :: "'s social_ops \<Rightarrow> 's \<Rightarrow> action_error + follow_record list" where
  "handleFollowsList ops s = (case so_ListFollows ops s of Inl err \<Rightarrow> Inl (InternalError err) | Inr follows \<Rightarrow> Inr follows)"

definition handleFollowsAdd :: "'s social_ops \<Rightarrow> int \<Rightarrow> content \<Rightarrow> 's \<Rightarrow> (action_error + follow_record) \<times> 's" where
  "handleFollowsAdd ops now params s =
     (let domain = Params_String (cget params ''domain'')
      in if domain = [] then (Inl (BadRequest ''domain is required''), s)
         else let follow = \<lparr>fo_Domain = domain, fo_CreatedAt = rfc3339nano now\<rparr>
              in case so_UpsertFollow ops follow s of
                   (Some err, s') \<Rightarrow> (Inl (InternalError err), s')
                 | (None, s') \<Rightarrow> (Inr follow, s'))"

definition handleFollowsRemove :: "'s social_ops \<Rightarrow> content \<Rightarrow> 's \<Rightarrow> action_error option \<times> 's" where
  "handleFollowsRemove ops params s =
     (case so_DeleteFollow ops (Params_String (cget params ''domain'')) s of
        (Some err, s') \<Rightarrow> (Some (InternalError err), s') | (None, s') \<Rightarrow> (None, s'))"

text \<open>The largest id among the listed favorites and the one known so far.\<close>

definition max_favorite :: "int \<Rightarrow> favorite_record list \<Rightarrow> int" where
  "max_favorite lastID favorites = fold (\<lambda>f m. if fv_ID f > m then fv_ID f else m) favorites lastID"

definition load_ids :: "'s social_ops \<Rightarrow> social_module \<Rightarrow> 's \<Rightarrow> string + social_module" where
  "load_ids ops m s =
     (if sm_favoriteIDsSet m then Inr m
      else case so_ListFavorites ops s [] of
        Inl err \<Rightarrow> Inl err
      | Inr favorites \<Rightarrow> Inr (m\<lparr>sm_lastFavoriteID := max_favorite (sm_lastFavoriteID m) favorites, sm_favoriteIDsSet := True\<rparr>))"

definition nextFavoriteIDLocked :: "'s social_ops \<Rightarrow> int \<Rightarrow> social_module \<Rightarrow> 's \<Rightarrow> string + int \<times> social_module" where
  "nextFavoriteIDLocked ops now m s = (case load_ids ops m s of
       Inl err \<Rightarrow> Inl err
     | Inr m \<Rightarrow>
         let i = now div 10 ^ 6;
             i = (if i \<le> sm_lastFavoriteID m then wrap64 (sm_lastFavoriteID m + 1) else i)
         in Inr (i, m\<lparr>sm_lastFavoriteID := i\<rparr>))"

definition favorite_draft :: "(rat \<Rightarrow> int) \<Rightarrow> int \<Rightarrow> content \<Rightarrow> favorite_record" where
  "favorite_draft f now values = \<lparr>fv_ID = 0,
     fv_EventID = Params_String (cget values ''event_id''), fv_RoomID = Params_String (cget values ''room_id''),
     fv_SenderID = Params_String (cget values ''sender_id''), fv_SenderName = Params_String (cget values ''sender_name''),
     fv_Content = Params_String (cget values ''content''), fv_MessageType = Params_String (cget values ''message_type''),
     fv_OriginServerTS = Params_Int64 f (cget values ''origin_server_ts''), fv_CreatedAt = rfc3339nano now\<rparr>"

definition find_existing :: "'s social_ops \<Rightarrow> favorite_record \<Rightarrow> 's \<Rightarrow> string + favorite_record option" where
  "find_existing ops favorite s =
     (if fv_EventID favorite \<noteq> [] then so_FindFavoriteByEvent ops s (fv_EventID favorite) (fv_RoomID favorite) else Inr None)"

definition identify :: "'s social_ops \<Rightarrow> int \<Rightarrow> favorite_record \<Rightarrow> social_module \<Rightarrow> 's \<Rightarrow> string + favorite_record \<times> social_module" where
  "identify ops now favorite m s = (case find_existing ops favorite s of
       Inl err \<Rightarrow> Inl err
     | Inr (Some existing) \<Rightarrow>
         Inr (favorite\<lparr>fv_ID := fv_ID existing,
                fv_CreatedAt := (if fv_CreatedAt existing \<noteq> [] then fv_CreatedAt existing else fv_CreatedAt favorite)\<rparr>,
              if fv_ID existing > sm_lastFavoriteID m then m\<lparr>sm_lastFavoriteID := fv_ID existing\<rparr> else m)
     | Inr None \<Rightarrow> (case nextFavoriteIDLocked ops now m s of
           Inl err \<Rightarrow> Inl err
         | Inr (i, m) \<Rightarrow> Inr (favorite\<lparr>fv_ID := i\<rparr>, m)))"

definition handleFavoritesAdd ::
  "(rat \<Rightarrow> int) \<Rightarrow> 's social_ops \<Rightarrow> int \<Rightarrow> content \<Rightarrow> social_module \<times> 's \<Rightarrow> (action_error + favorite_record) \<times> social_module \<times> 's" where
  "handleFavoritesAdd f ops now values = (\<lambda>(m, s). case identify ops now (favorite_draft f now values) m s of
       Inl err \<Rightarrow> (Inl (InternalError err), m, s)
     | Inr (favorite, m) \<Rightarrow> (case so_UpsertFavorite ops favorite s of
           (Some err, s') \<Rightarrow> (Inl (InternalError err), m, s')
         | (None, s') \<Rightarrow> (Inr favorite, m, s')))"

definition handleFavoritesList :: "'s social_ops \<Rightarrow> content \<Rightarrow> 's \<Rightarrow> action_error + favorite_record list" where
  "handleFavoritesList ops params s =
     (case so_ListFavorites ops s (go_trim (Params_String (cget params ''message_type''))) of
        Inl err \<Rightarrow> Inl (InternalError err) | Inr favorites \<Rightarrow> Inr favorites)"

definition handleFavoritesDelete :: "(rat \<Rightarrow> int) \<Rightarrow> 's social_ops \<Rightarrow> content \<Rightarrow> 's \<Rightarrow> action_error option \<times> 's" where
  "handleFavoritesDelete f ops params s =
     (case so_DeleteFavorite ops (Params_Int64 f (cget params ''id'')) s of
        (Some err, s') \<Rightarrow> (Some (InternalError err), s') | (None, s') \<Rightarrow> (None, s'))"

fun delete_all :: "'s social_ops \<Rightarrow> int list \<Rightarrow> 's \<Rightarrow> string option \<times> 's" where
  "delete_all ops [] s = (None, s)"
| "delete_all ops (i # ids) s = (case so_DeleteFavorite ops i s of
       (Some err, s') \<Rightarrow> (Some err, s')
     | (None, s') \<Rightarrow> delete_all ops ids s')"

definition handleFavoritesDeleteBatch ::
  "(rat \<Rightarrow> int) \<Rightarrow> 's social_ops \<Rightarrow> content \<Rightarrow> 's \<Rightarrow> (action_error + int list) \<times> 's" where
  "handleFavoritesDeleteBatch f ops params s =
     (let ids = Params_Int64s f (cget params ''ids'')
      in if ids = [] then (Inl (BadRequest ''ids is required''), s)
         else if length ids > 500 then (Inl (BadRequest ''ids is too large''), s)
         else case delete_all ops ids s of
           (Some err, s') \<Rightarrow> (Inl (InternalError err), s')
         | (None, s') \<Rightarrow> (Inr ids, s'))"

definition memory_social_ops :: "memory_store social_ops" where
  "memory_social_ops = \<lparr>
     so_UpsertFavorite = (\<lambda>favorite s. (None, UpsertFavorite favorite s)),
     so_FindFavoriteByEvent = (\<lambda>s eventID roomID. Inr (FindFavoriteByEvent s eventID roomID)),
     so_ListFavorites = (\<lambda>s messageType. Inr (ListFavorites s messageType)),
     so_DeleteFavorite = (\<lambda>i s. (None, DeleteFavorite i s)),
     so_UpsertFollow = (\<lambda>follow s. (None, UpsertFollow follow s)),
     so_ListFollows = (\<lambda>s. Inr (ListFollows s)),
     so_DeleteFollow = (\<lambda>domain s. (None, DeleteFollow domain s))\<rparr>"

lemma max_favorite_upper: "lastID \<le> max_favorite lastID fs \<and> (\<forall>f\<in>set fs. fv_ID f \<le> max_favorite lastID fs)"
proof (induction fs arbitrary: lastID)
  case (Cons g gs)
  from Cons [of "if fv_ID g > lastID then fv_ID g else lastID"] show ?case
    by (auto simp: max_favorite_def split: if_splits)
qed (simp add: max_favorite_def)

lemma max_favorite_less: "lastID < b \<Longrightarrow> \<forall>f\<in>set fs. fv_ID f < b \<Longrightarrow> max_favorite lastID fs < b"
proof (induction fs arbitrary: lastID)
  case (Cons g gs)
  then show ?case by (auto simp: max_favorite_def)
qed (simp add: max_favorite_def)

lemma next_id_greater:
  "0 \<le> n \<Longrightarrow> n < 2 ^ 63 - 1 \<Longrightarrow> n < (if now div 10 ^ 6 \<le> n then wrap64 (n + 1) else now div 10 ^ 6)"
  using wrap64_id [of "n + 1"] by (auto simp: int64_range_def)

section \<open>The contract of the store\<close>

text \<open>\<open>saved s\<close> maps an id to the favorite stored under it.\<close>

locale favorite_store =
  fixes ops :: "'s social_ops" and saved :: "'s \<Rightarrow> int \<Rightarrow> favorite_record option" and inv :: "'s \<Rightarrow> bool"
  assumes upserted: "inv s \<Longrightarrow> so_UpsertFavorite ops f s = (None, s') \<Longrightarrow>
      inv s' \<and> saved s' = (saved s)(fv_ID f \<mapsto> f)"
    and deleted: "inv s \<Longrightarrow> so_DeleteFavorite ops i s = (None, s') \<Longrightarrow> inv s' \<and> saved s' = (saved s)(i := None)"
    and found: "inv s \<Longrightarrow> so_FindFavoriteByEvent ops s e r = Inr (Some f) \<Longrightarrow> saved s (fv_ID f) = Some f"
    and all_listed: "inv s \<Longrightarrow> so_ListFavorites ops s [] = Inr fs \<Longrightarrow> saved s i = Some f \<Longrightarrow> f \<in> set fs \<and> fv_ID f = i"
    and only_listed: "inv s \<Longrightarrow> so_ListFavorites ops s [] = Inr fs \<Longrightarrow> f \<in> set fs \<Longrightarrow> saved s (fv_ID f) = Some f"
begin

text \<open>Once the ids are loaded, the module knows a bound of all of them.\<close>

definition ids_ok :: "social_module \<Rightarrow> 's \<Rightarrow> bool" where
  "ids_ok m s \<longleftrightarrow> inv s \<and> 0 \<le> sm_lastFavoriteID m \<and> (sm_favoriteIDsSet m \<longrightarrow> (\<forall>i f. saved s i = Some f \<longrightarrow> i \<le> sm_lastFavoriteID m))"

lemma load_ids_ok:
  assumes "ids_ok m s" and "load_ids ops m s = Inr m'"
    and "sm_lastFavoriteID m < b" and "\<And>i f. saved s i = Some f \<Longrightarrow> i < b"
  shows "ids_ok m' s \<and> sm_favoriteIDsSet m' \<and> sm_lastFavoriteID m' < b"
proof (cases "sm_favoriteIDsSet m")
  case True
  with assms(1-3) show ?thesis by (simp add: load_ids_def)
next
  case False
  with assms(2) obtain fs where fs: "so_ListFavorites ops s [] = Inr fs"
    and m': "m' = m\<lparr>sm_lastFavoriteID := max_favorite (sm_lastFavoriteID m) fs, sm_favoriteIDsSet := True\<rparr>"
    by (auto simp: load_ids_def split: sum.splits)
  from assms(1) have s: "inv s" by (simp add: ids_ok_def)
  have "\<forall>f\<in>set fs. fv_ID f < b" using only_listed [OF s fs] assms(4) by blast
  from max_favorite_less [OF assms(3) this] have less: "sm_lastFavoriteID m' < b" by (simp add: m')
  have upper: "sm_lastFavoriteID m \<le> sm_lastFavoriteID m'" "f \<in> set fs \<Longrightarrow> fv_ID f \<le> sm_lastFavoriteID m'" for f
    using max_favorite_upper [of "sm_lastFavoriteID m" fs] by (simp_all add: m')
  have "i \<le> sm_lastFavoriteID m'" if "saved s i = Some f" for i f
    using all_listed [OF s fs that] upper(2) by blast
  moreover have "0 \<le> sm_lastFavoriteID m'" using upper(1) assms(1) unfolding ids_ok_def by linarith
  moreover have "sm_favoriteIDsSet m'" by (simp add: m')
  ultimately show ?thesis using s less unfolding ids_ok_def by blast
qed

lemma identify_spec:
  assumes ok: "ids_ok m s" and id: "identify ops now d m s = Inr (f, m')"
    and "sm_lastFavoriteID m < 2 ^ 63 - 1" and "\<And>i g. saved s i = Some g \<Longrightarrow> i < 2 ^ 63 - 1"
  shows "case find_existing ops d s of
       Inr (Some e) \<Rightarrow> saved s (fv_ID e) = Some e \<and> fv_ID f = fv_ID e \<and>
         (fv_CreatedAt e \<noteq> [] \<longrightarrow> fv_CreatedAt f = fv_CreatedAt e)
     | Inr None \<Rightarrow> (\<forall>i g. saved s i = Some g \<longrightarrow> i < fv_ID f)
     | Inl _ \<Rightarrow> False" (is ?A)
    and "0 \<le> sm_lastFavoriteID m' \<and> fv_ID f \<le> sm_lastFavoriteID m' \<and>
      (sm_favoriteIDsSet m' \<longrightarrow> (\<forall>i g. saved s i = Some g \<longrightarrow> i \<le> sm_lastFavoriteID m'))" (is ?B)
proof -
  from ok have s: "inv s" by (simp add: ids_ok_def)
  have "?A \<and> ?B"
  proof (cases "find_existing ops d s")
    case (Inr found)
    show ?thesis
    proof (cases found)
      case (Some e)
      from Inr Some s have "saved s (fv_ID e) = Some e" by (auto simp: find_existing_def found split: if_splits)
      moreover from id Inr Some have "fv_ID f = fv_ID e" "fv_CreatedAt e \<noteq> [] \<longrightarrow> fv_CreatedAt f = fv_CreatedAt e"
        and m': "m' = (if fv_ID e > sm_lastFavoriteID m then m\<lparr>sm_lastFavoriteID := fv_ID e\<rparr> else m)"
        by (auto simp: identify_def)
      moreover have "sm_lastFavoriteID m \<le> sm_lastFavoriteID m'" "fv_ID e \<le> sm_lastFavoriteID m'"
        "sm_favoriteIDsSet m' = sm_favoriteIDsSet m" by (simp_all add: m')
      ultimately show ?thesis using ok Inr Some unfolding ids_ok_def by (auto intro: order_trans)
    next
      case None
      with id Inr obtain m1 where m1: "load_ids ops m s = Inr m1"
        and f: "fv_ID f = (if now div 10 ^ 6 \<le> sm_lastFavoriteID m1 then wrap64 (sm_lastFavoriteID m1 + 1) else now div 10 ^ 6)"
        and m': "m' = m1\<lparr>sm_lastFavoriteID := fv_ID f\<rparr>"
        by (auto simp: identify_def nextFavoriteIDLocked_def Let_def split: sum.splits)
      from load_ids_ok [OF ok m1 assms(3,4)] have m1': "ids_ok m1 s" "sm_favoriteIDsSet m1"
        "sm_lastFavoriteID m1 < 2 ^ 63 - 1" "0 \<le> sm_lastFavoriteID m1" by (simp_all add: ids_ok_def)
      have "sm_lastFavoriteID m1 < fv_ID f" using f next_id_greater [OF m1'(4,3), of now] by simp
      moreover have "sm_lastFavoriteID m' = fv_ID f" by (simp add: m')
      moreover from this have "i < fv_ID f" if "saved s i = Some g" for i g
        using m1'(1,2) that \<open>sm_lastFavoriteID m1 < fv_ID f\<close> unfolding ids_ok_def by (blast intro: le_less_trans)
      ultimately show ?thesis using m1'(4) Inr None by (auto intro: less_imp_le)
    qed
  qed (use id in \<open>simp add: identify_def\<close>)
  then show ?A ?B by simp_all
qed

lemma add_spec:
  assumes ok: "ids_ok m s" and add: "handleFavoritesAdd fl ops now p (m, s) = (Inr f, m', s')"
    and "sm_lastFavoriteID m < 2 ^ 63 - 1" and "\<And>i g. saved s i = Some g \<Longrightarrow> i < 2 ^ 63 - 1"
  shows "ids_ok m' s' \<and> saved s' = (saved s)(fv_ID f \<mapsto> f) \<and>
     (case find_existing ops (favorite_draft fl now p) s of
        Inr (Some e) \<Rightarrow> saved s (fv_ID e) = Some e \<and> fv_ID f = fv_ID e \<and>
          (fv_CreatedAt e \<noteq> [] \<longrightarrow> fv_CreatedAt f = fv_CreatedAt e)
      | Inr None \<Rightarrow> (\<forall>i g. saved s i = Some g \<longrightarrow> i < fv_ID f)
      | Inl _ \<Rightarrow> False)"
proof -
  from add have id: "identify ops now (favorite_draft fl now p) m s = Inr (f, m')"
    and up: "so_UpsertFavorite ops f s = (None, s')"
    by (auto simp: handleFavoritesAdd_def split: sum.splits prod.splits option.splits)
  from ok have s: "inv s" by (simp add: ids_ok_def)
  note spec = identify_spec [OF ok id assms(3,4)]
  from upserted [OF s up] have s': "inv s'" "saved s' = (saved s)(fv_ID f \<mapsto> f)" by simp_all
  have "ids_ok m' s'" using spec(2) s' by (auto simp: ids_ok_def)
  with spec(1) s' show ?thesis by simp
qed

lemma delete_ok:
  assumes "ids_ok m s" and "so_DeleteFavorite ops i s = (None, s')"
  shows "ids_ok m s'"
  using assms deleted [of s i s'] by (auto simp: ids_ok_def split: if_splits)

end

lemma memory_find_saved:
  assumes "keyed fv_ID (ms_favorites s)" and "FindFavoriteByEvent s e r = Some f"
  shows "gget (ms_favorites s) (fv_ID f) = Some f"
proof -
  from assms(2) obtain i where "gfind (\<lambda>_ f. \<not> (e = [] \<or> fv_EventID f \<noteq> e) \<and>
      \<not> (r \<noteq> [] \<and> fv_RoomID f \<noteq> [] \<and> fv_RoomID f \<noteq> r)) (ms_favorites s) = Some (i, f)"
    by (auto simp: FindFavoriteByEvent_def)
  from gfind_gget [OF keyed_gmap_ok [OF assms(1)] this] have "gget (ms_favorites s) i = Some f" by simp
  with keyed_key [OF assms(1) this] show ?thesis by simp
qed

interpretation memory_favorites: favorite_store memory_social_ops "\<lambda>s. gget (ms_favorites s)"
  "\<lambda>s. keyed fv_ID (ms_favorites s)"
proof
  fix s s' :: memory_store and f e r fs i
  assume ok: "keyed fv_ID (ms_favorites s)"
  show "keyed fv_ID (ms_favorites s') \<and> gget (ms_favorites s') = (gget (ms_favorites s))(fv_ID f \<mapsto> f)"
    if "so_UpsertFavorite memory_social_ops f s = (None, s')"
    using that favorites.ok_put [OF ok, of f] favorites.look_put [OF ok, of f]
    by (auto simp: memory_social_ops_def fun_eq_iff)
  show "keyed fv_ID (ms_favorites s') \<and> gget (ms_favorites s') = (gget (ms_favorites s))(i := None)"
    if "so_DeleteFavorite memory_social_ops i s = (None, s')"
    using that favorites.ok_del [OF ok, of i] favorites.look_del [OF ok, of i]
    by (auto simp: memory_social_ops_def fun_eq_iff)
  show "gget (ms_favorites s) (fv_ID f) = Some f" if "so_FindFavoriteByEvent memory_social_ops s e r = Inr (Some f)"
    using that memory_find_saved [OF ok] by (simp add: memory_social_ops_def)
  show "f \<in> set fs \<and> fv_ID f = i"
    if "so_ListFavorites memory_social_ops s [] = Inr fs" and "gget (ms_favorites s) i = Some f"
    using that keyed_key [OF ok that(2)] favorites.rows_look [OF ok, of f] by (simp add: memory_social_ops_def)
  show "gget (ms_favorites s) (fv_ID f) = Some f"
    if "so_ListFavorites memory_social_ops s [] = Inr fs" and "f \<in> set fs"
    using that favorites.rows_look [OF ok, of f] by (simp add: memory_social_ops_def)
qed

section \<open>Favorite ids\<close>

text \<open>What the module knows about the stored ids; it holds of a new module on any store.\<close>

definition favorite_ids_ok :: "social_module \<Rightarrow> memory_store \<Rightarrow> bool" where
  "favorite_ids_ok m s \<longleftrightarrow> keyed fv_ID (ms_favorites s) \<and> 0 \<le> sm_lastFavoriteID m \<and>
     (sm_favoriteIDsSet m \<longrightarrow> (\<forall>i f. gget (ms_favorites s) i = Some f \<longrightarrow> i \<le> sm_lastFavoriteID m))"

lemma favorite_ids_ok_iff: "favorite_ids_ok = memory_favorites.ids_ok"
  by (simp add: fun_eq_iff favorite_ids_ok_def memory_favorites.ids_ok_def)

text \<open>
  C28: adding a favorite writes one row.  If the event is stored, the row keeps its id and its creation time;
  otherwise the id is above every stored one, so that no favorite is overwritten, even when the clock stands
  still or runs behind the stored ids.  The knowledge about ids is kept.  Ids stay below the largest \<open>int64\<close>.
\<close>

theorem favorite_add_fresh:
  assumes "favorite_ids_ok m s" and "handleFavoritesAdd fl memory_social_ops now p (m, s) = (Inr f, m', s')"
    and "sm_lastFavoriteID m < 2 ^ 63 - 1" and "\<And>i g. gget (ms_favorites s) i = Some g \<Longrightarrow> i < 2 ^ 63 - 1"
  shows "favorite_ids_ok m' s' \<and> gget (ms_favorites s') = (gget (ms_favorites s))(fv_ID f \<mapsto> f) \<and>
     (case find_existing memory_social_ops (favorite_draft fl now p) s of
        Inr (Some e) \<Rightarrow> gget (ms_favorites s) (fv_ID e) = Some e \<and> fv_ID f = fv_ID e \<and>
          (fv_CreatedAt e \<noteq> [] \<longrightarrow> fv_CreatedAt f = fv_CreatedAt e)
      | Inr None \<Rightarrow> (\<forall>i g. gget (ms_favorites s) i = Some g \<longrightarrow> i < fv_ID f)
      | Inl _ \<Rightarrow> False)"
  using memory_favorites.add_spec [OF assms(1) [unfolded favorite_ids_ok_iff] assms(2-4)]
  unfolding favorite_ids_ok_iff .

definition stored_favorite :: favorite_record where
  "stored_favorite = \<lparr>fv_ID = 9, fv_EventID = ''$e'', fv_RoomID = [], fv_SenderID = [], fv_SenderName = [],
     fv_Content = [], fv_MessageType = [], fv_OriginServerTS = 0, fv_CreatedAt = []\<rparr>"

theorem favorite_add_fresh_witness:
  "\<exists>f m' s'. handleFavoritesAdd floor memory_social_ops 1 gempty (New_social, UpsertFavorite stored_favorite NewMemoryStore) =
     (Inr f, m', s') \<and> fv_ID f = 10 \<and> favorite_ids_ok m' s' \<and> gget (ms_favorites s') 9 = Some stored_favorite"
proof -
  let ?s = "UpsertFavorite stored_favorite NewMemoryStore"
  have ok0: "keyed fv_ID (ms_favorites NewMemoryStore)" by (simp add: NewMemoryStore_def)
  have ok: "favorite_ids_ok New_social ?s"
    using favorites.ok_put [OF ok0] by (simp add: favorite_ids_ok_def New_social_def)
  have row: "gget (ms_favorites ?s) i = Some g \<Longrightarrow> i < 2 ^ 63 - 1" for i g
    using favorites.look_put [OF ok0, of stored_favorite i] by (auto simp: NewMemoryStore_def stored_favorite_def split: if_splits)
  have list: "ListFavorites ?s [] = [stored_favorite]" by code_simp
  have max: "max_favorite 0 [stored_favorite] = 9" by (simp add: max_favorite_def stored_favorite_def)
  let ?d = "favorite_draft floor 1 gempty"
  have none: "find_existing memory_social_ops ?d ?s = Inr None"
    by (simp add: find_existing_def favorite_draft_def Params_String_def cget_def)
  have "nextFavoriteIDLocked memory_social_ops 1 New_social ?s = Inr (10, \<lparr>sm_lastFavoriteID = 10, sm_favoriteIDsSet = True\<rparr>)"
    by (simp add: nextFavoriteIDLocked_def load_ids_def New_social_def memory_social_ops_def list wrap64_def max)
  then have "identify memory_social_ops 1 ?d New_social ?s =
      Inr (?d\<lparr>fv_ID := 10\<rparr>, \<lparr>sm_lastFavoriteID = 10, sm_favoriteIDsSet = True\<rparr>)" by (simp add: identify_def none)
  then obtain f m' s' where add: "handleFavoritesAdd floor memory_social_ops 1 gempty (New_social, ?s) = (Inr f, m', s')"
    and f: "fv_ID f = 10" by (simp add: handleFavoritesAdd_def memory_social_ops_def)
  from favorite_add_fresh [OF ok add _ row] f favorites.look_put [OF ok0, of stored_favorite 9] add show ?thesis
    by (auto simp: New_social_def stored_favorite_def)
qed

end
