(* ===== verification/Portal_Module.thy ===== *)
theory Portal_Module
  imports Action_Registry Store_Portal "HOL-Library.Word"
begin

text \<open>
  The portal (\<open>p2p/internal/portal/module.go\<close> with the state port of \<open>p2p/service_portal.go\<close> and the authorization
  of \<open>p2p/service.go\<close>): authentication with the password, rotation of password and access token, and the refresh
  of the Matrix session.  The durable store, the credentials file and the Matrix server are ports that may fail.
  The properties: a wrong password changes nothing, a rotation revokes the old password and token and is durable,
  and a bootstrap that overlaps a rotation can write the old password back.
\<close>

section \<open>State\<close>

text \<open>\<open>pv_state\<close> holds the fields of the service that \<open>portalStateLocked\<close> copies; \<open>pv_generation\<close> is a \<open>uint64\<close>.\<close>

record portal_service =
  pv_state :: portal_state
  pv_homeserver :: string
  pv_generation :: "64 word"

record portal_session =
  pn_AccessToken :: string
  pn_DeviceID :: string
  pn_UserID :: string
  pn_Homeserver :: string
  pn_AgentRoomID :: string
  pn_SystemRoomID :: string
  pn_Password :: string
  pn_Initialized :: bool

record portal_snapshot =
  sn_State :: portal_state
  sn_Session :: portal_session

definition matrixPortalDeviceID :: string where
  "matrixPortalDeviceID = ''P2P_PORTAL''"

definition cleanMatrixDeviceID :: "string \<Rightarrow> string" where
  "cleanMatrixDeviceID deviceID =
     (let deviceID = go_trim deviceID in if deviceID = [] then matrixPortalDeviceID else deviceID)"

definition requestedMatrixDeviceID :: "string \<Rightarrow> content \<Rightarrow> string" where
  "requestedMatrixDeviceID random params =
     (let deviceID = go_trim (Params_String (cget params ''device_id''))
      in if deviceID \<noteq> [] then cleanMatrixDeviceID deviceID else ''PORTALIM'' @ go_trim_prefix random ''device_'')"

definition portalStateLocked :: "portal_service \<Rightarrow> portal_state" where
  "portalStateLocked v = (pv_state v)\<lparr>ps_MatrixDeviceID := cleanMatrixDeviceID (ps_MatrixDeviceID (pv_state v))\<rparr>"

definition snapshotLocked :: "portal_service \<Rightarrow> portal_snapshot" where
  "snapshotLocked v = \<lparr>sn_State = portalStateLocked v, sn_Session = \<lparr>
     pn_AccessToken = ps_AccessToken (pv_state v), pn_DeviceID = cleanMatrixDeviceID (ps_MatrixDeviceID (pv_state v)),
     pn_UserID = ps_OwnerMXID (pv_state v), pn_Homeserver = pv_homeserver v,
     pn_AgentRoomID = ps_AgentRoomID (pv_state v), pn_SystemRoomID = ps_SystemRoomID (pv_state v),
     pn_Password = ps_Password (pv_state v), pn_Initialized = ps_Initialized (pv_state v)\<rparr>\<rparr>"

definition port_Authenticate :: "string \<Rightarrow> portal_service \<Rightarrow> portal_snapshot option" where
  "port_Authenticate password v = (if password \<noteq> ps_Password (pv_state v) then None else Some (snapshotLocked v))"

definition RotatePassword ::
  "string \<Rightarrow> string \<Rightarrow> string \<Rightarrow> portal_service \<Rightarrow> portal_snapshot option \<times> portal_service" where
  "RotatePassword oldPassword newPassword newAccessToken v =
     (if oldPassword = [] \<or> oldPassword \<noteq> ps_Password (pv_state v) then (None, v)
      else let v = v\<lparr>pv_state := (pv_state v)\<lparr>ps_Password := newPassword, ps_AccessToken := newAccessToken,
                                              ps_Initialized := True\<rparr>,
                     pv_generation := pv_generation v + 1\<rparr>
           in (Some (snapshotLocked v), v))"

definition zero_client_build :: client_build where
  "zero_client_build = \<lparr>cb_Version = [], cb_BuildNumber = [], cb_Platform = [], cb_ReportedAt = []\<rparr>"

definition CommitMatrixSession :: "string \<Rightarrow> string \<Rightarrow> portal_service \<Rightarrow> portal_snapshot \<times> portal_service" where
  "CommitMatrixSession accessToken deviceID v =
     (let st = (pv_state v)\<lparr>ps_AccessToken := accessToken\<rparr>;
          st = (if ps_MatrixDeviceID st \<noteq> deviceID then st\<lparr>ps_ClientBuild := zero_client_build\<rparr> else st);
          v = v\<lparr>pv_state := st\<lparr>ps_MatrixDeviceID := deviceID\<rparr>, pv_generation := pv_generation v + 1\<rparr>
      in (snapshotLocked v, v))"

text \<open>
  \<open>ActionSpecFor\<close> and \<open>AgentAction\<close> read the published action table, the two predicates here.  A session is its
  device and generation.
\<close>

definition authorizeProductAction ::
  "(string \<Rightarrow> bool) \<Rightarrow> (string \<Rightarrow> bool) \<Rightarrow> string \<Rightarrow> string \<Rightarrow> portal_service \<Rightarrow> (string \<times> 64 word) option \<times> bool" where
  "authorizeProductAction published agent_action token action v =
     (if token = [] then (None, False)
      else if \<not> published action then (None, False)
      else if token = ps_AccessToken (pv_state v)
      then (Some (cleanMatrixDeviceID (ps_MatrixDeviceID (pv_state v)), pv_generation v), True)
      else (None, token = ps_AgentToken (pv_state v) \<and> agent_action action))"

section \<open>The module\<close>

record 's portal_ports =
  pp_Save :: "portal_state \<Rightarrow> 's \<Rightarrow> string option \<times> 's"
  pp_WriteCurrent :: "portal_service \<Rightarrow> 's \<Rightarrow> string option \<times> 's"
  pp_EnsureOwnerSession :: "string \<Rightarrow> bool \<Rightarrow> string + string \<times> bool"

text \<open>Saving a state and writing the credentials, in this order.\<close>

definition save_and_write :: "'s portal_ports \<Rightarrow> portal_state \<Rightarrow> portal_service \<Rightarrow> 's \<Rightarrow> string option \<times> 's" where
  "save_and_write ports st v s = (case pp_Save ports st s of
       (Some err, s') \<Rightarrow> (Some err, s')
     | (None, s') \<Rightarrow> pp_WriteCurrent ports v s')"

definition refreshMatrixSession ::
  "'s portal_ports \<Rightarrow> string \<Rightarrow> portal_session \<Rightarrow> portal_service \<times> 's \<Rightarrow>
   (action_error + portal_session) \<times> portal_service \<times> 's" where
  "refreshMatrixSession ports deviceID session = (\<lambda>(v, s). case pp_EnsureOwnerSession ports deviceID True of
       Inl err \<Rightarrow> (Inl (InternalError err), v, s)
     | Inr (token, configured) \<Rightarrow>
         if \<not> configured then (Inr (session\<lparr>pn_DeviceID := deviceID\<rparr>), v, s)
         else let (snapshot, v) = CommitMatrixSession token deviceID v
              in case save_and_write ports (sn_State snapshot) v s of
                   (Some err, s') \<Rightarrow> (Inl (InternalError err), v, s')
                 | (None, s') \<Rightarrow> (Inr (sn_Session snapshot), v, s'))"

text \<open>The bootstrap takes its snapshot first; the rest of it is a step of its own.\<close>

definition bootstrap_finish ::
  "'s portal_ports \<Rightarrow> string \<Rightarrow> portal_snapshot \<Rightarrow> portal_service \<times> 's \<Rightarrow>
   (action_error + portal_session) \<times> portal_service \<times> 's" where
  "bootstrap_finish ports deviceID snapshot = (\<lambda>(v, s). case save_and_write ports (sn_State snapshot) v s of
       (Some err, s') \<Rightarrow> (Inl (InternalError err), v, s')
     | (None, s') \<Rightarrow> refreshMatrixSession ports deviceID (sn_Session snapshot) (v, s'))"

definition bootstrap ::
  "'s portal_ports \<Rightarrow> string \<Rightarrow> content \<Rightarrow> portal_service \<times> 's \<Rightarrow>
   (action_error + portal_session) \<times> portal_service \<times> 's" where
  "bootstrap ports random params = (\<lambda>(v, s).
     let password = FirstString params [''password'', ''token'']
     in if password = [] then (Inl (BadRequest ''password is required''), v, s)
        else case port_Authenticate password v of
          None \<Rightarrow> (Inl (StatusError 401 ''password invalid''), v, s)
        | Some snapshot \<Rightarrow> bootstrap_finish ports (requestedMatrixDeviceID random params) snapshot (v, s))"

definition portal_auth ::
  "'s portal_ports \<Rightarrow> string \<Rightarrow> content \<Rightarrow> portal_service \<times> 's \<Rightarrow>
   (action_error + portal_session) \<times> portal_service \<times> 's" where
  "portal_auth ports random params = (\<lambda>(v, s).
     let password = Params_String (cget params ''password'')
     in case port_Authenticate password v of
          None \<Rightarrow> (Inl (StatusError 401 ''password invalid''), v, s)
        | Some snapshot \<Rightarrow>
            if password = [] then (Inl (StatusError 401 ''password invalid''), v, s)
            else refreshMatrixSession ports (requestedMatrixDeviceID random params) (sn_Session snapshot) (v, s))"

definition changePassword ::
  "'s portal_ports \<Rightarrow> string \<Rightarrow> string \<Rightarrow> content \<Rightarrow> portal_service \<times> 's \<Rightarrow>
   (action_error + portal_session) \<times> portal_service \<times> 's" where
  "changePassword ports newToken random params = (\<lambda>(v, s).
     let newPassword = Params_String (cget params ''new_password'')
     in if newPassword = [] then (Inl (BadRequest ''new_password is required''), v, s)
        else case RotatePassword (Params_String (cget params ''old_password'')) newPassword newToken v of
          (None, v) \<Rightarrow> (Inl (StatusError 401 ''password invalid''), v, s)
        | (Some snapshot, v) \<Rightarrow> (case save_and_write ports (sn_State snapshot) v s of
            (Some err, s') \<Rightarrow> (Inl (InternalError err), v, s')
          | (None, s') \<Rightarrow> refreshMatrixSession ports (requestedMatrixDeviceID random params) (sn_Session snapshot) (v, s')))"

section \<open>Properties\<close>

text \<open>
  The contract of the durable side: a successful save makes the state durable up to the client build, which the
  store keeps for the device it belongs to, and writing the credentials leaves the store alone.
\<close>

locale portal_ports_ok =
  fixes ports :: "'s portal_ports" and durable :: "'s \<Rightarrow> portal_state option"
  assumes saved: "pp_Save ports st s = (None, s') \<Longrightarrow> \<exists>b. durable s' = Some (st\<lparr>ps_ClientBuild := b\<rparr>)"
    and written: "pp_WriteCurrent ports v s = (r, s') \<Longrightarrow> durable s' = durable s"
begin

lemma save_and_write_durable:
  "save_and_write ports st v s = (None, s') \<Longrightarrow> \<exists>b. durable s' = Some (st\<lparr>ps_ClientBuild := b\<rparr>)"
  by (auto simp: save_and_write_def split: prod.splits option.splits) (metis saved written)

lemma refresh_durable:
  assumes "refreshMatrixSession ports d session (v, s) = (Inr session', v', s')"
    and "\<exists>b. durable s = Some ((portalStateLocked v)\<lparr>ps_ClientBuild := b\<rparr>)"
  shows "\<exists>b. durable s' = Some ((portalStateLocked v')\<lparr>ps_ClientBuild := b\<rparr>)"
  using assms save_and_write_durable
  by (fastforce simp: refreshMatrixSession_def CommitMatrixSession_def snapshotLocked_def Let_def
      split: sum.splits prod.splits option.splits if_splits)

end

lemma snapshot_fields [simp]:
  "sn_State (snapshotLocked v) = portalStateLocked v"
  "pn_AccessToken (sn_Session (snapshotLocked v)) = ps_AccessToken (pv_state v)"
  by (simp_all add: snapshotLocked_def)

lemma portalStateLocked_fields [simp]:
  "ps_Password (portalStateLocked v) = ps_Password (pv_state v)"
  "ps_AccessToken (portalStateLocked v) = ps_AccessToken (pv_state v)"
  by (simp_all add: portalStateLocked_def)

lemma refresh_service:
  assumes "refreshMatrixSession ports d session (v, s) = (r, v', s')"
  shows "ps_Password (pv_state v') = ps_Password (pv_state v)"
    and "ps_AccessToken (pv_state v') \<in> insert (ps_AccessToken (pv_state v)) {t. pp_EnsureOwnerSession ports d True = Inr (t, True)}"
    and "r = Inr session' \<Longrightarrow> pn_AccessToken session = ps_AccessToken (pv_state v) \<Longrightarrow>
      pn_AccessToken session' = ps_AccessToken (pv_state v')"
  using assms
  by (auto simp: refreshMatrixSession_def CommitMatrixSession_def Let_def split: sum.splits prod.splits option.splits if_splits)

definition memory_portal_ports :: "(string \<Rightarrow> bool \<Rightarrow> string + string \<times> bool) \<Rightarrow> memory_store portal_ports" where
  "memory_portal_ports ensure = \<lparr>
     pp_Save = (\<lambda>st s. (None, SavePortal st s)), pp_WriteCurrent = (\<lambda>v s. (None, s)), pp_EnsureOwnerSession = ensure\<rparr>"

interpretation memory_portal: portal_ports_ok "memory_portal_ports ensure" ms_portal for ensure
proof
  fix st s s' v r
  show "\<exists>b. ms_portal s' = Some (st\<lparr>ps_ClientBuild := b\<rparr>)" if "pp_Save (memory_portal_ports ensure) st s = (None, s')"
  proof (cases "ms_portal s")
    case None
    with that have "ms_portal s' = Some (st\<lparr>ps_ClientBuild := ps_ClientBuild st\<rparr>)"
      by (auto simp: memory_portal_ports_def SavePortal_def Let_def)
    then show ?thesis by blast
  next
    case (Some p)
    with that have "ms_portal s' = Some (st\<lparr>ps_ClientBuild := if ps_MatrixDeviceID p = ps_MatrixDeviceID st
        then ps_ClientBuild p else ps_ClientBuild st\<rparr>)"
      by (auto simp: memory_portal_ports_def SavePortal_def Let_def)
    then show ?thesis by blast
  qed
  show "ms_portal s' = ms_portal s" if "pp_WriteCurrent (memory_portal_ports ensure) v s = (r, s')"
    using that by (simp add: memory_portal_ports_def)
qed

lemma changePassword_refused:
  assumes "changePassword ports tok rnd p (v, s) = (r, v', s')"
    and "Params_String (cget p ''old_password'') \<noteq> ps_Password (pv_state v) \<or> Params_String (cget p ''old_password'') = [] \<or>
      Params_String (cget p ''new_password'') = []"
  shows "isl r \<and> v' = v \<and> s' = s"
  using assms by (auto simp: changePassword_def RotatePassword_def Let_def split: if_splits)

lemma changePassword_accepted:
  assumes "changePassword ports tok rnd p (v, s) = (Inr session, v', s')"
  obtains w s1 where "ps_Password (pv_state w) = Params_String (cget p ''new_password'')"
    and "ps_AccessToken (pv_state w) = tok" and "save_and_write ports (portalStateLocked w) w s = (None, s1)"
    and "refreshMatrixSession ports (requestedMatrixDeviceID rnd p) (sn_Session (snapshotLocked w)) (w, s1) =
      (Inr session, v', s')"
proof -
  define w where "w = v\<lparr>pv_state := (pv_state v)\<lparr>ps_Password := Params_String (cget p ''new_password''),
      ps_AccessToken := tok, ps_Initialized := True\<rparr>, pv_generation := pv_generation v + 1\<rparr>"
  from assms have rot: "RotatePassword (Params_String (cget p ''old_password'')) (Params_String (cget p ''new_password'')) tok v =
      (Some (snapshotLocked w), w)"
    by (auto simp: changePassword_def RotatePassword_def Let_def w_def split: if_splits)
  with assms obtain s1 where "save_and_write ports (portalStateLocked w) w s = (None, s1)"
    "refreshMatrixSession ports (requestedMatrixDeviceID rnd p) (sn_Session (snapshotLocked w)) (w, s1) = (Inr session, v', s')"
    by (auto simp: changePassword_def Let_def split: if_splits prod.splits option.splits)
  with that [of w s1] show thesis by (simp add: w_def)
qed

definition sample_portal :: portal_service where
  "sample_portal = \<lparr>pv_state = zero_portal\<lparr>ps_Password := ''old'', ps_AccessToken := ''t0''\<rparr>, pv_homeserver = [], pv_generation = 0\<rparr>"

definition rotation_params :: content where
  "rotation_params = gput ''old_password'' (AStr ''old'') (gput ''new_password'' (AStr ''new'') gempty)"

lemma sample_rotation:
  "\<exists>session v' s'. changePassword (memory_portal_ports (\<lambda>_ _. Inr ([], False))) ''t1'' ''device_1'' rotation_params (sample_portal, NewMemoryStore) =
     (Inr session, v', s') \<and> ps_AgentToken (pv_state v') = []"
proof -
  have p: "Params_String (cget rotation_params ''old_password'') = ''old''" "Params_String (cget rotation_params ''new_password'') = ''new''"
    by (simp_all add: rotation_params_def Params_String_def go_trim_ascii ascii_graph_def)
  show ?thesis
    by (simp add: changePassword_def RotatePassword_def p sample_portal_def zero_portal_def save_and_write_def
        memory_portal_ports_def refreshMatrixSession_def Let_def)
qed

text \<open>
  C6: only the current password rotates the password, and a rotation revokes.  With a wrong, empty or missing
  password the request fails and changes nothing.  After a rotation that succeeds, the new password is in force and
  durable, the answer carries the access token in force, and no other token is accepted for any action, except the
  agent's: neither the old token nor any that the Matrix server did not issue for this request.
\<close>

theorem password_rotation:
  assumes "changePassword (memory_portal_ports ensure) tok rnd p (v, s) = (r, v', s')"
  shows "(Params_String (cget p ''old_password'') \<noteq> ps_Password (pv_state v) \<or> Params_String (cget p ''old_password'') = [] \<or>
      Params_String (cget p ''new_password'') = [] \<longrightarrow> isl r \<and> v' = v \<and> s' = s) \<and>
    (\<forall>session. r = Inr session \<longrightarrow>
       ps_Password (pv_state v') = Params_String (cget p ''new_password'') \<and>
       (\<exists>b. ms_portal s' = Some ((portalStateLocked v')\<lparr>ps_ClientBuild := b\<rparr>)) \<and>
       pn_AccessToken session = ps_AccessToken (pv_state v') \<and>
       (\<forall>t action. t \<noteq> tok \<and> t \<noteq> ps_AgentToken (pv_state v') \<and>
          ensure (requestedMatrixDeviceID rnd p) True \<noteq> Inr (t, True) \<longrightarrow>
          \<not> snd (authorizeProductAction published agent_action t action v')))"
proof -
  let ?ports = "memory_portal_ports ensure" and ?d = "requestedMatrixDeviceID rnd p"
  have "ps_Password (pv_state v') = Params_String (cget p ''new_password'') \<and>
       (\<exists>b. ms_portal s' = Some ((portalStateLocked v')\<lparr>ps_ClientBuild := b\<rparr>)) \<and>
       pn_AccessToken session = ps_AccessToken (pv_state v') \<and>
       (ps_AccessToken (pv_state v') = tok \<or> ensure ?d True = Inr (ps_AccessToken (pv_state v'), True))"
    if r: "r = Inr session" for session
  proof -
    obtain w s1 where w: "ps_Password (pv_state w) = Params_String (cget p ''new_password'')"
      "ps_AccessToken (pv_state w) = tok" and save: "save_and_write ?ports (portalStateLocked w) w s = (None, s1)"
      and refresh: "refreshMatrixSession ?ports ?d (sn_Session (snapshotLocked w)) (w, s1) = (Inr session, v', s')"
      by (rule changePassword_accepted [OF assms [unfolded r]])
    from memory_portal.refresh_durable [OF refresh memory_portal.save_and_write_durable [OF save]]
      refresh_service [OF refresh] w show ?thesis by (auto simp: memory_portal_ports_def)
  qed
  then show ?thesis using changePassword_refused [OF assms]
    by (auto simp: authorizeProductAction_def)
qed

theorem password_rotation_witness:
  "\<exists>session v' s'. changePassword (memory_portal_ports (\<lambda>_ _. Inr ([], False))) ''t1'' ''device_1'' rotation_params (sample_portal, NewMemoryStore) =
     (Inr session, v', s') \<and> ps_Password (pv_state v') = Params_String (cget rotation_params ''new_password'') \<and>
     \<not> snd (authorizeProductAction (\<lambda>_. True) (\<lambda>_. True) ''t0'' ''profile.get'' v')"
proof -
  obtain session v' s' where c: "changePassword (memory_portal_ports (\<lambda>_ _. Inr ([], False))) ''t1'' ''device_1'' rotation_params
      (sample_portal, NewMemoryStore) = (Inr session, v', s')" and a: "ps_AgentToken (pv_state v') = []"
    using sample_rotation by blast
  from password_rotation [OF c, of "\<lambda>_. True" "\<lambda>_. True"] c a show ?thesis by auto
qed

text \<open>
  A bootstrap saves the snapshot it took before it had the session lock.  When a rotation runs in between and no
  Matrix session is configured, the bootstrap writes the old password back to the store, although the service has
  the new one: the old password is in force again after a restart.
\<close>

theorem bootstrap_restores_password:
  assumes "port_Authenticate password v = Some snapshot"
    and "changePassword (memory_portal_ports (\<lambda>_ _. Inr ([], False))) tok rnd p (v, s) = (Inr session, v', s')"
    and "bootstrap_finish (memory_portal_ports (\<lambda>_ _. Inr ([], False))) d snapshot (v', s') = (r, v'', s'')"
  shows "ps_Password (pv_state v'') = Params_String (cget p ''new_password'') \<and>
    (\<exists>st. ms_portal s'' = Some st \<and> ps_Password st = password)"
proof -
  let ?ports = "memory_portal_ports (\<lambda>_ _. Inr ([], False))"
  obtain w s1 where w: "ps_Password (pv_state w) = Params_String (cget p ''new_password'')"
    and refresh: "refreshMatrixSession ?ports (requestedMatrixDeviceID rnd p) (sn_Session (snapshotLocked w)) (w, s1) = (Inr session, v', s')"
    by (rule changePassword_accepted [OF assms(2)])
  from refresh w have v': "ps_Password (pv_state v') = Params_String (cget p ''new_password'')"
    using refresh_service(1) by fastforce
  have snap: "ps_Password (sn_State snapshot) = password" using assms(1) by (auto simp: port_Authenticate_def split: if_splits)
  from assms(3) have "v'' = v'" "s'' = SavePortal (sn_State snapshot) s'"
    by (auto simp: bootstrap_finish_def save_and_write_def memory_portal_ports_def refreshMatrixSession_def)
  with v' snap show ?thesis by (simp add: SavePortal_def Let_def split: option.split)
qed

end
