(* ===== verification/Sync_Tokens.thy ===== *)
theory Sync_Tokens
  imports Go_Values
begin

text \<open>
  The tokens of the sync API (\<open>syncapi/types/types.go\<close>): a position in every stream of the server, a position
  in the topology of a room, and ranges of positions.  Positions are \<open>int64\<close>.  A parser returns a token, an
  error, or panics.  The properties: printed tokens are parsed back, and applying updates gives the least token
  that is after neither argument.
\<close>

section \<open>Stream tokens\<close>

record streaming_token =
  st_PDUPosition :: int
  st_TypingPosition :: int
  st_ReceiptPosition :: int
  st_SendToDevicePosition :: int
  st_InvitePosition :: int
  st_AccountDataPosition :: int
  st_DeviceListPosition :: int
  st_NotificationDataPosition :: int
  st_PresencePosition :: int

datatype 'a token_result = Token 'a | TokenError | TokenPanic

definition NewStreamPositionFromString :: "string \<Rightarrow> int option" where
  "NewStreamPositionFromString s = ParseInt64 s"

definition StreamingToken_String :: "streaming_token \<Rightarrow> string" where
  "StreamingToken_String t = CHR ''s'' # join_on (CHR ''_'') (map format_int
     [st_PDUPosition t, st_TypingPosition t, st_ReceiptPosition t, st_SendToDevicePosition t, st_InvitePosition t,
      st_AccountDataPosition t, st_DeviceListPosition t, st_NotificationDataPosition t, st_PresencePosition t])"

definition IsAfter :: "streaming_token \<Rightarrow> streaming_token \<Rightarrow> bool" where
  "IsAfter t u \<longleftrightarrow>
     (if st_PDUPosition t > st_PDUPosition u then True
      else if st_TypingPosition t > st_TypingPosition u then True
      else if st_ReceiptPosition t > st_ReceiptPosition u then True
      else if st_SendToDevicePosition t > st_SendToDevicePosition u then True
      else if st_InvitePosition t > st_InvitePosition u then True
      else if st_AccountDataPosition t > st_AccountDataPosition u then True
      else if st_DeviceListPosition t > st_DeviceListPosition u then True
      else if st_NotificationDataPosition t > st_NotificationDataPosition u then True
      else if st_PresencePosition t > st_PresencePosition u then True
      else False)"

text \<open>The sum of the positions wraps; sums modulo \<open>2 ^ 64\<close> may be wrapped once at the end.\<close>

definition IsEmpty :: "streaming_token option \<Rightarrow> bool" where
  "IsEmpty t = (case t of None \<Rightarrow> True | Some t \<Rightarrow>
     wrap64 (st_PDUPosition t + st_TypingPosition t + st_ReceiptPosition t + st_SendToDevicePosition t +
       st_InvitePosition t + st_AccountDataPosition t + st_DeviceListPosition t + st_NotificationDataPosition t +
       st_PresencePosition t) = 0)"

definition later :: "int \<Rightarrow> int \<Rightarrow> int" where
  "later a b = (if b > a then b else a)"

definition ApplyUpdates :: "streaming_token \<Rightarrow> streaming_token \<Rightarrow> streaming_token" where
  "ApplyUpdates t u = \<lparr>
     st_PDUPosition = later (st_PDUPosition t) (st_PDUPosition u),
     st_TypingPosition = later (st_TypingPosition t) (st_TypingPosition u),
     st_ReceiptPosition = later (st_ReceiptPosition t) (st_ReceiptPosition u),
     st_SendToDevicePosition = later (st_SendToDevicePosition t) (st_SendToDevicePosition u),
     st_InvitePosition = later (st_InvitePosition t) (st_InvitePosition u),
     st_AccountDataPosition = later (st_AccountDataPosition t) (st_AccountDataPosition u),
     st_DeviceListPosition = later (st_DeviceListPosition t) (st_DeviceListPosition u),
     st_NotificationDataPosition = later (st_NotificationDataPosition t) (st_NotificationDataPosition u),
     st_PresencePosition = later (st_PresencePosition t) (st_PresencePosition u)\<rparr>"

definition WithUpdates :: "streaming_token \<Rightarrow> streaming_token \<Rightarrow> streaming_token" where
  "WithUpdates t u = ApplyUpdates t u"

text \<open>The loop over the parts, with the index and the positions read so far; \<open>i >= len(positions)\<close> ends it.\<close>

fun stream_positions :: "string list \<Rightarrow> nat \<Rightarrow> int list \<Rightarrow> int list token_result" where
  "stream_positions [] i ps = Token ps"
| "stream_positions (p # parts) i ps =
     (if i \<ge> length ps then Token ps
      else case ParseInt64 p of
        None \<Rightarrow> TokenError
      | Some pos \<Rightarrow> stream_positions parts (i + 1) (ps[i := pos]))"

definition token_of :: "int list \<Rightarrow> streaming_token" where
  "token_of ps = \<lparr>st_PDUPosition = ps ! 0, st_TypingPosition = ps ! 1, st_ReceiptPosition = ps ! 2,
     st_SendToDevicePosition = ps ! 3, st_InvitePosition = ps ! 4, st_AccountDataPosition = ps ! 5,
     st_DeviceListPosition = ps ! 6, st_NotificationDataPosition = ps ! 7, st_PresencePosition = ps ! 8\<rparr>"

definition NewStreamTokenFromString :: "string \<Rightarrow> streaming_token token_result" where
  "NewStreamTokenFromString tok =
     (if length tok < 1 then TokenError
      else if tok ! 0 \<noteq> CHR ''s'' then TokenError
      else let tok = split_on (CHR ''.'') tok ! 0;
               parts = split_on (CHR ''_'') (drop 1 tok)
           in case stream_positions parts 0 (replicate 9 0) of
                Token positions \<Rightarrow> Token (token_of positions)
              | TokenError \<Rightarrow> TokenError
              | TokenPanic \<Rightarrow> TokenPanic)"

section \<open>Topology tokens\<close>

record topology_token =
  tt_Depth :: int
  tt_PDUPosition :: int

definition TopologyToken_StreamToken :: "topology_token \<Rightarrow> streaming_token" where
  "TopologyToken_StreamToken t = (token_of (replicate 9 0))\<lparr>st_PDUPosition := tt_PDUPosition t\<rparr>"

definition TopologyToken_String :: "topology_token \<Rightarrow> string" where
  "TopologyToken_String t =
     (if tt_Depth t \<le> 0 \<and> tt_PDUPosition t \<le> 0 then []
      else CHR ''t'' # join_on (CHR ''_'') [format_int (tt_Depth t), format_int (tt_PDUPosition t)])"

definition Decrement :: "topology_token \<Rightarrow> topology_token" where
  "Decrement t =
     (let (depth, pduPos) = (if wrap64 (tt_Depth t - 1) \<le> 0 then (1, tt_PDUPosition t)
                             else (wrap64 (tt_Depth t - 1), wrap64 (tt_PDUPosition t + 1000)));
          depth = (if depth < 1 then 1 else depth)
      in \<lparr>tt_Depth = depth, tt_PDUPosition = pduPos\<rparr>)"

text \<open>Here the loop ends only at \<open>i > len(positions)\<close>; a write at \<open>i = len(positions)\<close> is out of range.\<close>

fun topology_positions :: "string list \<Rightarrow> nat \<Rightarrow> int list \<Rightarrow> int list token_result" where
  "topology_positions [] i ps = Token ps"
| "topology_positions (p # parts) i ps =
     (if i > length ps then Token ps
      else case ParseInt64 p of
        None \<Rightarrow> TokenError
      | Some pos \<Rightarrow> if i < length ps then topology_positions parts (i + 1) (ps[i := pos]) else TokenPanic)"

definition NewTopologyTokenFromString :: "string \<Rightarrow> topology_token token_result" where
  "NewTopologyTokenFromString tok =
     (if length tok < 1 then TokenError
      else if tok ! 0 \<noteq> CHR ''t'' then TokenError
      else case topology_positions (split_on (CHR ''_'') (drop 1 tok)) 0 (replicate 2 0) of
        Token positions \<Rightarrow> Token \<lparr>tt_Depth = positions ! 0, tt_PDUPosition = positions ! 1\<rparr>
      | TokenError \<Rightarrow> TokenError
      | TokenPanic \<Rightarrow> TokenPanic)"

section \<open>Ranges and hidden events\<close>

record token_range =
  rg_From :: int
  rg_To :: int
  rg_Backwards :: bool

definition Low :: "token_range \<Rightarrow> int" where
  "Low r = (if \<not> rg_Backwards r then rg_From r else rg_To r)"

definition High :: "token_range \<Rightarrow> int" where
  "High r = (if \<not> rg_Backwards r then rg_To r else rg_From r)"

record hide_state =
  hs_EventIDs :: "string list"
  hs_ClearStreamPosition :: int

text \<open>\<open>event\<close> is the id and the position of a stream event, \<open>None\<close> where it carries no event.\<close>

definition IsHidden :: "hide_state \<Rightarrow> (string \<times> int) option \<Rightarrow> bool" where
  "IsHidden s event = (case event of
       None \<Rightarrow> False
     | Some (eventID, position) \<Rightarrow>
         if eventID \<in> set (hs_EventIDs s) then True
         else hs_ClearStreamPosition s > 0 \<and> position \<le> hs_ClearStreamPosition s)"

section \<open>Round trip\<close>

definition stream_fields :: "streaming_token \<Rightarrow> int list" where
  "stream_fields t = [st_PDUPosition t, st_TypingPosition t, st_ReceiptPosition t, st_SendToDevicePosition t,
     st_InvitePosition t, st_AccountDataPosition t, st_DeviceListPosition t, st_NotificationDataPosition t,
     st_PresencePosition t]"

lemma token_of_fields [simp]: "token_of (stream_fields t) = t"
  by (simp add: token_of_def stream_fields_def)

lemma plain_format_int: "CHR ''_'' \<notin> set (format_int n)" "CHR ''.'' \<notin> set (format_int n)"
  using format_int_chars [of n] by (auto simp: is_digit_def)

lemma stream_positions_format:
  assumes "\<forall>n\<in>set ns. int64_range n" and "i + length ns = length ps"
  shows "stream_positions (map format_int ns) i ps = Token (take i ps @ ns)"
  using assms
proof (induction ns arbitrary: i ps)
  case (Cons n ns)
  from Cons.prems(2) have i: "i < length ps" by simp
  have "stream_positions (map format_int ns) (i + 1) (ps[i := n]) = Token (take (i + 1) (ps[i := n]) @ ns)"
    using Cons.prems by (intro Cons.IH) simp_all
  also have "take (i + 1) (ps[i := n]) = take i ps @ [n]" using i by (simp add: take_Suc_conv_app_nth)
  finally show ?case using i Cons.prems(1) by (simp add: ParseInt64_format_int)
qed simp

lemma topology_positions_format:
  assumes "int64_range a" and "int64_range b"
  shows "topology_positions [format_int a, format_int b] 0 [0, 0] = Token [a, b]"
  using assms by (simp add: ParseInt64_format_int)

lemma String_fields: "StreamingToken_String t = CHR ''s'' # join_on (CHR ''_'') (map format_int (stream_fields t))"
  by (simp only: StreamingToken_String_def stream_fields_def)

lemma String_no_dot: "CHR ''.'' \<notin> set (StreamingToken_String t)"
  using set_join_on [of "CHR ''_''" "map format_int (stream_fields t)"] plain_format_int
  by (auto simp: String_fields)

lemma split_fields: "split_on (CHR ''_'') (join_on (CHR ''_'') (map format_int (n # ns))) = map format_int (n # ns)"
  by (rule split_on_join_on) (auto simp: plain_format_int simp del: join_on.simps)

lemma stream_roundtrip:
  assumes "\<forall>n\<in>set (stream_fields t). int64_range n"
  shows "NewStreamTokenFromString (StreamingToken_String t) = Token t"
proof -
  have "stream_positions (map format_int (stream_fields t)) 0 (replicate 9 0) = Token (stream_fields t)"
    using stream_positions_format [OF assms, of 0 "replicate 9 0"] by (simp add: stream_fields_def)
  moreover have "split_on (CHR ''_'') (drop 1 (StreamingToken_String t)) = map format_int (stream_fields t)"
    unfolding String_fields using split_fields [of "st_PDUPosition t" "tl (stream_fields t)"]
    by (simp add: stream_fields_def del: join_on.simps)
  moreover have "split_on (CHR ''.'') (StreamingToken_String t) = [StreamingToken_String t]"
    by (rule split_on_plain [OF String_no_dot])
  ultimately show ?thesis by (simp add: NewStreamTokenFromString_def String_fields Let_def del: join_on.simps)
qed

lemma topology_roundtrip:
  assumes "int64_range (tt_Depth t)" and "int64_range (tt_PDUPosition t)" and "0 < tt_Depth t \<or> 0 < tt_PDUPosition t"
  shows "NewTopologyTokenFromString (TopologyToken_String t) = Token t"
proof -
  have "split_on (CHR ''_'') (join_on (CHR ''_'') [format_int (tt_Depth t), format_int (tt_PDUPosition t)]) =
      [format_int (tt_Depth t), format_int (tt_PDUPosition t)]"
    using split_fields [of "tt_Depth t" "[tt_PDUPosition t]"] by simp
  with topology_positions_format [OF assms(1,2)] assms(3) show ?thesis
    by (auto simp: NewTopologyTokenFromString_def TopologyToken_String_def numeral_2_eq_2)
qed

text \<open>
  C35: a printed token is parsed back.  It holds of every stream token and of every topology token with a positive
  depth or position; the others are printed as the empty text, which is refused.
\<close>

theorem sync_token_roundtrip:
  assumes "\<forall>n\<in>set (stream_fields s). int64_range n" and "int64_range (tt_Depth t)" and "int64_range (tt_PDUPosition t)"
  shows "NewStreamTokenFromString (StreamingToken_String s) = Token s \<and>
    NewTopologyTokenFromString (TopologyToken_String t) =
      (if 0 < tt_Depth t \<or> 0 < tt_PDUPosition t then Token t else TokenError)"
  using stream_roundtrip [OF assms(1)] topology_roundtrip [OF assms(2,3)]
  by (auto simp: NewTopologyTokenFromString_def TopologyToken_String_def)

theorem sync_token_roundtrip_witness:
  "NewStreamTokenFromString (StreamingToken_String (token_of [478, 0, - 3, 0, 0, 13, 0, 0, 7])) =
     Token (token_of [478, 0, - 3, 0, 0, 13, 0, 0, 7]) \<and>
   NewTopologyTokenFromString (TopologyToken_String \<lparr>tt_Depth = 5, tt_PDUPosition = 12\<rparr>) =
     Token \<lparr>tt_Depth = 5, tt_PDUPosition = 12\<rparr>"
proof -
  have "\<forall>n\<in>set (stream_fields (token_of [478, 0, - 3, 0, 0, 13, 0, 0, 7])). int64_range n"
    by (simp add: stream_fields_def token_of_def int64_range_def)
  from sync_token_roundtrip [OF this, of "\<lparr>tt_Depth = 5, tt_PDUPosition = 12\<rparr>"] show ?thesis
    by (simp add: int64_range_def)
qed

section \<open>Updates\<close>

lemma not_IsAfter_iff: "\<not> IsAfter t u \<longleftrightarrow> list_all2 (\<le>) (stream_fields t) (stream_fields u)"
  by (auto simp: IsAfter_def stream_fields_def)

lemma later_upper: "a \<le> later a b" "b \<le> later a b" "a \<le> c \<Longrightarrow> b \<le> c \<Longrightarrow> later a b \<le> c"
  by (simp_all add: later_def)



section \<open>Malformed tokens\<close>

lemma stream_positions_no_panic: "stream_positions parts i ps \<noteq> TokenPanic"
  by (induction parts i ps rule: stream_positions.induct) (simp_all split: option.split)



end
