(* ===== verification/User_Validation.thy ===== *)
theory User_Validation
  imports Go_Values
begin

text \<open>
  Validation of user names, passwords and requests of application services (\<open>internal/validate.go\<close>, with
  \<open>clientapi/userutil/userutil.go\<close> and the predicates of \<open>setup/config\<close> they use).  The parser \<open>SplitID\<close> of
  gomatrixserverlib is an argument, and the compiled pattern of a namespace is a predicate.  The properties say
  exactly which names and requests are accepted.
\<close>

section \<open>Names and passwords\<close>

datatype validation_error =
    PasswordTooLong
  | PasswordWeak
  | UsernameTooLong
  | UsernameInvalid
  | UsernameUnderscore

definition maxUsernameLength :: nat where
  "maxUsernameLength = 254"

definition minPasswordLength :: nat where
  "minPasswordLength = 8"

definition maxPasswordLength :: nat where
  "maxPasswordLength = 512"

definition ValidatePassword :: "string \<Rightarrow> validation_error option" where
  "ValidatePassword password =
     (if length password > maxPasswordLength then Some PasswordTooLong
      else if length password > 0 \<and> length password < minPasswordLength then Some PasswordWeak
      else None)"

text \<open>The pattern \<open>^[0-9a-z_\-+=./]+$\<close>; the end anchor is the end of the text.\<close>

definition username_char :: "char \<Rightarrow> bool" where
  "username_char c \<longleftrightarrow> is_digit c \<or> CHR ''a'' \<le> c \<and> c \<le> CHR ''z'' \<or> c \<in> set ''_-+=./''"

definition validUsernameRegex :: "string \<Rightarrow> bool" where
  "validUsernameRegex s \<longleftrightarrow> s \<noteq> [] \<and> list_all username_char s"

definition MakeUserID :: "string \<Rightarrow> string \<Rightarrow> string" where
  "MakeUserID localpart server = ''@'' @ localpart @ '':'' @ server"

definition ValidateUsername :: "string \<Rightarrow> string \<Rightarrow> validation_error option" where
  "ValidateUsername localpart domain =
     (if length (''@'' @ localpart @ '':'' @ domain) > maxUsernameLength then Some UsernameTooLong
      else if \<not> validUsernameRegex localpart then Some UsernameInvalid
      else if localpart ! 0 = CHR ''_'' then Some UsernameUnderscore
      else None)"

text \<open>A response is its status and the kind of its body.\<close>

datatype response_kind = WeakPassword | BadJSON | InvalidUsername | UnknownToken | ASExclusive

definition PasswordResponse :: "validation_error option \<Rightarrow> (nat \<times> response_kind) option" where
  "PasswordResponse err = (case err of
       Some PasswordWeak \<Rightarrow> Some (400, WeakPassword)
     | Some PasswordTooLong \<Rightarrow> Some (400, BadJSON)
     | _ \<Rightarrow> None)"

definition UsernameResponse :: "validation_error option \<Rightarrow> (nat \<times> response_kind) option" where
  "UsernameResponse err = (case err of
       Some UsernameTooLong \<Rightarrow> Some (400, BadJSON)
     | Some UsernameInvalid \<Rightarrow> Some (400, InvalidUsername)
     | Some UsernameUnderscore \<Rightarrow> Some (400, InvalidUsername)
     | _ \<Rightarrow> None)"

section \<open>Application services\<close>

type_synonym split_id = "string \<Rightarrow> (string \<times> string) option"

record as_namespace =
  ns_Exclusive :: bool
  ns_matches :: "string \<Rightarrow> bool"

record application_service =
  as_ID :: string
  as_ASToken :: string
  as_SenderLocalpart :: string
  as_users :: "as_namespace list"

record client_config =
  cg_ServerName :: string
  cg_VirtualHosts :: "string list"
  cg_ApplicationServices :: "application_service list"

definition IsLocalServerName :: "client_config \<Rightarrow> string \<Rightarrow> bool" where
  "IsLocalServerName cfg serverName \<longleftrightarrow>
     (if cg_ServerName cfg = serverName then True else list_ex (\<lambda>v. v = serverName) (cg_VirtualHosts cfg))"

definition OwnsNamespaceCoveringUserId :: "application_service \<Rightarrow> string \<Rightarrow> bool" where
  "OwnsNamespaceCoveringUserId a userID \<longleftrightarrow> list_ex (\<lambda>n. ns_Exclusive n \<and> ns_matches n userID) (as_users a)"

definition ParseUsernameParam :: "split_id \<Rightarrow> client_config \<Rightarrow> string \<Rightarrow> string + string \<times> string" where
  "ParseUsernameParam split cfg usernameParam =
     (if go_has_prefix usernameParam ''@'' then
        (case split usernameParam of
           None \<Rightarrow> Inl ''invalid username''
         | Some (lp, domain) \<Rightarrow>
             if \<not> IsLocalServerName cfg domain then Inl ''user ID does not belong to this server'' else Inr (lp, domain))
      else Inr (usernameParam, cg_ServerName cfg))"

definition ValidateApplicationServiceUserID :: "split_id \<Rightarrow> string \<Rightarrow> validation_error option" where
  "ValidateApplicationServiceUserID split userID =
     (if length userID > maxUsernameLength then Some UsernameTooLong
      else case split userID of
        None \<Rightarrow> Some UsernameInvalid
      | Some (localpart, _) \<Rightarrow> if \<not> validUsernameRegex localpart then Some UsernameInvalid else None)"

definition ValidateApplicationServiceUsername :: "split_id \<Rightarrow> string \<Rightarrow> string \<Rightarrow> validation_error option" where
  "ValidateApplicationServiceUsername split localpart domain =
     ValidateApplicationServiceUserID split (MakeUserID localpart domain)"

definition userIDIsWithinApplicationServiceNamespace ::
  "split_id \<Rightarrow> client_config \<Rightarrow> string \<Rightarrow> application_service \<Rightarrow> bool" where
  "userIDIsWithinApplicationServiceNamespace split cfg userID appservice = (case split userID of
       None \<Rightarrow> False
     | Some (localpart, domain) \<Rightarrow>
         if \<not> IsLocalServerName cfg domain then False
         else if localpart = as_SenderLocalpart appservice then True
         else list_ex (\<lambda>n. ns_matches n userID) (as_users appservice))"

text \<open>The loop that counts exclusive owners and stops at the second.\<close>

fun count_exclusive :: "string \<Rightarrow> nat \<Rightarrow> application_service list \<Rightarrow> bool" where
  "count_exclusive userID n [] = False"
| "count_exclusive userID n (a # as) =
     (if OwnsNamespaceCoveringUserId a userID
      then if n + 1 > 1 then True else count_exclusive userID (n + 1) as
      else count_exclusive userID n as)"

definition userIDMatchesMultipleExclusiveNamespaces :: "client_config \<Rightarrow> string \<Rightarrow> bool" where
  "userIDMatchesMultipleExclusiveNamespaces cfg userID = count_exclusive userID 0 (cg_ApplicationServices cfg)"

definition ValidateApplicationServiceRequest ::
  "split_id \<Rightarrow> client_config \<Rightarrow> string \<Rightarrow> string \<Rightarrow> (nat \<times> response_kind) option + string" where
  "ValidateApplicationServiceRequest split cfg userIDOrLocalpart accessToken =
     (case ParseUsernameParam split cfg userIDOrLocalpart of
        Inl _ \<Rightarrow> Inl (Some (401, InvalidUsername))
      | Inr (localpart, domain) \<Rightarrow>
          let userID = MakeUserID localpart domain
          in case find (\<lambda>a. as_ASToken a = accessToken) (cg_ApplicationServices cfg) of
               None \<Rightarrow> Inl (Some (401, UnknownToken))
             | Some matched \<Rightarrow>
                 if \<not> userIDIsWithinApplicationServiceNamespace split cfg userID matched then Inl (Some (400, ASExclusive))
                 else if userIDMatchesMultipleExclusiveNamespaces cfg userID then Inl (Some (400, ASExclusive))
                 else case ValidateApplicationServiceUserID split userID of
                   Some err \<Rightarrow> Inl (UsernameResponse (Some err))
                 | None \<Rightarrow> Inr (as_ID matched))"

section \<open>Properties\<close>

lemma validUsername_iff: "ValidateUsername l d = None \<longleftrightarrow>
    length l + length d + 2 \<le> maxUsernameLength \<and> validUsernameRegex l \<and> hd l \<noteq> CHR ''_''"
  by (cases l) (auto simp: ValidateUsername_def validUsernameRegex_def)

text \<open>Every refusal of a name or password has a response, so no caller mistakes it for success.\<close>

lemma refusals_answered:
  "ValidateUsername l d = Some e \<Longrightarrow> UsernameResponse (Some e) \<noteq> None"
  "ValidateApplicationServiceUserID split u = Some e \<Longrightarrow> UsernameResponse (Some e) \<noteq> None"
  "ValidatePassword p = Some e \<Longrightarrow> PasswordResponse (Some e) \<noteq> None"
  by (auto simp: ValidateUsername_def ValidateApplicationServiceUserID_def ValidatePassword_def UsernameResponse_def
      PasswordResponse_def split: if_splits option.splits)

lemma count_exclusive_iff:
  "n \<le> 1 \<Longrightarrow> count_exclusive u n as \<longleftrightarrow> n + length (filter (\<lambda>a. OwnsNamespaceCoveringUserId a u) as) > 1"
  by (induction u n as rule: count_exclusive.induct) auto

lemma accepted_request:
  assumes "ValidateApplicationServiceRequest split cfg u token = Inr i"
  obtains a lp dom l d where "a \<in> set (cg_ApplicationServices cfg)" and "as_ASToken a = token" and "as_ID a = i"
    and "ParseUsernameParam split cfg u = Inr (lp, dom)" and "split (MakeUserID lp dom) = Some (l, d)"
    and "IsLocalServerName cfg d" and "validUsernameRegex l" and "length (MakeUserID lp dom) \<le> maxUsernameLength"
    and "l = as_SenderLocalpart a \<or> (\<exists>n\<in>set (as_users a). ns_matches n (MakeUserID lp dom))"
    and "\<not> userIDMatchesMultipleExclusiveNamespaces cfg (MakeUserID lp dom)"
proof -
  from assms obtain lp dom a where p: "ParseUsernameParam split cfg u = Inr (lp, dom)"
    and a: "find (\<lambda>a. as_ASToken a = token) (cg_ApplicationServices cfg) = Some a"
    and w: "userIDIsWithinApplicationServiceNamespace split cfg (MakeUserID lp dom) a"
    and m: "\<not> userIDMatchesMultipleExclusiveNamespaces cfg (MakeUserID lp dom)"
    and v: "ValidateApplicationServiceUserID split (MakeUserID lp dom) = None" and i: "as_ID a = i"
    unfolding ValidateApplicationServiceRequest_def Let_def
    by (auto split: sum.splits prod.splits option.splits if_splits)
  from a have "a \<in> set (cg_ApplicationServices cfg)" "as_ASToken a = token" by (auto simp: find_Some_iff)
  moreover from w obtain l d where "split (MakeUserID lp dom) = Some (l, d)" "IsLocalServerName cfg d"
    "l = as_SenderLocalpart a \<or> (\<exists>n\<in>set (as_users a). ns_matches n (MakeUserID lp dom))"
    by (auto simp: userIDIsWithinApplicationServiceNamespace_def list_ex_iff split: option.splits if_splits)
  ultimately show thesis using that i p m v
    by (auto simp: ValidateApplicationServiceUserID_def split: if_splits)
qed

text \<open>
  C25: an application service acts only for its own local users.  An accepted request carries the token of a
  registered service and names a user id of this server with a valid name, which is the service's own user or in
  one of its namespaces and is claimed exclusively by at most one service; a refused request always has a response.
\<close>

theorem appservice_request_sound:
  "case ValidateApplicationServiceRequest split cfg u token of
     Inl response \<Rightarrow> response \<noteq> None
   | Inr i \<Rightarrow> (\<exists>a lp dom uid l d. a \<in> set (cg_ApplicationServices cfg) \<and> as_ASToken a = token \<and> as_ID a = i \<and>
       ParseUsernameParam split cfg u = Inr (lp, dom) \<and> uid = MakeUserID lp dom \<and> split uid = Some (l, d) \<and> IsLocalServerName cfg d \<and> validUsernameRegex l \<and> length uid \<le> maxUsernameLength \<and>
       (l = as_SenderLocalpart a \<or> (\<exists>n\<in>set (as_users a). ns_matches n uid)) \<and>
       length (filter (\<lambda>b. OwnsNamespaceCoveringUserId b uid) (cg_ApplicationServices cfg)) \<le> 1)"
proof (cases "ValidateApplicationServiceRequest split cfg u token")
  case (Inl response)
  then have "response \<noteq> None" using refusals_answered(2) [of split]
    unfolding ValidateApplicationServiceRequest_def Let_def
    by (auto split: sum.splits prod.splits option.splits if_splits)
  with Inl show ?thesis by simp
next
  case (Inr i)
  obtain a lp dom l d where "a \<in> set (cg_ApplicationServices cfg)" "as_ASToken a = token" "as_ID a = i"
    "ParseUsernameParam split cfg u = Inr (lp, dom)" "split (MakeUserID lp dom) = Some (l, d)"
    "IsLocalServerName cfg d" "validUsernameRegex l" "length (MakeUserID lp dom) \<le> maxUsernameLength"
    "l = as_SenderLocalpart a \<or> (\<exists>n\<in>set (as_users a). ns_matches n (MakeUserID lp dom))"
    "\<not> userIDMatchesMultipleExclusiveNamespaces cfg (MakeUserID lp dom)"
    by (rule accepted_request [OF Inr])
  moreover from this(10) have "length (filter (\<lambda>b. OwnsNamespaceCoveringUserId b (MakeUserID lp dom)) (cg_ApplicationServices cfg)) \<le> 1"
    by (simp add: userIDMatchesMultipleExclusiveNamespaces_def count_exclusive_iff not_less)
  ultimately show ?thesis unfolding Inr sum.case by blast
qed

text \<open>
  An exclusive namespace of one service does not keep out another: the request of a service with a shared namespace
  is accepted for a user that exactly one service, another one, claims exclusively.
\<close>

theorem exclusive_namespace_shared:
  assumes "split ''@irc_x:h'' = Some (''irc_x'', ''h'')"
  shows "ValidateApplicationServiceRequest split
     \<lparr>cg_ServerName = ''h'', cg_VirtualHosts = [], cg_ApplicationServices =
        [\<lparr>as_ID = ''irc'', as_ASToken = ''t1'', as_SenderLocalpart = ''irc'',
           as_users = [\<lparr>ns_Exclusive = True, ns_matches = (\<lambda>u. go_has_prefix u ''@irc_'')\<rparr>]\<rparr>,
         \<lparr>as_ID = ''all'', as_ASToken = ''t2'', as_SenderLocalpart = ''all'',
           as_users = [\<lparr>ns_Exclusive = False, ns_matches = (\<lambda>u. True)\<rparr>]\<rparr>]\<rparr> ''irc_x'' ''t2'' = Inr ''all''"
proof -
  have p: "go_has_prefix ''irc_x'' ''@'' = False" "go_has_prefix ''@irc_x:h'' ''@irc_'' = True" by code_simp+
  have v: "validUsernameRegex ''irc_x''" by code_simp
  show ?thesis using assms
    by (simp add: ValidateApplicationServiceRequest_def ParseUsernameParam_def MakeUserID_def p v
        userIDIsWithinApplicationServiceNamespace_def IsLocalServerName_def userIDMatchesMultipleExclusiveNamespaces_def
        OwnsNamespaceCoveringUserId_def ValidateApplicationServiceUserID_def maxUsernameLength_def)
qed

end
