(* ===== verification/Push_Rules.thy ===== *)
theory Push_Rules
  imports Go_Values Go_Utf8 Go_Collections
begin

text \<open>
  Push rules (\<open>internal/pushrules\<close>): the rule types and their JSON form, the patterns of conditions, the
  evaluation of an event against a rule set, the server's default rules, the validation of a user's
  rule and the upgrade of stored rule sets.  Rules, conditions and actions are non-nil pointers in the
  source; a slice that may be nil is an option.  The properties say which rule an event selects, what a
  pattern matches, and that the upgrade changes only the rules it is meant for.
\<close>

section \<open>Types\<close>

datatype rule_kind = OverrideKind | ContentKind | RoomKind | SenderKind | UnderrideKind | OtherKind string

record push_condition =
  pc_Kind :: string
  pc_Key :: string
  pc_Pattern :: "string option"
  pc_Is :: string

record push_action =
  pa_Kind :: string
  pa_Tweak :: string
  pa_Value :: any

record push_rule =
  pr_RuleID :: string
  pr_Default :: bool
  pr_Enabled :: bool
  pr_Conditions :: "push_condition list option"
  pr_Actions :: "push_action list option"
  pr_Pattern :: "string option"

record rule_set =
  rs_Override :: "push_rule list"
  rs_Content :: "push_rule list"
  rs_Room :: "push_rule list"
  rs_Sender :: "push_rule list"
  rs_Underride :: "push_rule list"

definition items :: "'a list option \<Rightarrow> 'a list" where
  "items xs = (case xs of None \<Rightarrow> [] | Some ys \<Rightarrow> ys)"

section \<open>Actions\<close>

text \<open>The JSON of an action, as the value it encodes to.\<close>

definition Action_MarshalJSON :: "push_action \<Rightarrow> string + any" where
  "Action_MarshalJSON a =
     (if pa_Tweak a = [] \<and> pa_Value a = ANil then Inr (AStr (pa_Kind a))
      else if pa_Kind a \<noteq> ''set_tweak'' then Inl ''only set_tweak actions may have a value''
      else Inr (AMap ((pa_Kind a, AStr (pa_Tweak a)) #
                      (if pa_Value a = ANil then [] else [(''value'', pa_Value a)]))))"

definition Action_UnmarshalJSON :: "any \<Rightarrow> string + push_action" where
  "Action_UnmarshalJSON v = (case v of
       AStr k \<Rightarrow> Inr \<lparr>pa_Kind = k, pa_Tweak = [], pa_Value = ANil\<rparr>
     | AMap m \<Rightarrow>
         (case cget m ''set_tweak'' of
            AStr t \<Rightarrow> if t = [] then Inl ''got unknown action JSON''
                      else Inr \<lparr>pa_Kind = ''set_tweak'', pa_Tweak = t, pa_Value = cget m ''value''\<rparr>
          | ANil \<Rightarrow> Inl ''got unknown action JSON''
          | _ \<Rightarrow> Inl ''cannot unmarshal set_tweak'')
     | _ \<Rightarrow> Inl ''cannot unmarshal action'')"

text \<open>\<open>None\<close> is the nil map of tweaks.\<close>

fun tweaks_from :: "string \<Rightarrow> (string, any) gomap option \<Rightarrow> push_action list
    \<Rightarrow> string + string \<times> (string, any) gomap option" where
  "tweaks_from kind tweaks [] = Inr (kind, tweaks)"
| "tweaks_from kind tweaks (a # as) =
     (if pa_Kind a = ''dont_notify'' then tweaks_from kind tweaks as
      else if pa_Kind a = ''set_tweak'' then
        tweaks_from kind (Some (gput (pa_Tweak a) (pa_Value a) (case tweaks of None \<Rightarrow> gempty | Some m \<Rightarrow> m))) as
      else if kind \<noteq> [] then Inl ''got multiple primary actions''
      else tweaks_from (pa_Kind a) tweaks as)"

definition ActionsToTweaks :: "push_action list \<Rightarrow> string + string \<times> (string, any) gomap option" where
  "ActionsToTweaks = tweaks_from [] None"

definition BoolTweakOr :: "(string, any) gomap option \<Rightarrow> string \<Rightarrow> bool \<Rightarrow> bool" where
  "BoolTweakOr tweaks key def = (case gget (case tweaks of None \<Rightarrow> gempty | Some m \<Rightarrow> m) key of
       Some (ABool b) \<Rightarrow> b | _ \<Rightarrow> def)"

section \<open>Patterns\<close>

text \<open>
  The compiled expression is the list of its tokens.  A dot of the expression is any rune but a
  newline.  An expression that is not valid UTF-8 does not compile.
\<close>

datatype glob_token = Lit char | AnyOne | AnyMany

definition glob_token :: "char \<Rightarrow> glob_token" where
  "glob_token c = (if c = CHR ''*'' then AnyMany else if c = CHR ''?'' then AnyOne else Lit c)"

definition globToRegexp :: "string \<Rightarrow> string + glob_token list" where
  "globToRegexp pattern =
     (let pattern = (if CHR ''*'' \<in> set pattern \<or> CHR ''?'' \<in> set pattern then pattern
                     else ''*'' @ pattern @ ''*'')
      in if valid_utf8 pattern then Inr (map glob_token pattern) else Inl ''invalid UTF-8'')"

function MatchString :: "glob_token list \<Rightarrow> string \<Rightarrow> bool" where
  "MatchString [] s = (s = [])"
| "MatchString (Lit c # ts) s = (case s of [] \<Rightarrow> False | d # ds \<Rightarrow> if c = d then MatchString ts ds else False)"
| "MatchString (AnyOne # ts) s =
     (if s = [] \<or> hd s = CHR 0x0A then False else MatchString ts (drop (rune_width s) s))"
| "MatchString (AnyMany # ts) s =
     (if MatchString ts s then True
      else if s = [] \<or> hd s = CHR 0x0A then False
      else MatchString (AnyMany # ts) (drop (rune_width s) s))"
  by pat_completeness auto

termination
  by (relation "measure (\<lambda>(ts, s). length ts + length s)") (auto simp: rune_width_def)

declare MatchString.simps(3,4) [simp del]

fun lookup_path :: "string list \<Rightarrow> any \<Rightarrow> any option" where
  "lookup_path [] v = Some v"
| "lookup_path (key # path) v = (case v of
       AMap m \<Rightarrow> (case gget m key of None \<Rightarrow> None | Some w \<Rightarrow> lookup_path path w)
     | _ \<Rightarrow> None)"

definition lookupMapPath :: "string list \<Rightarrow> content \<Rightarrow> any option" where
  "lookupMapPath path m = (if path = [] then None else lookup_path path (AMap m))"

text \<open>
  \<open>b\<close> is an \<open>int\<close> of 64 bits.
\<close>

definition parseRoomMemberCountCondition :: "string \<Rightarrow> (int \<Rightarrow> bool) option" where
  "parseRoomMemberCountCondition s =
     (let (cmp, rest) =
        (if go_has_prefix s ''<='' then (\<lambda>b a. a \<le> b, drop 2 s)
         else if go_has_prefix s ''>='' then (\<lambda>b a. a \<ge> b, drop 2 s)
         else if go_has_prefix s ''<'' then (\<lambda>b a. a < b, drop 1 s)
         else if go_has_prefix s ''>'' then (\<lambda>b a. a > b, drop 1 s)
         else if go_has_prefix s ''=='' then (\<lambda>b a. a = b, drop 2 s)
         else (\<lambda>b a. a = b, s))
      in map_option cmp (ParseInt64 rest))"

section \<open>Evaluation\<close>

text \<open>
  An event with its decoded JSON (\<open>None\<close> when it does not decode), its room and the identifier of
  its sender, with the user that \<open>userIDForSender\<close> gives for it.
\<close>

record push_event =
  pe_JSON :: "content option"
  pe_RoomID :: string
  pe_SenderID :: string
  pe_User :: "string option"

record evaluation_context =
  ec_UserDisplayName :: string
  ec_RoomMemberCount :: "string + int"
  ec_HasPowerLevel :: "string \<Rightarrow> string \<Rightarrow> string + bool"

definition patternMatches :: "string \<Rightarrow> string \<Rightarrow> push_event \<Rightarrow> string + bool" where
  "patternMatches key pattern event =
     (if pattern = [] then Inr False
      else case globToRegexp pattern of
        Inl err \<Rightarrow> Inl err
      | Inr re \<Rightarrow> (case pe_JSON event of
            None \<Rightarrow> Inl ''parsing event''
          | Some m \<Rightarrow> (case lookupMapPath (split_on (CHR ''.'') key) m of
                Some (AStr v) \<Rightarrow> Inr (MatchString re v)
              | _ \<Rightarrow> Inr False)))"

definition conditionMatches :: "push_condition \<Rightarrow> push_event \<Rightarrow> evaluation_context \<Rightarrow> string + bool" where
  "conditionMatches cond event ec =
     (if pc_Kind cond = ''event_match'' then
        (case pc_Pattern cond of
           None \<Rightarrow> Inl ''missing condition pattern''
         | Some pattern \<Rightarrow> patternMatches (pc_Key cond) pattern event)
      else if pc_Kind cond = ''contains_display_name'' then
        patternMatches ''content.body'' (ec_UserDisplayName ec) event
      else if pc_Kind cond = ''room_member_count'' then
        (case parseRoomMemberCountCondition (pc_Is cond) of
           None \<Rightarrow> Inl ''parsing room_member_count condition''
         | Some cmp \<Rightarrow> (case ec_RoomMemberCount ec of
               Inl err \<Rightarrow> Inl (''RoomMemberCount failed: '' @ err)
             | Inr n \<Rightarrow> Inr (cmp n)))
      else if pc_Kind cond = ''sender_notification_permission'' then
        ec_HasPowerLevel ec (pe_SenderID event) (pc_Key cond)
      else Inr False)"

fun conditions_match :: "push_condition list \<Rightarrow> push_event \<Rightarrow> evaluation_context \<Rightarrow> string + bool" where
  "conditions_match [] event ec = Inr True"
| "conditions_match (cond # conds) event ec = (case conditionMatches cond event ec of
       Inl err \<Rightarrow> Inl err
     | Inr ok \<Rightarrow> if ok then conditions_match conds event ec else Inr False)"

definition ruleMatches :: "push_rule \<Rightarrow> rule_kind \<Rightarrow> push_event \<Rightarrow> evaluation_context \<Rightarrow> string + bool" where
  "ruleMatches rule kind event ec =
     (if \<not> pr_Enabled rule then Inr False
      else case kind of
        OverrideKind \<Rightarrow> conditions_match (items (pr_Conditions rule)) event ec
      | UnderrideKind \<Rightarrow> conditions_match (items (pr_Conditions rule)) event ec
      | ContentKind \<Rightarrow> (case pr_Pattern rule of
            None \<Rightarrow> Inr False
          | Some pattern \<Rightarrow> patternMatches ''content.body'' pattern event)
      | RoomKind \<Rightarrow> Inr (pr_RuleID rule = pe_RoomID event)
      | SenderKind \<Rightarrow> Inr (pr_RuleID rule = (case pe_User event of None \<Rightarrow> [] | Some u \<Rightarrow> u))
      | OtherKind _ \<Rightarrow> Inr False)"

definition kinds_and_rules :: "rule_set \<Rightarrow> (rule_kind \<times> push_rule list) list" where
  "kinds_and_rules rs =
     [(OverrideKind, rs_Override rs), (ContentKind, rs_Content rs), (RoomKind, rs_Room rs),
      (SenderKind, rs_Sender rs), (UnderrideKind, rs_Underride rs)]"

text \<open>The innermost loop, over the rules of a kind that are defaults or not.\<close>

fun match_rules :: "rule_kind \<Rightarrow> bool \<Rightarrow> push_rule list \<Rightarrow> push_event \<Rightarrow> evaluation_context \<Rightarrow> string + push_rule option" where
  "match_rules kind defRules [] event ec = Inr None"
| "match_rules kind defRules (rule # rules) event ec =
     (if pr_Default rule \<noteq> defRules then match_rules kind defRules rules event ec
      else case ruleMatches rule kind event ec of
        Inl err \<Rightarrow> Inl err
      | Inr ok \<Rightarrow> if ok then Inr (Some rule) else match_rules kind defRules rules event ec)"

fun match_kinds :: "(rule_kind \<times> bool \<times> push_rule list) list \<Rightarrow> push_event \<Rightarrow> evaluation_context \<Rightarrow> string + push_rule option" where
  "match_kinds [] event ec = Inr None"
| "match_kinds ((kind, defRules, rules) # rest) event ec = (case match_rules kind defRules rules event ec of
       Inl err \<Rightarrow> Inl err
     | Inr (Some rule) \<Rightarrow> Inr (Some rule)
     | Inr None \<Rightarrow> match_kinds rest event ec)"

definition MatchEvent :: "rule_set \<Rightarrow> push_event \<Rightarrow> evaluation_context \<Rightarrow> string + push_rule option" where
  "MatchEvent rs event ec =
     match_kinds (concat (map (\<lambda>(kind, rules). map (\<lambda>defRules. (kind, defRules, rules)) [False, True])
       (kinds_and_rules rs))) event ec"

section \<open>Validation\<close>

definition validateAction :: "push_action \<Rightarrow> string list" where
  "validateAction a =
     (if pa_Kind a \<in> {''notify'', ''dont_notify'', ''coalesce'', ''set_tweak''} then []
      else [''invalid rule action kind: '' @ pa_Kind a])"

definition condition_kinds :: "string set" where
  "condition_kinds = {''event_match'', ''contains_display_name'', ''room_member_count'', ''sender_notification_permission''}"

definition validateCondition :: "push_condition \<Rightarrow> string list" where
  "validateCondition c =
     (if pc_Kind c \<in> condition_kinds then [] else [''invalid rule condition kind: '' @ pc_Kind c])"

definition ValidateRule :: "rule_kind \<Rightarrow> push_rule \<Rightarrow> string list" where
  "ValidateRule kind rule =
     (if pr_RuleID rule \<noteq> [] \<and> hd (pr_RuleID rule) = CHR ''.''
      then [''invalid rule ID: rule can not start with a dot''] else []) @
     (if pr_RuleID rule = [] \<or> CHR 0x5C \<in> set (pr_RuleID rule) then [''invalid rule ID: '' @ pr_RuleID rule] else []) @
     (if pr_Actions rule = None then [''missing actions''] else []) @
     concat (map validateAction (items (pr_Actions rule))) @
     concat (map validateCondition (items (pr_Conditions rule))) @
     (case kind of
        OverrideKind \<Rightarrow> if pr_Conditions rule = None then [''missing rule conditions''] else []
      | UnderrideKind \<Rightarrow> if pr_Conditions rule = None then [''missing rule conditions''] else []
      | ContentKind \<Rightarrow> if pr_Pattern rule = None \<or> pr_Pattern rule = Some [] then [''missing content rule pattern''] else []
      | RoomKind \<Rightarrow> []
      | SenderKind \<Rightarrow> []
      | OtherKind k \<Rightarrow> [''invalid rule kind: '' @ k])"

section \<open>Default rules\<close>

definition event_match :: "string \<Rightarrow> string \<Rightarrow> push_condition" where
  "event_match key pattern = \<lparr>pc_Kind = ''event_match'', pc_Key = key, pc_Pattern = Some pattern, pc_Is = []\<rparr>"

definition notify_action :: push_action where
  "notify_action = \<lparr>pa_Kind = ''notify'', pa_Tweak = [], pa_Value = ANil\<rparr>"

definition sound_action :: "string \<Rightarrow> push_action" where
  "sound_action v = \<lparr>pa_Kind = ''set_tweak'', pa_Tweak = ''sound'', pa_Value = AStr v\<rparr>"

definition highlight_action :: push_action where
  "highlight_action = \<lparr>pa_Kind = ''set_tweak'', pa_Tweak = ''highlight'', pa_Value = ANil\<rparr>"

definition default_rule :: "string \<Rightarrow> bool \<Rightarrow> push_condition list option \<Rightarrow> push_action list \<Rightarrow> push_rule" where
  "default_rule i enabled conds acts = \<lparr>pr_RuleID = i, pr_Default = True, pr_Enabled = enabled,
     pr_Conditions = conds, pr_Actions = Some acts, pr_Pattern = None\<rparr>"

definition mRuleMasterDefinition :: push_rule where
  "mRuleMasterDefinition = default_rule ''.m.rule.master'' False None []"

definition mRuleSuppressNoticesDefinition :: push_rule where
  "mRuleSuppressNoticesDefinition =
     default_rule ''.m.rule.suppress_notices'' True (Some [event_match ''content.msgtype'' ''m.notice'']) []"

definition mRuleMemberEventDefinition :: push_rule where
  "mRuleMemberEventDefinition =
     default_rule ''.m.rule.member_event'' True (Some [event_match ''type'' ''m.room.member'']) []"

definition mRuleContainsDisplayNameDefinition :: push_rule where
  "mRuleContainsDisplayNameDefinition =
     default_rule ''.m.rule.contains_display_name'' True
       (Some [\<lparr>pc_Kind = ''contains_display_name'', pc_Key = [], pc_Pattern = None, pc_Is = []\<rparr>])
       [notify_action, sound_action ''default'', highlight_action]"

definition mRuleTombstoneDefinition :: push_rule where
  "mRuleTombstoneDefinition =
     default_rule ''.m.rule.tombstone'' True (Some [event_match ''type'' ''m.room.tombstone'', event_match ''state_key'' []])
       [notify_action, highlight_action]"

definition mRuleACLsDefinition :: push_rule where
  "mRuleACLsDefinition =
     default_rule ''.m.rule.room.server_acl'' True
       (Some [event_match ''type'' ''m.room.server_acl'', event_match ''state_key'' []]) []"

definition mRuleRoomNotifDefinition :: push_rule where
  "mRuleRoomNotifDefinition =
     default_rule ''.m.rule.roomnotif'' True
       (Some [event_match ''content.body'' ''@room'',
              \<lparr>pc_Kind = ''sender_notification_permission'', pc_Key = ''room'', pc_Pattern = None, pc_Is = []\<rparr>])
       [notify_action, highlight_action]"

definition mRuleReactionDefinition :: push_rule where
  "mRuleReactionDefinition =
     default_rule ''.m.rule.reaction'' True (Some [event_match ''type'' ''m.reaction'']) []"

definition mRuleInviteForMeDefinition :: "string \<Rightarrow> push_rule" where
  "mRuleInviteForMeDefinition userID =
     default_rule ''.m.rule.invite_for_me'' True
       (Some [event_match ''type'' ''m.room.member'', event_match ''content.membership'' ''invite'',
              event_match ''state_key'' userID])
       [notify_action, sound_action ''default'']"

definition defaultOverrideRules :: "string \<Rightarrow> push_rule list" where
  "defaultOverrideRules userID =
     [mRuleMasterDefinition, mRuleSuppressNoticesDefinition, mRuleInviteForMeDefinition userID,
      mRuleMemberEventDefinition, mRuleContainsDisplayNameDefinition, mRuleRoomNotifDefinition,
      mRuleTombstoneDefinition, mRuleReactionDefinition, mRuleACLsDefinition]"

definition mRuleContainsUserNameDefinition :: "string \<Rightarrow> push_rule" where
  "mRuleContainsUserNameDefinition localpart =
     (default_rule ''.m.rule.contains_user_name'' True None
        [notify_action, sound_action ''default'', highlight_action])\<lparr>pr_Pattern := Some localpart\<rparr>"

definition defaultContentRules :: "string \<Rightarrow> push_rule list" where
  "defaultContentRules localpart = [mRuleContainsUserNameDefinition localpart]"

definition member_count_two :: push_condition where
  "member_count_two = \<lparr>pc_Kind = ''room_member_count'', pc_Key = [], pc_Pattern = None, pc_Is = ''2''\<rparr>"

definition mRuleCallDefinition :: push_rule where
  "mRuleCallDefinition =
     default_rule ''.m.rule.call'' True (Some [event_match ''type'' ''m.call.invite'']) [notify_action, sound_action ''ring'']"

definition mRuleEncryptedRoomOneToOneDefinition :: push_rule where
  "mRuleEncryptedRoomOneToOneDefinition =
     default_rule ''.m.rule.encrypted_room_one_to_one'' True
       (Some [member_count_two, event_match ''type'' ''m.room.encrypted'']) [notify_action, sound_action ''default'']"

definition mRuleRoomOneToOneDefinition :: push_rule where
  "mRuleRoomOneToOneDefinition =
     default_rule ''.m.rule.room_one_to_one'' True
       (Some [member_count_two, event_match ''type'' ''m.room.message'']) [notify_action, sound_action ''default'']"

definition mRuleMessageDefinition :: push_rule where
  "mRuleMessageDefinition =
     default_rule ''.m.rule.message'' True (Some [event_match ''type'' ''m.room.message''])
       [notify_action, sound_action ''default'']"

definition mRuleEncryptedDefinition :: push_rule where
  "mRuleEncryptedDefinition =
     default_rule ''.m.rule.encrypted'' True (Some [event_match ''type'' ''m.room.encrypted''])
       [notify_action, sound_action ''default'']"

definition defaultUnderrideRules :: "push_rule list" where
  "defaultUnderrideRules =
     [mRuleCallDefinition, mRuleRoomOneToOneDefinition, mRuleEncryptedRoomOneToOneDefinition, mRuleMessageDefinition,
      mRuleEncryptedDefinition]"

definition DefaultGlobalRuleSet :: "string \<Rightarrow> string \<Rightarrow> rule_set" where
  "DefaultGlobalRuleSet localpart serverName = \<lparr>
     rs_Override = defaultOverrideRules (''@'' @ localpart @ '':'' @ serverName),
     rs_Content = defaultContentRules localpart, rs_Room = [], rs_Sender = [], rs_Underride = defaultUnderrideRules\<rparr>"

section \<open>Upgrade of stored rules\<close>

definition isLegacySilentMessageRule :: "push_rule \<Rightarrow> bool" where
  "isLegacySilentMessageRule rule \<longleftrightarrow>
     pr_Default rule \<and> pr_Enabled rule \<and> pr_Pattern rule = None \<and>
     (case items (pr_Actions rule) of
        [a] \<Rightarrow> pa_Kind a = ''notify'' \<and> pa_Tweak a = [] \<and> pa_Value a = ANil
      | _ \<Rightarrow> False) \<and>
     (case items (pr_Conditions rule) of
        [c] \<Rightarrow> pc_Kind c = ''event_match'' \<and> pc_Key c = ''type'' \<and> pc_Is c = [] \<and>
          (case pc_Pattern c of
             None \<Rightarrow> False
           | Some pattern \<Rightarrow> pr_RuleID rule = ''.m.rule.message'' \<and> pattern = ''m.room.message'' \<or>
               pr_RuleID rule = ''.m.rule.encrypted'' \<and> pattern = ''m.room.encrypted'')
      | _ \<Rightarrow> False)"

definition reconcile_rule :: "push_rule \<Rightarrow> push_rule" where
  "reconcile_rule rule =
     (if isLegacySilentMessageRule rule then rule\<lparr>pr_Actions := Some [notify_action, sound_action ''default'']\<rparr> else rule)"

definition ReconcileDefaultNotificationSoundRules :: "rule_set \<Rightarrow> bool \<times> rule_set" where
  "ReconcileDefaultNotificationSoundRules rs =
     (list_ex isLegacySilentMessageRule (rs_Underride rs), rs\<lparr>rs_Underride := map reconcile_rule (rs_Underride rs)\<rparr>)"

text \<open>The room rule that silences the agent's room, put in front unless there is a rule for the room.\<close>

definition agent_room_rule :: "string \<Rightarrow> push_rule" where
  "agent_room_rule roomID = \<lparr>pr_RuleID = roomID, pr_Default = False, pr_Enabled = True, pr_Conditions = None,
     pr_Actions = Some [], pr_Pattern = None\<rparr>"

definition ensure_room_rule :: "string \<Rightarrow> rule_set \<Rightarrow> rule_set" where
  "ensure_room_rule roomID rs =
     (if list_ex (\<lambda>rule. pr_RuleID rule = roomID) (rs_Room rs) then rs
      else rs\<lparr>rs_Room := agent_room_rule roomID # rs_Room rs\<rparr>)"

section \<open>Which rule an event selects\<close>

text \<open>The rules in the order of their priority: by kind, and within a kind the user's before the defaults.\<close>

definition priority :: "rule_set \<Rightarrow> (rule_kind \<times> push_rule) list" where
  "priority rs = concat (map (\<lambda>(kind, rules).
     map (Pair kind) (filter (\<lambda>r. \<not> pr_Default r) rules @ filter pr_Default rules)) (kinds_and_rules rs))"

fun first_match :: "(rule_kind \<times> push_rule) list \<Rightarrow> push_event \<Rightarrow> evaluation_context \<Rightarrow> string + push_rule option" where
  "first_match [] event ec = Inr None"
| "first_match ((kind, rule) # rest) event ec = (case ruleMatches rule kind event ec of
       Inl err \<Rightarrow> Inl err
     | Inr ok \<Rightarrow> if ok then Inr (Some rule) else first_match rest event ec)"

lemma first_match_append:
  "first_match (xs @ ys) event ec = (case first_match xs event ec of
     Inl err \<Rightarrow> Inl err | Inr (Some rule) \<Rightarrow> Inr (Some rule) | Inr None \<Rightarrow> first_match ys event ec)"
  by (induction xs event ec rule: first_match.induct) (simp_all split: sum.split option.split)

lemma match_rules_first:
  "match_rules kind d rules event ec = first_match (map (Pair kind) (filter (\<lambda>r. pr_Default r = d) rules)) event ec"
  by (induction kind d rules event ec rule: match_rules.induct) (simp_all split: sum.split)

lemma match_kinds_first:
  "match_kinds ks event ec =
     first_match (concat (map (\<lambda>(kind, d, rules). map (Pair kind) (filter (\<lambda>r. pr_Default r = d) rules)) ks)) event ec"
proof (induction ks)
  case (Cons x ks)
  then show ?case by (cases x) (simp add: first_match_append match_rules_first split: sum.split option.split)
qed simp


lemma first_match_skip:
  "\<forall>(k, r)\<in>set xs. ruleMatches r k event ec = Inr False \<Longrightarrow> first_match (xs @ ys) event ec = first_match ys event ec"
  by (induction xs) auto

section \<open>What a pattern matches\<close>

lemma MatchString_Lits: "MatchString (map Lit p @ ts) s \<longleftrightarrow> (\<exists>b. s = p @ b \<and> MatchString ts b)"
proof (induction p arbitrary: s)
  case (Cons c p)
  then show ?case by (cases s) auto
qed simp

lemma MatchString_Many:
  "ascii s \<Longrightarrow> MatchString (AnyMany # ts) s \<longleftrightarrow> (\<exists>a b. s = a @ b \<and> CHR 0x0A \<notin> set a \<and> MatchString ts b)"
proof (induction s)
  case Nil
  then show ?case by (simp add: MatchString.simps)
next
  case (Cons c s)
  have "(\<exists>a b. c # s = a @ b \<and> CHR 0x0A \<notin> set a \<and> MatchString ts b) \<longleftrightarrow>
      MatchString ts (c # s) \<or> c \<noteq> CHR 0x0A \<and> (\<exists>a b. s = a @ b \<and> CHR 0x0A \<notin> set a \<and> MatchString ts b)"
    (is "?L \<longleftrightarrow> ?M \<or> ?N")
  proof
    assume ?L
    then obtain a b where ab: "c # s = a @ b" "CHR 0x0A \<notin> set a" "MatchString ts b" by blast
    then show "?M \<or> ?N" by (cases a) auto
  next
    assume "?M \<or> ?N"
    then show ?L
    proof
      assume ?M
      then have "c # s = [] @ (c # s) \<and> CHR 0x0A \<notin> set [] \<and> MatchString ts (c # s)" by simp
      then show ?L by blast
    next
      assume ?N
      then obtain a b where "c # s = (c # a) @ b \<and> CHR 0x0A \<notin> set (c # a) \<and> MatchString ts b" by auto
      then show ?L by blast
    qed
  qed
  with Cons show ?case by (simp add: MatchString.simps(4) [of ts "c # s"])
qed

definition plain_pattern :: "string \<Rightarrow> bool" where
  "plain_pattern p \<longleftrightarrow> p \<noteq> [] \<and> valid_utf8 (''*'' @ p @ ''*'') \<and> CHR ''*'' \<notin> set p \<and> CHR ''?'' \<notin> set p"

lemma glob_plain:
  assumes "plain_pattern p"
  shows "globToRegexp p = Inr (AnyMany # map Lit p @ [AnyMany])"
proof -
  have "map glob_token p = map Lit p" using assms by (auto simp: plain_pattern_def glob_token_def)
  then show ?thesis using assms by (simp add: plain_pattern_def globToRegexp_def glob_token_def)
qed

lemma plain_match:
  assumes "plain_pattern p" and "ascii s" and "globToRegexp p = Inr re"
  shows "MatchString re s \<longleftrightarrow> (\<exists>a b. s = a @ p @ b \<and> CHR 0x0A \<notin> set a \<and> CHR 0x0A \<notin> set b)"
proof -
  have re: "re = AnyMany # map Lit p @ [AnyMany]" using glob_plain [OF assms(1)] assms(3) by simp
  have many: "MatchString [AnyMany] b \<longleftrightarrow> CHR 0x0A \<notin> set b" if "ascii b" for b
    using MatchString_Many [OF that, of "[]"] by auto
  have "MatchString re s \<longleftrightarrow> (\<exists>a c. s = a @ c \<and> CHR 0x0A \<notin> set a \<and> (\<exists>b. c = p @ b \<and> MatchString [AnyMany] b))"
    unfolding re MatchString_Many [OF assms(2)] MatchString_Lits ..
  also have "\<dots> \<longleftrightarrow> (\<exists>a b. s = a @ p @ b \<and> CHR 0x0A \<notin> set a \<and> CHR 0x0A \<notin> set b)"
  proof
    assume "\<exists>a c. s = a @ c \<and> CHR 0x0A \<notin> set a \<and> (\<exists>b. c = p @ b \<and> MatchString [AnyMany] b)"
    then obtain a b where "s = a @ p @ b" "CHR 0x0A \<notin> set a" "MatchString [AnyMany] b" by blast
    with assms(2) many [of b] show "\<exists>a b. s = a @ p @ b \<and> CHR 0x0A \<notin> set a \<and> CHR 0x0A \<notin> set b" by auto
  next
    assume "\<exists>a b. s = a @ p @ b \<and> CHR 0x0A \<notin> set a \<and> CHR 0x0A \<notin> set b"
    then obtain a b where "s = a @ p @ b" "CHR 0x0A \<notin> set a" "CHR 0x0A \<notin> set b" by blast
    with assms(2) many [of b] show "\<exists>a c. s = a @ c \<and> CHR 0x0A \<notin> set a \<and> (\<exists>b. c = p @ b \<and> MatchString [AnyMany] b)"
      by (intro exI [of _ a] exI [of _ "p @ b"]) simp
  qed
  finally show ?thesis .
qed

lemma plain_ascii: "p \<noteq> [] \<Longrightarrow> ascii p \<Longrightarrow> CHR ''*'' \<notin> set p \<Longrightarrow> CHR ''?'' \<notin> set p \<Longrightarrow> plain_pattern p"
  by (simp add: plain_pattern_def valid_utf8_ascii)

text \<open>
  A display name that has no wildcard and is on one line is looked for as a substring only in a
  body that is on one line: a body with a line break never satisfies the condition, whatever it
  contains, since the dot of the compiled expression does not match a newline.
\<close>

theorem display_name_multiline:
  assumes "plain_pattern (ec_UserDisplayName ec)" and "CHR 0x0A \<notin> set (ec_UserDisplayName ec)"
    and "pe_JSON event = Some m" and "lookupMapPath [''content'', ''body''] m = Some (AStr body)" and "ascii body"
    and "pc_Kind cond = ''contains_display_name''"
  shows "conditionMatches cond event ec =
    Inr (CHR 0x0A \<notin> set body \<and> (\<exists>a b. body = a @ ec_UserDisplayName ec @ b))"
proof -
  obtain re where re: "globToRegexp (ec_UserDisplayName ec) = Inr re" using glob_plain [OF assms(1)] by blast
  have "split_on (CHR ''.'') ''content.body'' = [''content'', ''body'']" by simp
  then have "conditionMatches cond event ec = Inr (MatchString re body)"
    using assms re by (simp add: conditionMatches_def patternMatches_def plain_pattern_def)
  moreover have "MatchString re body \<longleftrightarrow> CHR 0x0A \<notin> set body \<and> (\<exists>a b. body = a @ ec_UserDisplayName ec @ b)"
    unfolding plain_match [OF assms(1,5) re] using assms(2) by (intro iffI; elim exE conjE; simp) blast+
  ultimately show ?thesis by simp
qed

definition sample_context :: evaluation_context where
  "sample_context = \<lparr>ec_UserDisplayName = ''bob'', ec_RoomMemberCount = Inr 2, ec_HasPowerLevel = (\<lambda>_ _. Inr False)\<rparr>"

definition message_event :: "string \<Rightarrow> push_event" where
  "message_event body = \<lparr>pe_JSON = Some [(''type'', AStr ''m.room.message''), (''content'', AMap [(''body'', AStr body)])],
     pe_RoomID = ''!r:h'', pe_SenderID = ''@a:h'', pe_User = Some ''@a:h''\<rparr>"

definition display_name_condition :: push_condition where
  "display_name_condition = \<lparr>pc_Kind = ''contains_display_name'', pc_Key = [], pc_Pattern = None, pc_Is = []\<rparr>"

text \<open>The same mention is found on one line and missed on the second of two.\<close>

theorem display_name_multiline_witness:
  "conditionMatches display_name_condition (message_event ''hi bob'') sample_context = Inr True \<and>
   conditionMatches display_name_condition (message_event (''hi'' @ [CHR 0x0A] @ ''bob'')) sample_context = Inr False"
proof -
  have p: "plain_pattern (ec_UserDisplayName sample_context)" by (rule plain_ascii) (simp_all add: sample_context_def)
  have n: "CHR 0x0A \<notin> set (ec_UserDisplayName sample_context)" by (simp add: sample_context_def)
  have l: "pe_JSON (message_event b) = Some [(''type'', AStr ''m.room.message''), (''content'', AMap [(''body'', AStr b)])]"
    "lookupMapPath [''content'', ''body''] [(''type'', AStr ''m.room.message''), (''content'', AMap [(''body'', AStr b)])] = Some (AStr b)" for b
    by (simp_all add: message_event_def lookupMapPath_def gget_def)
  have k: "pc_Kind display_name_condition = ''contains_display_name''" by (simp add: display_name_condition_def)
  have "\<exists>a b. ''hi bob'' = a @ ''bob'' @ b" by (intro exI [of _ "''hi ''"] exI [of _ "[]"]) simp
  then show ?thesis
    using display_name_multiline [OF p n l(1) l(2) _ k, of "''hi bob''"]
      display_name_multiline [OF p n l(1) l(2) _ k, of "''hi'' @ [CHR 0x0A] @ ''bob''"]
    by (simp add: sample_context_def)
qed

section \<open>The default rules\<close>

lemma empty_pattern_no_match: "conditionMatches (event_match key []) event ec = Inr False"
  by (simp add: conditionMatches_def event_match_def patternMatches_def)

text \<open>
  The default rules for room upgrades and for server access lists never match any event: both
  require the state key to match the empty pattern, and the empty pattern matches nothing.
\<close>

theorem empty_state_key_rules_dead:
  "ruleMatches mRuleTombstoneDefinition OverrideKind event ec \<noteq> Inr True \<and>
   ruleMatches mRuleACLsDefinition OverrideKind event ec \<noteq> Inr True"
  by (simp add: ruleMatches_def mRuleTombstoneDefinition_def mRuleACLsDefinition_def default_rule_def items_def
      empty_pattern_no_match split: sum.split)

text \<open>
  The upgrade of stored rules reports a change exactly when some underride rule is one of the two
  old silent defaults; it gives those the default sound, leaves every other rule and the order alone,
  and a second run changes nothing.
\<close>

theorem reconcile_once:
  assumes "ReconcileDefaultNotificationSoundRules rs = (changed, rs')"
  shows "(changed \<longleftrightarrow> rs' \<noteq> rs) \<and> (changed \<longleftrightarrow> (\<exists>r\<in>set (rs_Underride rs). isLegacySilentMessageRule r)) \<and>
    length (rs_Underride rs') = length (rs_Underride rs) \<and>
    (\<forall>i<length (rs_Underride rs).
       if isLegacySilentMessageRule (rs_Underride rs ! i)
       then rs_Underride rs' ! i = (rs_Underride rs ! i)\<lparr>pr_Actions := Some [notify_action, sound_action ''default'']\<rparr>
       else rs_Underride rs' ! i = rs_Underride rs ! i) \<and>
    rs' = rs\<lparr>rs_Underride := rs_Underride rs'\<rparr> \<and>
    ReconcileDefaultNotificationSoundRules rs' = (False, rs')"
proof -
  have r: "changed = list_ex isLegacySilentMessageRule (rs_Underride rs)"
    "rs' = rs\<lparr>rs_Underride := map reconcile_rule (rs_Underride rs)\<rparr>"
    using assms by (simp_all add: ReconcileDefaultNotificationSoundRules_def)
  have new: "\<not> isLegacySilentMessageRule (reconcile_rule x)" for x
    by (simp add: reconcile_rule_def isLegacySilentMessageRule_def items_def)
  then have id: "reconcile_rule (reconcile_rule x) = reconcile_rule x" for x
    by (simp add: reconcile_rule_def [of "reconcile_rule x"])
  have "reconcile_rule x \<noteq> x" if "isLegacySilentMessageRule x" for x using new that by metis
  moreover have "reconcile_rule x = x" if "\<not> isLegacySilentMessageRule x" for x using that by (simp add: reconcile_rule_def)
  ultimately have "map reconcile_rule xs \<noteq> xs \<longleftrightarrow> list_ex isLegacySilentMessageRule xs" for xs
    by (induction xs) auto
  moreover have "rs\<lparr>rs_Underride := xs\<rparr> = rs \<longleftrightarrow> xs = rs_Underride rs" for xs by (cases rs) simp
  ultimately have "changed \<longleftrightarrow> rs' \<noteq> rs" using r by simp
  moreover have "ReconcileDefaultNotificationSoundRules rs' = (False, rs')"
    using new id by (simp add: r(2) ReconcileDefaultNotificationSoundRules_def list_ex_iff comp_def)
  ultimately show ?thesis using r by (simp add: list_ex_iff reconcile_rule_def)
qed

definition silent_message_rule :: push_rule where
  "silent_message_rule = mRuleMessageDefinition\<lparr>pr_Actions := Some [notify_action]\<rparr>"

theorem reconcile_once_witness:
  "let rs = \<lparr>rs_Override = [], rs_Content = [], rs_Room = [], rs_Sender = [], rs_Underride = [silent_message_rule]\<rparr>
   in fst (ReconcileDefaultNotificationSoundRules rs) \<and>
      ReconcileDefaultNotificationSoundRules (snd (ReconcileDefaultNotificationSoundRules rs)) =
        (False, snd (ReconcileDefaultNotificationSoundRules rs))"
proof -
  let ?rs = "\<lparr>rs_Override = [], rs_Content = [], rs_Room = [], rs_Sender = [], rs_Underride = [silent_message_rule]\<rparr>"
  have "isLegacySilentMessageRule silent_message_rule"
    by (simp add: silent_message_rule_def isLegacySilentMessageRule_def mRuleMessageDefinition_def default_rule_def
        notify_action_def event_match_def items_def)
  then have legacy: "\<exists>r\<in>set (rs_Underride ?rs). isLegacySilentMessageRule r" by simp
  obtain c r where e: "ReconcileDefaultNotificationSoundRules ?rs = (c, r)" by fastforce
  from reconcile_once [OF e] legacy have "c" "ReconcileDefaultNotificationSoundRules r = (False, r)" by blast+
  then show ?thesis by (simp only: Let_def e fst_conv snd_conv)
qed

section \<open>The agent's room\<close>

text \<open>
  Once the room rule for the agent's room is in place and there was none before, an event in that
  room that no override and no content rule matches selects a rule without actions, so it is not
  notified; no other room is affected by the new rule.
\<close>

theorem agent_room_silent:
  assumes "\<not> list_ex (\<lambda>r. pr_RuleID r = room) (rs_Room rs)"
    and "\<forall>r\<in>set (rs_Override rs). ruleMatches r OverrideKind event ec = Inr False"
    and "\<forall>r\<in>set (rs_Content rs). ruleMatches r ContentKind event ec = Inr False"
  shows "MatchEvent (ensure_room_rule room rs) event ec =
    (if pe_RoomID event = room then Inr (Some (agent_room_rule room)) else MatchEvent rs event ec) \<and>
    ActionsToTweaks (items (pr_Actions (agent_room_rule room))) = Inr ([], None)"
proof -
  let ?split = "\<lambda>rules. filter (\<lambda>r. \<not> pr_Default r) rules @ filter pr_Default rules"
  let ?oc = "map (Pair OverrideKind) (?split (rs_Override rs)) @ map (Pair ContentKind) (?split (rs_Content rs))"
  let ?rest = "\<lambda>room_rules. map (Pair RoomKind) (?split room_rules) @
    map (Pair SenderKind) (?split (rs_Sender rs)) @ map (Pair UnderrideKind) (?split (rs_Underride rs))"
  have skip: "\<forall>(k, r)\<in>set ?oc. ruleMatches r k event ec = Inr False" using assms(2,3) by auto
  have old: "MatchEvent rs event ec = first_match (?rest (rs_Room rs)) event ec"
    using first_match_skip [OF skip, of "?rest (rs_Room rs)"]
    by (simp add: MatchEvent_def match_kinds_first kinds_and_rules_def)
  have new: "MatchEvent (ensure_room_rule room rs) event ec =
      first_match ((RoomKind, agent_room_rule room) # ?rest (rs_Room rs)) event ec"
    using first_match_skip [OF skip, of "(RoomKind, agent_room_rule room) # ?rest (rs_Room rs)"] assms(1)
    by (simp add: MatchEvent_def match_kinds_first kinds_and_rules_def ensure_room_rule_def agent_room_rule_def)
  show ?thesis unfolding new old
    by (auto simp: ruleMatches_def agent_room_rule_def ActionsToTweaks_def items_def)
qed

theorem agent_room_silent_witness:
  "MatchEvent (ensure_room_rule ''!r:h'' \<lparr>rs_Override = [mRuleMasterDefinition], rs_Content = [], rs_Room = [], rs_Sender = [],
       rs_Underride = defaultUnderrideRules\<rparr>) (message_event ''hi'') sample_context = Inr (Some (agent_room_rule ''!r:h''))"
proof -
  let ?rs = "\<lparr>rs_Override = [mRuleMasterDefinition], rs_Content = [], rs_Room = [], rs_Sender = [],
       rs_Underride = defaultUnderrideRules\<rparr>"
  have "\<not> list_ex (\<lambda>r. pr_RuleID r = ''!r:h'') (rs_Room ?rs)"
    "\<forall>r\<in>set (rs_Override ?rs). ruleMatches r OverrideKind (message_event ''hi'') sample_context = Inr False"
    "\<forall>r\<in>set (rs_Content ?rs). ruleMatches r ContentKind (message_event ''hi'') sample_context = Inr False"
    by (simp_all add: ruleMatches_def mRuleMasterDefinition_def default_rule_def)
  from agent_room_silent [OF this] show ?thesis by (simp add: message_event_def)
qed

section \<open>Actions\<close>

text \<open>Decoding inverts encoding on the actions the encoder accepts.\<close>

theorem action_json_roundtrip:
  assumes "Action_MarshalJSON a = Inr v" and "pa_Tweak a \<noteq> [] \<or> pa_Value a = ANil"
  shows "Action_UnmarshalJSON v = Inr a"
  using assms
  by (cases a) (auto simp: Action_MarshalJSON_def Action_UnmarshalJSON_def cget_def gget_def split: if_splits)

lemma tweaks_from_primary:
  "tweaks_from kind tw as = Inr (k, tw') \<Longrightarrow>
   (let ps = filter (\<lambda>a. pa_Kind a \<notin> {''dont_notify'', ''set_tweak'', []}) as
    in if kind \<noteq> [] then ps = [] \<and> k = kind
       else length ps \<le> 1 \<and> k = (case ps of [] \<Rightarrow> [] | p # _ \<Rightarrow> pa_Kind p))"
  by (induction kind tw as rule: tweaks_from.induct) (auto simp: Let_def split: if_splits)

theorem ActionsToTweaks_primary:
  assumes "ActionsToTweaks as = Inr (k, tw)"
  shows "let ps = filter (\<lambda>a. pa_Kind a \<notin> {''dont_notify'', ''set_tweak'', []}) as
    in length ps \<le> 1 \<and> k = (case ps of [] \<Rightarrow> [] | p # _ \<Rightarrow> pa_Kind p)"
  using tweaks_from_primary [of "[]" None as k tw] assms by (simp add: ActionsToTweaks_def)

end
