(* ===== verification/Go_Net.thy ===== *)
theory Go_Net
  imports Go_Values
begin

text \<open>
  The parts of package \<open>net\<close> the server uses on names of servers: \<open>net.SplitHostPort\<close>, and the syntax of
  IP addresses that \<open>net.ParseCIDR\<close> accepts in front of a prefix length of zero.
\<close>

section \<open>Splitting host and port\<close>

fun last_index :: "string \<Rightarrow> char \<Rightarrow> nat option" where
  "last_index [] c = None"
| "last_index (d # s) c = (case last_index s c of Some i \<Rightarrow> Some (Suc i) | None \<Rightarrow> if d = c then Some 0 else None)"

definition SplitHostPort :: "string \<Rightarrow> (string \<times> string) option" where
  "SplitHostPort hostport = (case last_index hostport (CHR '':'') of
       None \<Rightarrow> None
     | Some i \<Rightarrow>
         if hd hostport = CHR ''['' then
           (case go_index hostport (CHR '']'') of
              None \<Rightarrow> None
            | Some e \<Rightarrow>
                if e + 1 \<noteq> i then None
                else if CHR ''['' \<in> set (drop 1 hostport) \<or> CHR '']'' \<in> set (drop (e + 1) hostport) then None
                else Some (take (e - 1) (drop 1 hostport), drop (i + 1) hostport))
         else if CHR '':'' \<in> set (take i hostport) \<or> CHR ''['' \<in> set hostport \<or> CHR '']'' \<in> set hostport then None
         else Some (take i hostport, drop (i + 1) hostport))"

section \<open>Addresses\<close>

text \<open>Four decimal octets without leading zeros.\<close>

fun ipv4_fields :: "nat \<Rightarrow> string \<Rightarrow> bool" where
  "ipv4_fields n s =
     (let ds = takeWhile is_digit s; rest = dropWhile is_digit s
      in ds \<noteq> [] \<and> (length ds = 1 \<or> hd ds \<noteq> CHR ''0'') \<and> length ds \<le> 3 \<and> digits_val ds \<le> 255 \<and>
         (case n of
            0 \<Rightarrow> False
          | Suc 0 \<Rightarrow> rest = []
          | Suc (Suc k) \<Rightarrow> (case rest of c # cs \<Rightarrow> c = CHR ''.'' \<and> ipv4_fields (Suc k) cs | [] \<Rightarrow> False)))"

declare ipv4_fields.simps [simp del]

definition parse_ipv4 :: "string \<Rightarrow> bool" where
  "parse_ipv4 s \<longleftrightarrow> ipv4_fields 4 s"

definition hex_char :: "char \<Rightarrow> bool" where
  "hex_char c \<longleftrightarrow> is_digit c \<or> CHR ''a'' \<le> c \<and> c \<le> CHR ''f'' \<or> CHR ''A'' \<le> c \<and> c \<le> CHR ''F''"

text \<open>
  The loop over the fields of an IPv6 address: \<open>i\<close> bytes are filled, \<open>ellipsis\<close> says whether \<open>::\<close> was
  seen.  A field has one to four hexadecimal digits; the last four bytes may be written as an IPv4
  address.  \<open>n\<close> bounds the number of fields; eight are enough, since each fills two bytes.
\<close>

fun ipv6_loop :: "nat \<Rightarrow> nat \<Rightarrow> bool \<Rightarrow> string \<Rightarrow> bool" where
  "ipv6_loop 0 i ellipsis s = (s = [] \<and> (i = 16 \<or> ellipsis))"
| "ipv6_loop (Suc n) i ellipsis s =
     (if i \<ge> 16 then s = [] \<and> \<not> ellipsis
      else let hs = takeWhile hex_char s; rest = dropWhile hex_char s
      in if hs = [] \<or> length hs > 4 then False
         else if rest \<noteq> [] \<and> hd rest = CHR ''.''
         then (ellipsis \<or> i = 12) \<and> i + 4 \<le> 16 \<and> parse_ipv4 s \<and> (if ellipsis then i + 4 < 16 else i + 4 = 16)
         else case rest of
           [] \<Rightarrow> if ellipsis then i + 2 < 16 else i + 2 = 16
         | c # cs \<Rightarrow>
             if c \<noteq> CHR '':'' \<or> cs = [] then False
             else if hd cs = CHR '':'' then
               if ellipsis then False
               else if tl cs = [] then i + 2 < 16 else ipv6_loop n (i + 2) True (tl cs)
             else ipv6_loop n (i + 2) ellipsis cs)"

definition parse_ipv6 :: "string \<Rightarrow> bool" where
  "parse_ipv6 s =
     (if take 2 s = ''::'' then drop 2 s = [] \<or> ipv6_loop 8 0 True (drop 2 s) else ipv6_loop 8 0 False s)"

text \<open>\<open>netip.ParseAddr\<close> without a zone: the first of \<open>.\<close>, \<open>:\<close> and \<open>%\<close> decides the syntax.\<close>

definition parse_addr :: "string \<Rightarrow> bool" where
  "parse_addr s = (case filter (\<lambda>c. c \<in> {CHR ''.'', CHR '':'', CHR ''%''}) s of
       [] \<Rightarrow> False
     | c # _ \<Rightarrow> if c = CHR ''.'' then parse_ipv4 s else if c = CHR '':'' then parse_ipv6 s else False)"

text \<open>\<open>net.ParseCIDR(name + "/0")\<close> succeeds: the first slash is the one that was added.\<close>

definition cidr_zero :: "string \<Rightarrow> bool" where
  "cidr_zero name \<longleftrightarrow> CHR ''/'' \<notin> set name \<and> parse_addr name"

end
