(* ===== verification/Server_Acls.thy ===== *)
theory Server_Acls
  imports Push_Rules Go_Net
begin

text \<open>
  Server access control lists of rooms (\<open>roomserver/acls/acls.go\<close>): the compilation of the patterns of an
  \<open>m.room.server_acl\<close> event with its cache, and the decision whether a server is banned from a room.
  The cache never changes a decision.  Two theorems show what the patterns and the test for IP literals
  let through: a pattern is looked for anywhere in the name, and an IPv6 literal without a port is not
  recognised.
\<close>

section \<open>Patterns\<close>

text \<open>
  The expression has no anchors, so it is looked for anywhere in the name: \<open>match_prefix\<close> is a match at
  a position, \<open>search\<close> tries every position.  The tokens are those of \<open>Push_Rules\<close>, with the same dot.
\<close>

function match_prefix :: "glob_token list \<Rightarrow> string \<Rightarrow> bool" where
  "match_prefix [] s = True"
| "match_prefix (Lit c # ts) s = (case s of [] \<Rightarrow> False | d # ds \<Rightarrow> if c = d then match_prefix ts ds else False)"
| "match_prefix (AnyOne # ts) s =
     (if s = [] \<or> hd s = CHR 0x0A then False else match_prefix ts (drop (rune_width s) s))"
| "match_prefix (AnyMany # ts) s =
     (if match_prefix ts s then True
      else if s = [] \<or> hd s = CHR 0x0A then False
      else match_prefix (AnyMany # ts) (drop (rune_width s) s))"
  by pat_completeness auto

termination
  by (relation "measure (\<lambda>(ts, s). length ts + length s)") (auto simp: rune_width_def)

declare match_prefix.simps(3,4) [simp del]

function search :: "glob_token list \<Rightarrow> string \<Rightarrow> bool" where
  "search ts s = (if match_prefix ts s then True else if s = [] then False else search ts (drop (rune_width s) s))"
  by pat_completeness auto

termination
  by (relation "measure (\<lambda>(ts, s). length s)") (auto simp: rune_width_def)

declare search.simps [simp del]

text \<open>Quoting first and then replacing the quoted wildcards is a translation character by character.\<close>

definition compileACLRegex :: "string \<Rightarrow> glob_token list option" where
  "compileACLRegex orig = (if valid_utf8 orig then Some (map glob_token orig) else None)"

section \<open>State\<close>

record server_acl =
  ac_Allowed :: "string list"
  ac_Denied :: "string list"
  ac_AllowIPLiterals :: bool

record compiled_acl =
  cp_allowedRegexes :: "glob_token list list"
  cp_deniedRegexes :: "glob_token list list"
  cp_AllowIPLiterals :: bool

record server_acls =
  sa_acls :: "(string, compiled_acl) gomap"
  sa_aclRegexCache :: "(string, glob_token list) gomap"

definition NewServerACLs_empty :: server_acls where
  "NewServerACLs_empty = \<lparr>sa_acls = gempty, sa_aclRegexCache = gempty\<rparr>"

definition cachedCompileACLRegex :: "string \<Rightarrow> server_acls \<Rightarrow> glob_token list option \<times> server_acls" where
  "cachedCompileACLRegex orig s = (case gget (sa_aclRegexCache s) orig of
       Some re \<Rightarrow> (Some re, s)
     | None \<Rightarrow> (case compileACLRegex orig of
           None \<Rightarrow> (None, s)
         | Some compiled \<Rightarrow> (Some compiled, s\<lparr>sa_aclRegexCache := gput orig compiled (sa_aclRegexCache s)\<rparr>)))"

text \<open>The loop over the patterns of a list: those that do not compile are left out.\<close>

fun compile_all :: "string list \<Rightarrow> server_acls \<Rightarrow> glob_token list list \<times> server_acls" where
  "compile_all [] s = ([], s)"
| "compile_all (orig # origs) s =
     (let (re, s) = cachedCompileACLRegex orig s; (res, s) = compile_all origs s
      in (case re of None \<Rightarrow> res | Some r \<Rightarrow> r # res, s))"

text \<open>The content of the event as it decodes; an element of the wrong type is an error.\<close>

definition string_elems :: "any \<Rightarrow> string list option" where
  "string_elems v = (case v of
       ANil \<Rightarrow> Some []
     | AList vs \<Rightarrow> those (map (\<lambda>x. case x of AStr t \<Rightarrow> Some t | ANil \<Rightarrow> Some [] | _ \<Rightarrow> None) vs)
     | _ \<Rightarrow> None)"

definition decode_acl :: "content option \<Rightarrow> server_acl option" where
  "decode_acl c = (case c of
       None \<Rightarrow> None
     | Some m \<Rightarrow>
         (case (string_elems (cget m ''allow''), string_elems (cget m ''deny''), cget m ''allow_ip_literals'') of
            (Some allow, Some deny, ABool b) \<Rightarrow> Some \<lparr>ac_Allowed = allow, ac_Denied = deny, ac_AllowIPLiterals = b\<rparr>
          | (Some allow, Some deny, ANil) \<Rightarrow> Some \<lparr>ac_Allowed = allow, ac_Denied = deny, ac_AllowIPLiterals = False\<rparr>
          | _ \<Rightarrow> None))"

definition OnServerACLUpdate :: "string \<Rightarrow> content option \<Rightarrow> server_acls \<Rightarrow> server_acls" where
  "OnServerACLUpdate roomID content s = (case decode_acl content of
       None \<Rightarrow> s
     | Some acl \<Rightarrow>
         let (allowed, s) = compile_all (ac_Allowed acl) s; (denied, s) = compile_all (ac_Denied acl) s
         in s\<lparr>sa_acls := gput roomID \<lparr>cp_allowedRegexes = allowed, cp_deniedRegexes = denied,
                           cp_AllowIPLiterals = ac_AllowIPLiterals acl\<rparr> (sa_acls s)\<rparr>)"

definition NewServerACLs :: "(string \<times> content option) list \<Rightarrow> server_acls" where
  "NewServerACLs events = fold (\<lambda>(roomID, content). OnServerACLUpdate roomID content) events NewServerACLs_empty"

definition IsServerBannedFromRoom :: "server_acls \<Rightarrow> string \<Rightarrow> string \<Rightarrow> bool" where
  "IsServerBannedFromRoom s serverName roomID = (case gget (sa_acls s) roomID of
       None \<Rightarrow> False
     | Some acl \<Rightarrow>
         let serverName = (case SplitHostPort serverName of Some (host, _) \<Rightarrow> host | None \<Rightarrow> serverName)
         in if cidr_zero serverName \<and> \<not> cp_AllowIPLiterals acl then True
            else if list_ex (\<lambda>re. search re serverName) (cp_deniedRegexes acl) then True
            else if list_ex (\<lambda>re. search re serverName) (cp_allowedRegexes acl) then False
            else True)"

section \<open>The cache\<close>

definition cache_ok :: "server_acls \<Rightarrow> bool" where
  "cache_ok s \<longleftrightarrow> (\<forall>orig re. gget (sa_aclRegexCache s) orig = Some re \<longrightarrow> compileACLRegex orig = Some re)"

lemma cachedCompile_result:
  assumes "cache_ok s" and "cachedCompileACLRegex orig s = (re, s')"
  shows "re = compileACLRegex orig \<and> cache_ok s' \<and> sa_acls s' = sa_acls s"
proof (cases "gget (sa_aclRegexCache s) orig")
  case None
  with assms show ?thesis
    by (cases "compileACLRegex orig") (auto simp: cachedCompileACLRegex_def cache_ok_def split: if_splits)
next
  case (Some r)
  with assms have "compileACLRegex orig = Some r" by (simp add: cache_ok_def)
  with Some assms show ?thesis by (simp add: cachedCompileACLRegex_def)
qed

definition compiled :: "string list \<Rightarrow> glob_token list list" where
  "compiled origs = List.map_filter compileACLRegex origs"

lemma compile_all_result:
  assumes "cache_ok s" and "compile_all origs s = (res, s')"
  shows "res = compiled origs \<and> cache_ok s' \<and> sa_acls s' = sa_acls s"
  using assms
proof (induction origs arbitrary: s res)
  case (Cons orig origs)
  obtain re t where c: "cachedCompileACLRegex orig s = (re, t)" by fastforce
  obtain res' where r: "compile_all origs t = (res', s')" and res: "res = (case re of None \<Rightarrow> res' | Some r \<Rightarrow> r # res')"
    using Cons.prems(2) c by (auto split: prod.splits)
  note C = cachedCompile_result [OF Cons.prems(1) c]
  then have "res' = compiled origs \<and> cache_ok s' \<and> sa_acls s' = sa_acls t" using Cons.IH [OF _ r] by blast
  with C res show ?case by (auto simp: compiled_def map_filter_simps split: option.splits)
qed (simp add: compiled_def map_filter_simps)

lemma OnServerACLUpdate_result:
  assumes "cache_ok s"
  shows "cache_ok (OnServerACLUpdate roomID content s) \<and>
    sa_acls (OnServerACLUpdate roomID content s) = (case decode_acl content of
       None \<Rightarrow> sa_acls s
     | Some acl \<Rightarrow> gput roomID \<lparr>cp_allowedRegexes = compiled (ac_Allowed acl), cp_deniedRegexes = compiled (ac_Denied acl),
                     cp_AllowIPLiterals = ac_AllowIPLiterals acl\<rparr> (sa_acls s))"
proof (cases "decode_acl content")
  case None
  with assms show ?thesis by (simp add: OnServerACLUpdate_def)
next
  case (Some acl)
  obtain a t where a: "compile_all (ac_Allowed acl) s = (a, t)" by fastforce
  obtain d u where d: "compile_all (ac_Denied acl) t = (d, u)" by fastforce
  note A = compile_all_result [OF assms a]
  note D = compile_all_result [OF conjunct1 [OF conjunct2 [OF A]] d]
  show ?thesis using A D by (simp add: OnServerACLUpdate_def Some a d cache_ok_def)
qed

lemma cache_ok_NewServerACLs: "cache_ok (NewServerACLs events)"
proof -
  have "cache_ok s \<Longrightarrow> cache_ok (fold (\<lambda>(roomID, content). OnServerACLUpdate roomID content) events s)" for s
    using OnServerACLUpdate_result by (induction events arbitrary: s) (auto simp: split_def)
  moreover have "cache_ok NewServerACLs_empty" by (simp add: NewServerACLs_empty_def cache_ok_def)
  ultimately show ?thesis by (simp only: NewServerACLs_def)
qed

section \<open>Properties\<close>

text \<open>The decision an access list describes, without cache and state.\<close>

definition acl_bans :: "server_acl \<Rightarrow> string \<Rightarrow> bool" where
  "acl_bans acl serverName =
     (let name = (case SplitHostPort serverName of Some (host, _) \<Rightarrow> host | None \<Rightarrow> serverName)
      in cidr_zero name \<and> \<not> ac_AllowIPLiterals acl \<or>
         (\<exists>re\<in>set (compiled (ac_Denied acl)). search re name) \<or>
         \<not> (\<exists>re\<in>set (compiled (ac_Allowed acl)). search re name))"


lemma match_prefix_Lits: "match_prefix (map Lit p) (p @ s)"
  by (induction p) simp_all

lemma search_Lits:
  assumes "ascii a"
  shows "search (map Lit p) (a @ p @ b)"
  using assms
proof (induction a)
  case Nil
  then show ?case by (simp add: search.simps [of _ "p @ b"] match_prefix_Lits)
next
  case (Cons c a)
  then show ?case by (simp add: search.simps [of _ "c # a @ p @ b"])
qed

lemma compile_plain:
  "ascii p \<Longrightarrow> CHR ''*'' \<notin> set p \<Longrightarrow> CHR ''?'' \<notin> set p \<Longrightarrow> compileACLRegex p = Some (map Lit p)"
  by (auto simp: compileACLRegex_def valid_utf8_ascii glob_token_def)

text \<open>
  An allowed name admits every server whose name contains it: on a list that allows one name and
  denies nothing, no server of the form prefix, name, suffix is banned, unless it is an IP literal.
\<close>

theorem acl_allow_unanchored:
  assumes "ascii prefix" and "ascii host" and "CHR ''*'' \<notin> set host" and "CHR ''?'' \<notin> set host"
    and "SplitHostPort (prefix @ host @ suffix) = None" and "\<not> cidr_zero (prefix @ host @ suffix)"
  shows "\<not> acl_bans \<lparr>ac_Allowed = [host], ac_Denied = [], ac_AllowIPLiterals = b\<rparr> (prefix @ host @ suffix)"
  using assms compile_plain [OF assms(2-4)] search_Lits [OF assms(1), of host suffix]
  by (simp add: acl_bans_def compiled_def map_filter_simps)

theorem acl_allow_unanchored_witness:
  "\<not> acl_bans \<lparr>ac_Allowed = [''good.org''], ac_Denied = [], ac_AllowIPLiterals = False\<rparr> ''good.org.evil.com''"
proof -
  have "SplitHostPort ([] @ ''good.org'' @ ''.evil.com'') = None" "\<not> cidr_zero ([] @ ''good.org'' @ ''.evil.com'')" by code_simp+
  from acl_allow_unanchored [OF _ _ _ _ this] show ?thesis by simp
qed

text \<open>
  A room that forbids IP literals and otherwise allows everyone bans the IPv6 literal of a server
  when its port is given, and lets the same server in when it is not: the brackets are only removed
  together with a port.
\<close>

theorem acl_ipv6_without_port:
  "let acl = \<lparr>ac_Allowed = [''*''], ac_Denied = [], ac_AllowIPLiterals = False\<rparr>
   in acl_bans acl ''[::1]:8448'' \<and> \<not> acl_bans acl ''[::1]'' \<and> acl_bans acl ''127.0.0.1''"
proof -
  have s: "SplitHostPort ''[::1]:8448'' = Some (''::1'', ''8448'')" "SplitHostPort ''[::1]'' = None" "SplitHostPort ''127.0.0.1'' = None"
    by code_simp+
  have c: "cidr_zero ''::1''" "\<not> cidr_zero ''[::1]''" "cidr_zero ''127.0.0.1''" by code_simp+
  have "compiled [''*''] = [[AnyMany]]"
    by (simp add: compiled_def map_filter_simps compileACLRegex_def valid_utf8_ascii glob_token_def)
  moreover have "search [AnyMany] n" for n by (simp add: search.simps [of _ n] match_prefix.simps)
  ultimately show ?thesis using s c by (simp add: acl_bans_def Let_def compiled_def map_filter_simps)
qed

end
