(* ===== verification/Federation_Statistics.thy ===== *)
theory Federation_Statistics
  imports Go_Time Go_Collections "HOL-Library.Word"
begin

text \<open>
  Statistics about federated servers (\<open>federationapi/statistics/statistics.go\<close>): success and failure
  counters, exponential backoff, blacklisting, the assumption that a server is offline, and its relay
  servers, each mirrored in the database.  A method is one step, except for the start of a backoff,
  which other goroutines can observe half done.  The counters are 32-bit words.
\<close>

section \<open>State\<close>

record statistics_db =
  db_blacklist :: "string list"
  db_offline :: "string list"
  db_relays :: "(string, string list) gomap"

record statistics_config =
  sc_FailuresUntilBlacklist :: "32 word"
  sc_FailuresUntilAssumedOffline :: "32 word"
  sc_enableRelays :: bool

text \<open>
  \<open>ss_backoffUntil\<close> is \<open>None\<close> until a time is stored; \<open>ss_timer\<close> says whether the server has an entry in
  \<open>backoffTimers\<close>.
\<close>

record server_statistics =
  ss_serverName :: string
  ss_blacklisted :: bool
  ss_assumedOffline :: bool
  ss_backoffStarted :: bool
  ss_backoffUntil :: "int option"
  ss_backoffCount :: "32 word"
  ss_successCounter :: "32 word"
  ss_timer :: bool
  ss_knownRelayServers :: "string list"

datatype send_method = SendDirect | SendViaRelay

section \<open>Operations\<close>

definition new_server :: "string \<Rightarrow> server_statistics" where
  "new_server name = \<lparr>ss_serverName = name, ss_blacklisted = False, ss_assumedOffline = False, ss_backoffStarted = False,
     ss_backoffUntil = None, ss_backoffCount = 0, ss_successCounter = 0, ss_timer = False, ss_knownRelayServers = []\<rparr>"

text \<open>A query of the database fails or not; a failure is logged and leaves the field at its default.\<close>

definition load_server :: "statistics_config \<Rightarrow> bool \<times> bool \<times> bool \<Rightarrow> statistics_db \<Rightarrow> string \<Rightarrow> server_statistics" where
  "load_server cfg fails db name =
     (let (f1, f2, f3) = fails;
          server = new_server name;
          server = (if f1 then server else server\<lparr>ss_blacklisted := name \<in> set (db_blacklist db)\<rparr>)
      in if \<not> sc_enableRelays cfg then server
         else let server = (if f2 then server else server\<lparr>ss_assumedOffline := name \<in> set (db_offline db)\<rparr>)
              in if f3 then server
                 else server\<lparr>ss_knownRelayServers := (case gget (db_relays db) name of None \<Rightarrow> [] | Some rs \<Rightarrow> rs)\<rparr>)"

definition ForServer ::
  "statistics_config \<Rightarrow> bool \<times> bool \<times> bool \<Rightarrow> statistics_db \<Rightarrow> string \<Rightarrow> (string, server_statistics) gomap \<Rightarrow>
   server_statistics \<times> (string, server_statistics) gomap" where
  "ForServer cfg fails db name servers = (case gget servers name of
       Some server \<Rightarrow> (server, servers)
     | None \<Rightarrow> let server = load_server cfg fails db name in (server, gput name server servers))"

text \<open>
  \<open>jitter\<close> is the random factor and \<open>fl\<close> the rounding of the floating-point product, \<open>conv\<close> the conversion
  of a value out of the range of an integer, which the language leaves open.
\<close>

definition backoff_duration :: "(rat \<Rightarrow> rat) \<Rightarrow> (rat \<Rightarrow> int) \<Rightarrow> rat \<Rightarrow> 32 word \<Rightarrow> int" where
  "backoff_duration fl conv jitter n =
     (let x = fl (fl (2 ^ unat n * jitter) * 1000)
      in wrap64 (10 ^ 6 * (if int64_range (float_trunc x) then float_trunc x else conv x)))"

definition ClearBackoff :: "server_statistics \<Rightarrow> server_statistics" where
  "ClearBackoff s = s\<lparr>ss_timer := False, ss_backoffStarted := False\<rparr>"

definition cancel :: "server_statistics \<Rightarrow> server_statistics" where
  "cancel s = ClearBackoff (s\<lparr>ss_blacklisted := False, ss_backoffUntil := Some zero_time\<rparr>)"

text \<open>
  The writes of the database, whose tables hold a server at most once.  A write that fails is logged;
  \<open>fail\<close> says whether this one does.
\<close>

definition RemoveServerFromBlacklist :: "bool \<Rightarrow> string \<Rightarrow> statistics_db \<Rightarrow> statistics_db" where
  "RemoveServerFromBlacklist fail name db = (if fail then db else db\<lparr>db_blacklist := removeAll name (db_blacklist db)\<rparr>)"

definition AddServerToBlacklist :: "bool \<Rightarrow> string \<Rightarrow> statistics_db \<Rightarrow> statistics_db" where
  "AddServerToBlacklist fail name db = (if fail then db else db\<lparr>db_blacklist := List.insert name (db_blacklist db)\<rparr>)"

definition RemoveServerAssumedOffline :: "bool \<Rightarrow> string \<Rightarrow> statistics_db \<Rightarrow> statistics_db" where
  "RemoveServerAssumedOffline fail name db = (if fail then db else db\<lparr>db_offline := removeAll name (db_offline db)\<rparr>)"

definition SetServerAssumedOffline :: "bool \<Rightarrow> string \<Rightarrow> statistics_db \<Rightarrow> statistics_db" where
  "SetServerAssumedOffline fail name db = (if fail then db else db\<lparr>db_offline := List.insert name (db_offline db)\<rparr>)"

definition removeAssumedOffline :: "bool \<Rightarrow> server_statistics \<times> statistics_db \<Rightarrow> server_statistics \<times> statistics_db" where
  "removeAssumedOffline fail = (\<lambda>(s, db).
     (s\<lparr>ss_assumedOffline := False\<rparr>,
      if ss_assumedOffline s then RemoveServerAssumedOffline fail (ss_serverName s) db else db))"

definition Success ::
  "bool \<times> bool \<Rightarrow> send_method \<Rightarrow> server_statistics \<times> statistics_db \<Rightarrow> server_statistics \<times> statistics_db" where
  "Success fails meth = (\<lambda>(s, db).
     let s = (cancel s)\<lparr>ss_backoffCount := 0\<rparr>
     in case meth of
          SendViaRelay \<Rightarrow> (s, db)
        | SendDirect \<Rightarrow>
            let s = s\<lparr>ss_successCounter := ss_successCounter s + 1\<rparr>;
                db = (if ss_blacklisted s then RemoveServerFromBlacklist (fst fails) (ss_serverName s) db else db)
            in removeAssumedOffline (snd fails) (s, db))"

datatype failure_result = BlacklistedNow | RetryAt int | Panicked

text \<open>The value at the end of \<open>Failure\<close>: the type assertion on a value that was never stored panics.\<close>

definition read_until :: "server_statistics \<Rightarrow> failure_result" where
  "read_until s = (case ss_backoffUntil s of None \<Rightarrow> Panicked | Some t \<Rightarrow> RetryAt t)"

text \<open>
  \<open>Failure\<close> up to the compare-and-swap: a result, or \<open>None\<close> for the goroutine that starts the backoff and
  goes on with \<open>failure_finish\<close>.
\<close>

definition failure_enter :: "server_statistics \<Rightarrow> failure_result option \<times> server_statistics" where
  "failure_enter s =
     (if ss_blacklisted s then (Some BlacklistedNow, s)
      else if \<not> ss_backoffStarted s then (None, s\<lparr>ss_backoffStarted := True\<rparr>)
      else (Some (read_until s), s))"

definition failure_finish ::
  "statistics_config \<Rightarrow> bool \<times> bool \<Rightarrow> int \<Rightarrow> (32 word \<Rightarrow> int) \<Rightarrow> server_statistics \<times> statistics_db \<Rightarrow>
   failure_result \<times> server_statistics \<times> statistics_db" where
  "failure_finish cfg fails now dur = (\<lambda>(s, db).
     let s = s\<lparr>ss_backoffCount := ss_backoffCount s + 1\<rparr>;
         (s, db) = (if ss_backoffCount s \<ge> sc_FailuresUntilAssumedOffline cfg
                    then (s\<lparr>ss_assumedOffline := True\<rparr>, SetServerAssumedOffline (fst fails) (ss_serverName s) db)
                    else (s, db))
     in if ss_backoffCount s \<ge> sc_FailuresUntilBlacklist cfg
        then (BlacklistedNow, ClearBackoff (s\<lparr>ss_blacklisted := True\<rparr>),
              AddServerToBlacklist (snd fails) (ss_serverName s) db)
        else let s = s\<lparr>ss_backoffUntil := Some (now + dur (ss_backoffCount s)), ss_timer := True\<rparr>
             in (read_until s, s, db))"

definition Failure ::
  "statistics_config \<Rightarrow> bool \<times> bool \<Rightarrow> int \<Rightarrow> (32 word \<Rightarrow> int) \<Rightarrow> server_statistics \<times> statistics_db \<Rightarrow>
   failure_result \<times> server_statistics \<times> statistics_db" where
  "Failure cfg fails now dur = (\<lambda>(s, db).
     case failure_enter s of
       (Some r, s) \<Rightarrow> (r, s, db)
     | (None, s) \<Rightarrow> failure_finish cfg fails now dur (s, db))"

definition backoffFinished :: "server_statistics \<Rightarrow> server_statistics" where
  "backoffFinished s = ClearBackoff s"

definition removeBlacklist ::
  "bool \<Rightarrow> server_statistics \<times> statistics_db \<Rightarrow> bool \<times> server_statistics \<times> statistics_db" where
  "removeBlacklist fail = (\<lambda>(s, db).
     (ss_blacklisted s, (cancel s)\<lparr>ss_backoffCount := 0\<rparr>,
      if ss_blacklisted s then RemoveServerFromBlacklist fail (ss_serverName s) db else db))"

definition MarkServerAlive ::
  "bool \<times> bool \<Rightarrow> server_statistics \<times> statistics_db \<Rightarrow> bool \<times> server_statistics \<times> statistics_db" where
  "MarkServerAlive fails x = removeBlacklist (snd fails) (removeAssumedOffline (fst fails) x)"

definition BackoffInfo :: "server_statistics \<Rightarrow> int option" where
  "BackoffInfo s = ss_backoffUntil s"

fun unique_from :: "string list \<Rightarrow> string list \<Rightarrow> string list" where
  "unique_from seen [] = []"
| "unique_from seen (x # xs) = (if x \<in> set seen then unique_from seen xs else x # unique_from (x # seen) xs)"

definition add_relay :: "string \<Rightarrow> string list \<Rightarrow> string list" where
  "add_relay x known = (if x \<in> set known then known else known @ [x])"

definition AddRelayServers ::
  "bool \<Rightarrow> string list \<Rightarrow> server_statistics \<times> statistics_db \<Rightarrow> server_statistics \<times> statistics_db" where
  "AddRelayServers fail relayServers = (\<lambda>(s, db).
     let uniqueList = unique_from [] relayServers
     in if fail then (s, db)
        else (s\<lparr>ss_knownRelayServers := fold add_relay uniqueList (ss_knownRelayServers s)\<rparr>,
              db\<lparr>db_relays := gput (ss_serverName s)
                   (fold add_relay uniqueList (case gget (db_relays db) (ss_serverName s) of None \<Rightarrow> [] | Some rs \<Rightarrow> rs))
                   (db_relays db)\<rparr>))"

section \<open>Properties\<close>

lemma load_server_blacklisted:
  "\<not> fst fails \<Longrightarrow> ss_blacklisted (load_server cfg fails db name) \<longleftrightarrow> name \<in> set (db_blacklist db)"
  by (cases fails) (simp add: load_server_def new_server_def Let_def)

text \<open>
  C38: a successful direct delivery clears the blacklisting in memory but never in the database: the
  flag is reset before it is tested.  After a restart the server is blacklisted again.
\<close>

theorem Success_keeps_blacklist_row:
  assumes "ss_serverName s \<in> set (db_blacklist db)" and "Success fails SendDirect (s, db) = (s', db')"
  shows "\<not> ss_blacklisted s' \<and> db_blacklist db' = db_blacklist db \<and>
    ss_blacklisted (load_server cfg (False, f2, f3) db' (ss_serverName s'))"
proof -
  have "\<not> ss_blacklisted s'" "db_blacklist db' = db_blacklist db" "ss_serverName s' = ss_serverName s"
    using assms(2) by (auto simp: Success_def cancel_def ClearBackoff_def removeAssumedOffline_def
        RemoveServerAssumedOffline_def Let_def split: if_splits)
  with assms(1) show ?thesis by (simp add: load_server_blacklisted)
qed

definition sample_db :: statistics_db where
  "sample_db = \<lparr>db_blacklist = [''h''], db_offline = [], db_relays = gempty\<rparr>"

theorem Success_keeps_blacklist_row_witness:
  "\<exists>s' db'. Success (False, False) SendDirect (new_server ''h'', sample_db) = (s', db') \<and> \<not> ss_blacklisted s' \<and>
     ss_blacklisted (load_server \<lparr>sc_FailuresUntilBlacklist = 16, sc_FailuresUntilAssumedOffline = 1, sc_enableRelays = False\<rparr>
       (False, False, False) db' (ss_serverName s'))"
proof -
  obtain s' db' where e: "Success (False, False) SendDirect (new_server ''h'', sample_db) = (s', db')" by fastforce
  have "ss_serverName (new_server ''h'') \<in> set (db_blacklist sample_db)" by (simp add: new_server_def sample_db_def)
  from Success_keeps_blacklist_row [OF this e] e show ?thesis by blast
qed

text \<open>The other way out of the blacklist does clear it.\<close>

theorem MarkServerAlive_clears:
  assumes "MarkServerAlive (False, False) (s, db) = (was, s', db')"
    and "ss_blacklisted s \<longleftrightarrow> ss_serverName s \<in> set (db_blacklist db)"
    and "ss_assumedOffline s \<longleftrightarrow> ss_serverName s \<in> set (db_offline db)"
  shows "(was \<longleftrightarrow> ss_blacklisted s) \<and> \<not> ss_blacklisted s' \<and> \<not> ss_assumedOffline s' \<and> ss_backoffCount s' = 0 \<and>
    ss_serverName s \<notin> set (db_blacklist db') \<and> ss_serverName s \<notin> set (db_offline db')"
  using assms by (auto simp: MarkServerAlive_def removeBlacklist_def removeAssumedOffline_def cancel_def ClearBackoff_def
      RemoveServerFromBlacklist_def RemoveServerAssumedOffline_def split: if_splits)

text \<open>\<open>k\<close> failures in a row, each after the backoff of the one before has run out.\<close>

fun failures :: "statistics_config \<Rightarrow> (nat \<Rightarrow> int) \<Rightarrow> (32 word \<Rightarrow> int) \<Rightarrow> nat \<Rightarrow> server_statistics \<times> statistics_db
    \<Rightarrow> server_statistics \<times> statistics_db" where
  "failures cfg now dur 0 x = x"
| "failures cfg now dur (Suc k) x =
     (let (s, db) = failures cfg now dur k x; (r, s, db) = Failure cfg (False, False) (now k) dur (s, db)
      in (backoffFinished s, db))"

lemma failures_state:
  assumes "k < 2 ^ 32" and "0 < sc_FailuresUntilBlacklist cfg"
    and "\<not> ss_blacklisted s" and "\<not> ss_backoffStarted s" and "ss_backoffCount s = 0"
  shows "let (s', db') = failures cfg now dur k (s, db); L = unat (sc_FailuresUntilBlacklist cfg)
    in ss_backoffCount s' = word_of_nat (min k L) \<and> \<not> ss_backoffStarted s' \<and> (ss_blacklisted s' \<longleftrightarrow> L \<le> k) \<and>
       ss_serverName s' = ss_serverName s \<and> (L \<le> k \<longrightarrow> ss_serverName s \<in> set (db_blacklist db'))"
  using assms(1)
proof (induction k)
  case 0
  have "0 < unat (sc_FailuresUntilBlacklist cfg)" using assms(2) by (simp add: word_less_nat_alt)
  then show ?case using assms(3-5) by (simp add: Let_def)
next
  case (Suc k)
  let ?L = "unat (sc_FailuresUntilBlacklist cfg)"
  obtain s1 db1 where f: "failures cfg now dur k (s, db) = (s1, db1)" by fastforce
  have I: "ss_backoffCount s1 = word_of_nat (min k ?L)" "\<not> ss_backoffStarted s1" "ss_blacklisted s1 \<longleftrightarrow> ?L \<le> k"
    "ss_serverName s1 = ss_serverName s" "?L \<le> k \<longrightarrow> ss_serverName s \<in> set (db_blacklist db1)"
    using Suc f by (simp_all add: Let_def)
  show ?case
  proof (cases "?L \<le> k")
    case True
    then show ?thesis using I f
      by (simp add: Failure_def failure_enter_def backoffFinished_def ClearBackoff_def Let_def)
  next
    case False
    have c: "ss_backoffCount s1 + 1 = word_of_nat (Suc k)" using I(1) False by simp
    have u: "unat (word_of_nat (Suc k) :: 32 word) = Suc k" using Suc.prems by (simp add: unsigned_of_nat take_bit_nat_eq_self del: of_nat_Suc)
    have le: "sc_FailuresUntilBlacklist cfg \<le> ss_backoffCount s1 + 1 \<longleftrightarrow> ?L \<le> Suc k"
      unfolding c by (simp add: word_le_nat_alt u del: of_nat_Suc)
    have m: "min (Suc k) ?L = Suc k" using False by simp
    show ?thesis
      using I f False le c m
      by (auto simp: Failure_def failure_enter_def failure_finish_def backoffFinished_def ClearBackoff_def Let_def
          AddServerToBlacklist_def SetServerAssumedOffline_def simp del: of_nat_Suc split: if_splits)
  qed
qed



text \<open>
  The first failure of a server sets \<open>backoffStarted\<close> before it stores the time of the next attempt.
  A second failure in between reads a value that was never stored, and the type assertion panics;
  with the first failure completed the same call returns the time.
\<close>

theorem concurrent_failure_panics:
  assumes "\<not> ss_blacklisted s" and "\<not> ss_backoffStarted s" and "ss_backoffUntil s = None"
    and "ss_backoffCount s + 1 < sc_FailuresUntilBlacklist cfg"
    and "failure_enter s = (r, s1)" and "failure_finish cfg fails now dur (s1, db) = (r1, s2, db2)"
  shows "r = None \<and> fst (Failure cfg fails' now' dur (s1, db)) = Panicked \<and>
    fst (Failure cfg fails' now' dur (s2, db2)) = r1 \<and> r1 = RetryAt (now + dur (ss_backoffCount s + 1))"
proof -
  have s1: "r = None" "s1 = s\<lparr>ss_backoffStarted := True\<rparr>"
    using assms(1,2,5) by (simp_all add: failure_enter_def)
  have "\<not> ss_blacklisted s2 \<and> ss_backoffStarted s2 \<and> ss_backoffUntil s2 = Some (now + dur (ss_backoffCount s + 1)) \<and>
      r1 = RetryAt (now + dur (ss_backoffCount s + 1))"
    using assms(1,4,6) s1(2) by (auto simp: failure_finish_def Let_def read_until_def not_le [symmetric] split: if_splits)
  then show ?thesis
    using s1 assms(1,3) by (simp add: Failure_def failure_enter_def read_until_def)
qed

theorem concurrent_failure_panics_witness:
  "let cfg = \<lparr>sc_FailuresUntilBlacklist = 3, sc_FailuresUntilAssumedOffline = 1, sc_enableRelays = False\<rparr>
   in fst (Failure cfg (False, False) 7 (\<lambda>_. 1) (snd (failure_enter (new_server ''h'')), sample_db)) = Panicked"
proof -
  let ?c = "\<lparr>sc_FailuresUntilBlacklist = 3, sc_FailuresUntilAssumedOffline = 1, sc_enableRelays = False\<rparr>"
  have e: "failure_enter (new_server ''h'') = (None, snd (failure_enter (new_server ''h'')))"
    by (simp add: failure_enter_def new_server_def)
  obtain r1 s2 db2 where f: "failure_finish ?c (False, False) 0 (\<lambda>_. 1) (snd (failure_enter (new_server ''h'')), sample_db) = (r1, s2, db2)"
    by (metis prod_cases3)
  have "\<not> ss_blacklisted (new_server ''h'')" "\<not> ss_backoffStarted (new_server ''h'')" "ss_backoffUntil (new_server ''h'') = None"
    "ss_backoffCount (new_server ''h'') + 1 < sc_FailuresUntilBlacklist ?c"
    by (simp_all add: new_server_def word_less_nat_alt)
  from concurrent_failure_panics [OF this e f] show ?thesis by (simp add: Let_def)
qed

lemma unique_from_set: "distinct (unique_from seen xs) \<and> set (unique_from seen xs) = set xs - set seen"
  by (induction seen xs rule: unique_from.induct) auto

lemma fold_add_relay:
  "distinct known \<Longrightarrow> distinct (fold add_relay xs known) \<and> set (fold add_relay xs known) = set known \<union> set xs \<and>
     (\<exists>new. fold add_relay xs known = known @ new)"
proof (induction xs arbitrary: known)
  case (Cons x xs)
  have "distinct (add_relay x known)" "set (add_relay x known) = insert x (set known)" "\<exists>n. add_relay x known = known @ n"
    using Cons.prems by (auto simp: add_relay_def)
  with Cons.IH [of "add_relay x known"] show ?case by fastforce
qed simp

text \<open>Adding relay servers keeps the known ones in place, adds each new one once and stores the same set.\<close>

theorem AddRelayServers_union:
  assumes "AddRelayServers False xs (s, db) = (s', db')" and "distinct (ss_knownRelayServers s)"
    and "gget (db_relays db) (ss_serverName s) = Some (ss_knownRelayServers s)"
  shows "distinct (ss_knownRelayServers s') \<and> set (ss_knownRelayServers s') = set (ss_knownRelayServers s) \<union> set xs \<and>
    (\<exists>new. ss_knownRelayServers s' = ss_knownRelayServers s @ new) \<and>
    gget (db_relays db') (ss_serverName s) = Some (ss_knownRelayServers s')"
  using assms unique_from_set [of "[]" xs] fold_add_relay [OF assms(2), of "unique_from [] xs"]
  by (auto simp: AddRelayServers_def Let_def)

end
