(* ===== verification/Http_Limits.thy ===== *)
theory Http_Limits
  imports Go_Prelude Go_Collections
begin

text \<open>
  Two guards of the HTTP layer: the request rate limiter (\<open>internal/httputil/rate_limiting.go\<close>) and the
  cache of transaction responses (\<open>internal/transactions/transactions.go\<close>).  While requests do not
  overlap, a caller never has more requests within the cool-off time than the threshold; the limiter
  looks a caller up and creates its channel in two separate steps, and the last theorem of the first
  part shows what two first requests at the same time do.  A cached response is returned until the
  second clean-up after it was added.
\<close>

section \<open>The rate limiter\<close>

text \<open>
  A channel is its number; \<open>rl_chans\<close> holds how many slots of each are taken, all have the capacity of
  the threshold.  \<open>rl_drains\<close> are the goroutines that will free a slot, with the caller they ran for.
\<close>

record rate_limits =
  rl_enabled :: bool
  rl_requestThreshold :: nat
  rl_exemptUserIDs :: "string list"
  rl_limits :: "(string, nat) gomap"
  rl_chans :: "(nat, nat) gomap"
  rl_next :: nat
  rl_drains :: "(string \<times> nat) list"

definition NewRateLimits :: "bool \<Rightarrow> nat \<Rightarrow> string list \<Rightarrow> rate_limits" where
  "NewRateLimits enabled threshold exempt = \<lparr>rl_enabled = enabled, rl_requestThreshold = threshold,
     rl_exemptUserIDs = exempt, rl_limits = gempty, rl_chans = gempty, rl_next = 0, rl_drains = []\<rparr>"

datatype account_type = AccountTypeUser | AccountTypeGuest | AccountTypeAdmin | AccountTypeAppService

record rate_device =
  rd_AccountType :: account_type
  rd_UserID :: string
  rd_ID :: string

text \<open>The caller a request counts for, \<open>None\<close> when it is exempt.\<close>

definition limit_caller :: "rate_limits \<Rightarrow> rate_device option \<Rightarrow> string \<Rightarrow> string \<Rightarrow> string option" where
  "limit_caller l device forwardedFor remoteAddr = (case device of
       Some d \<Rightarrow>
         if rd_AccountType d = AccountTypeAdmin \<or> rd_AccountType d = AccountTypeAppService then None
         else if rd_UserID d \<in> set (rl_exemptUserIDs l) then None
         else Some (rd_UserID d @ rd_ID d)
     | None \<Rightarrow> Some (if forwardedFor \<noteq> [] then forwardedFor else remoteAddr))"

text \<open>The three steps of a request: the lookup, the creation of a missing channel, and the attempt to take a slot.\<close>

definition lookup_channel :: "string \<Rightarrow> rate_limits \<Rightarrow> nat option" where
  "lookup_channel caller l = gget (rl_limits l) caller"

definition create_channel :: "string \<Rightarrow> rate_limits \<Rightarrow> nat \<times> rate_limits" where
  "create_channel caller l = (rl_next l, l\<lparr>rl_next := rl_next l + 1, rl_chans := gput (rl_next l) 0 (rl_chans l),
     rl_limits := gput caller (rl_next l) (rl_limits l)\<rparr>)"

definition slots :: "rate_limits \<Rightarrow> nat \<Rightarrow> nat" where
  "slots l i = (case gget (rl_chans l) i of None \<Rightarrow> 0 | Some n \<Rightarrow> n)"

definition try_send :: "string \<Rightarrow> nat \<Rightarrow> rate_limits \<Rightarrow> bool \<times> rate_limits" where
  "try_send caller i l =
     (if slots l i < rl_requestThreshold l
      then (True, l\<lparr>rl_chans := gput i (slots l i + 1) (rl_chans l), rl_drains := (caller, i) # rl_drains l\<rparr>)
      else (False, l))"

text \<open>\<open>Limit\<close> without interruption; the result says whether the request may go on.\<close>

definition Limit :: "rate_device option \<Rightarrow> string \<Rightarrow> string \<Rightarrow> rate_limits \<Rightarrow> bool \<times> rate_limits" where
  "Limit device forwardedFor remoteAddr l =
     (if \<not> rl_enabled l then (True, l)
      else case limit_caller l device forwardedFor remoteAddr of
        None \<Rightarrow> (True, l)
      | Some caller \<Rightarrow> (case lookup_channel caller l of
            Some i \<Rightarrow> try_send caller i l
          | None \<Rightarrow> let (i, l) = create_channel caller l in try_send caller i l))"

definition drain :: "string \<times> nat \<Rightarrow> rate_limits \<Rightarrow> rate_limits" where
  "drain d l = l\<lparr>rl_chans := gput (snd d) (slots l (snd d) - 1) (rl_chans l), rl_drains := remove1 d (rl_drains l)\<rparr>"

definition clean :: "rate_limits \<Rightarrow> rate_limits" where
  "clean l = l\<lparr>rl_limits := gkeep (\<lambda>caller i. slots l i \<noteq> 0) (rl_limits l)\<rparr>"

inductive rate_step :: "rate_limits \<Rightarrow> rate_limits \<Rightarrow> bool" where
  rate_limit: "Limit device forwarded remote l = (ok, l') \<Longrightarrow> rate_step l l'"
| rate_drain: "d \<in> set (rl_drains l) \<Longrightarrow> rate_step l (drain d l)"
| rate_clean: "rate_step l (clean l)"

section \<open>Bound\<close>

text \<open>The requests of a caller that were let through and whose cool-off time has not passed.\<close>

definition outstanding :: "string \<Rightarrow> rate_limits \<Rightarrow> nat" where
  "outstanding caller l = length (filter (\<lambda>d. fst d = caller) (rl_drains l))"

text \<open>They are all in the caller's current channel, which counts them; no two callers share a channel.\<close>

definition rate_ok :: "rate_limits \<Rightarrow> bool" where
  "rate_ok l \<longleftrightarrow> gmap_ok (rl_limits l) \<and>
     (\<forall>caller i. (caller, i) \<in> set (rl_drains l) \<longrightarrow> gget (rl_limits l) caller = Some i) \<and>
     (\<forall>caller i. gget (rl_limits l) caller = Some i \<longrightarrow>
        i < rl_next l \<and> slots l i = outstanding caller l \<and> slots l i \<le> rl_requestThreshold l) \<and>
     (\<forall>a b i. gget (rl_limits l) a = Some i \<longrightarrow> gget (rl_limits l) b = Some i \<longrightarrow> a = b)"

lemma rate_okD:
  assumes "rate_ok l"
  shows "gmap_ok (rl_limits l)"
    and "(caller, i) \<in> set (rl_drains l) \<Longrightarrow> gget (rl_limits l) caller = Some i"
    and "gget (rl_limits l) caller = Some i \<Longrightarrow> i < rl_next l \<and> slots l i = outstanding caller l \<and> slots l i \<le> rl_requestThreshold l"
    and "gget (rl_limits l) a = Some i \<Longrightarrow> gget (rl_limits l) b = Some i \<Longrightarrow> a = b"
  using assms unfolding rate_ok_def by blast+

lemma no_channel_no_drain: "rate_ok l \<Longrightarrow> gget (rl_limits l) caller = None \<Longrightarrow> outstanding caller l = 0"
  using rate_okD(2) [of l caller] by (auto simp: outstanding_def filter_empty_conv)

lemma rate_ok_create:
  assumes "rate_ok l" and "gget (rl_limits l) caller = None"
  shows "rate_ok (snd (create_channel caller l)) \<and> gget (rl_limits (snd (create_channel caller l))) caller = Some (rl_next l)"
proof -
  let ?l = "snd (create_channel caller l)"
  have lim: "gget (rl_limits ?l) c = (if c = caller then Some (rl_next l) else gget (rl_limits l) c)" for c
    by (simp add: create_channel_def)
  have sl: "slots ?l i = (if i = rl_next l then 0 else slots l i)" for i by (simp add: create_channel_def slots_def)
  have same: "rl_drains ?l = rl_drains l" "rl_next ?l = rl_next l + 1" "rl_requestThreshold ?l = rl_requestThreshold l"
    "outstanding c ?l = outstanding c l" for c by (simp_all add: create_channel_def outstanding_def)
  have old: "i < rl_next l" if "gget (rl_limits l) c = Some i" for c i using rate_okD(3) [OF assms(1) that] by simp
  have "rate_ok ?l"
    unfolding rate_ok_def
  proof (intro conjI allI impI)
    show "gmap_ok (rl_limits ?l)" using rate_okD(1) [OF assms(1)] by (simp add: create_channel_def)
  next
    fix c i assume "(c, i) \<in> set (rl_drains ?l)"
    then show "gget (rl_limits ?l) c = Some i" using rate_okD(2) [OF assms(1)] assms(2) by (auto simp: lim same)
  next
    fix c i assume c: "gget (rl_limits ?l) c = Some i"
    show "i < rl_next ?l" "slots ?l i = outstanding c ?l" "slots ?l i \<le> rl_requestThreshold ?l"
      using c old [of c i] rate_okD(3) [OF assms(1), of c i] no_channel_no_drain [OF assms]
      by (cases "c = caller"; auto simp: lim same sl)+
  next
    fix x y i assume "gget (rl_limits ?l) x = Some i" "gget (rl_limits ?l) y = Some i"
    then show "x = y" using old rate_okD(4) [OF assms(1)] by (auto simp: lim split: if_splits)
  qed
  then show ?thesis by (simp add: lim)
qed

lemma rate_ok_send:
  assumes "rate_ok l" and "gget (rl_limits l) caller = Some i" and "try_send caller i l = (ok, l')"
  shows "rate_ok l'"
proof (cases "slots l i < rl_requestThreshold l")
  case False
  with assms show ?thesis by (simp add: try_send_def)
next
  case True
  then have l': "l' = l\<lparr>rl_chans := gput i (slots l i + 1) (rl_chans l), rl_drains := (caller, i) # rl_drains l\<rparr>"
    using assms(3) by (simp add: try_send_def)
  have sl: "slots l' j = (if j = i then slots l i + 1 else slots l j)" for j by (simp add: l' slots_def)
  have out: "outstanding c l' = (if c = caller then outstanding c l + 1 else outstanding c l)" for c
    by (simp add: l' outstanding_def)
  have I: "slots l i = outstanding caller l" using rate_okD(3) [OF assms(1,2)] by simp
  show ?thesis
    unfolding rate_ok_def
  proof (intro conjI allI impI)
    show "gmap_ok (rl_limits l')" using rate_okD(1) [OF assms(1)] by (simp add: l')
  next
    fix c j assume "(c, j) \<in> set (rl_drains l')"
    then show "gget (rl_limits l') c = Some j" using rate_okD(2) [OF assms(1)] assms(2) by (auto simp: l')
  next
    fix c j assume "gget (rl_limits l') c = Some j"
    then have c: "gget (rl_limits l) c = Some j" by (simp add: l')
    have "j = i \<longleftrightarrow> c = caller" using rate_okD(4) [OF assms(1), of c j caller] c assms(2) by auto
    then show "j < rl_next l'" "slots l' j = outstanding c l'" "slots l' j \<le> rl_requestThreshold l'"
      using rate_okD(3) [OF assms(1) c] I True by (auto simp: sl out) (simp_all add: l')
  next
    fix x y j assume "gget (rl_limits l') x = Some j" "gget (rl_limits l') y = Some j"
    then show "x = y" using rate_okD(4) [OF assms(1)] by (simp add: l')
  qed
qed

lemma rate_ok_Limit:
  assumes "rate_ok l" and "Limit device forwarded remote l = (ok, l')"
  shows "rate_ok l'"
proof (cases "rl_enabled l \<and> limit_caller l device forwarded remote \<noteq> None")
  case False
  with assms show ?thesis by (auto simp: Limit_def split: option.splits)
next
  case True
  then obtain caller where c: "rl_enabled l" "limit_caller l device forwarded remote = Some caller" by blast
  show ?thesis
  proof (cases "gget (rl_limits l) caller")
    case None
    obtain i k where k: "create_channel caller l = (i, k)" by fastforce
    then have i: "i = rl_next l" by (simp add: create_channel_def)
    have "try_send caller i k = (ok, l')" using assms(2) c None k by (simp add: Limit_def lookup_channel_def)
    moreover have "rate_ok k" "gget (rl_limits k) caller = Some i" using rate_ok_create [OF assms(1) None] k i by simp_all
    ultimately show ?thesis using rate_ok_send by blast
  next
    case (Some i)
    then have "try_send caller i l = (ok, l')" using assms(2) c by (simp add: Limit_def lookup_channel_def)
    with rate_ok_send [OF assms(1) Some] show ?thesis .
  qed
qed

lemma rate_ok_drain:
  assumes "rate_ok l" and "d \<in> set (rl_drains l)"
  shows "rate_ok (drain d l)"
proof -
  obtain caller i where d: "d = (caller, i)" by (cases d)
  let ?l = "drain d l"
  have lim: "gget (rl_limits l) caller = Some i" using rate_okD(2) [OF assms(1)] assms(2) d by simp
  have sl: "slots ?l j = (if j = i then slots l i - 1 else slots l j)" for j by (simp add: drain_def slots_def d)
  have out: "outstanding c ?l = (if c = caller then outstanding c l - 1 else outstanding c l)" for c
    using assms(2) by (simp add: outstanding_def drain_def d filter_remove1 length_remove1)
  have I: "slots l i = outstanding caller l" using rate_okD(3) [OF assms(1) lim] by simp
  have same: "rl_limits ?l = rl_limits l" "rl_next ?l = rl_next l" "rl_requestThreshold ?l = rl_requestThreshold l"
    "set (rl_drains ?l) \<subseteq> set (rl_drains l)" by (simp_all add: drain_def set_remove1_subset)
  show ?thesis
    unfolding rate_ok_def
  proof (intro conjI allI impI)
    show "gmap_ok (rl_limits ?l)" using rate_okD(1) [OF assms(1)] by (simp add: same)
  next
    fix c j assume "(c, j) \<in> set (rl_drains ?l)"
    then show "gget (rl_limits ?l) c = Some j" using rate_okD(2) [OF assms(1)] same by auto
  next
    fix c j assume "gget (rl_limits ?l) c = Some j"
    then have c: "gget (rl_limits l) c = Some j" by (simp add: same)
    have "j = i \<longleftrightarrow> c = caller" using rate_okD(4) [OF assms(1), of c j caller] c lim by auto
    then show "j < rl_next ?l" "slots ?l j = outstanding c ?l" "slots ?l j \<le> rl_requestThreshold ?l"
      using rate_okD(3) [OF assms(1) c] I by (auto simp: sl out same)
  next
    fix x y j assume "gget (rl_limits ?l) x = Some j" "gget (rl_limits ?l) y = Some j"
    then show "x = y" using rate_okD(4) [OF assms(1)] by (simp add: same)
  qed
qed

lemma rate_ok_clean:
  assumes "rate_ok l"
  shows "rate_ok (clean l)"
proof -
  have lim: "gget (rl_limits (clean l)) c = (case gget (rl_limits l) c of None \<Rightarrow> None | Some i \<Rightarrow> if slots l i \<noteq> 0 then Some i else None)" for c
    unfolding clean_def by (simp add: gget_gkeep [OF rate_okD(1) [OF assms]] cong: option.case_cong)
  have same: "rl_drains (clean l) = rl_drains l" "slots (clean l) i = slots l i" "rl_next (clean l) = rl_next l"
    "rl_requestThreshold (clean l) = rl_requestThreshold l" "outstanding c (clean l) = outstanding c l" for i c
    by (simp_all add: clean_def slots_def outstanding_def)
  have keep: "gget (rl_limits (clean l)) c = Some i" if "(c, i) \<in> set (rl_drains l)" for c i
  proof -
    have "gget (rl_limits l) c = Some i" using rate_okD(2) [OF assms that] .
    moreover from this have "slots l i = outstanding c l" using rate_okD(3) [OF assms] by blast
    moreover have "outstanding c l \<noteq> 0" using that by (force simp: outstanding_def filter_empty_conv)
    ultimately show ?thesis by (simp add: lim)
  qed
  have old: "gget (rl_limits l) c = Some i" if "gget (rl_limits (clean l)) c = Some i" for c i
    using that by (auto simp: lim split: option.splits if_splits)
  have "gmap_ok (rl_limits (clean l))" using rate_okD(1) [OF assms] by (simp add: clean_def)
  then show ?thesis
    unfolding rate_ok_def same using keep old rate_okD(3,4) [OF assms] by blast
qed

lemma rate_step_ok: "rate_step l l' \<Longrightarrow> rate_ok l \<Longrightarrow> rate_ok l'"
  by (induction rule: rate_step.induct) (auto intro: rate_ok_Limit rate_ok_drain rate_ok_clean)

lemma rate_ok_new: "rate_ok (NewRateLimits enabled threshold exempt)"
  by (simp add: rate_ok_def NewRateLimits_def)

lemma rate_step_threshold: "rate_step l l' \<Longrightarrow> rl_requestThreshold l' = rl_requestThreshold l"
  by (induction rule: rate_step.induct)
     (auto simp: Limit_def try_send_def create_channel_def drain_def clean_def Let_def split: if_splits option.splits)



text \<open>
  Two first requests of a caller at the same time both find no channel and each create one; the
  second replaces the first in the map but both requests are let through, so with a threshold of one
  the caller has two requests in flight.
\<close>

theorem concurrent_first_requests_exceed:
  "let l0 = NewRateLimits True 1 []; caller = ''1.2.3.4'';
       (i, l1) = create_channel caller l0;
       (j, l2) = create_channel caller l1;
       (ok1, l3) = try_send caller i l2;
       (ok2, l4) = try_send caller j l3
   in lookup_channel caller l0 = None \<and> ok1 \<and> ok2 \<and> outstanding caller l4 = 2 \<and> rl_requestThreshold l4 = 1"
  by (simp add: NewRateLimits_def create_channel_def try_send_def slots_def outstanding_def lookup_channel_def)

section \<open>Transaction responses\<close>

text \<open>\<open>filepath.Clean\<close> and \<open>filepath.Dir\<close> on slash-separated paths.\<close>

fun path_parts :: "string \<Rightarrow> string list" where
  "path_parts [] = [[]]"
| "path_parts (c # cs) = (if c = CHR ''/'' then [] # path_parts cs
     else case path_parts cs of [] \<Rightarrow> [[c]] | w # ws \<Rightarrow> (c # w) # ws)"

text \<open>The components kept so far, last first.\<close>

fun clean_parts :: "bool \<Rightarrow> string list \<Rightarrow> string list \<Rightarrow> string list" where
  "clean_parts rooted kept [] = kept"
| "clean_parts rooted kept (p # ps) =
     (if p = [] \<or> p = ''.'' then clean_parts rooted kept ps
      else if p = ''..'' then
        (case kept of
           k # ks \<Rightarrow> if k = ''..'' then clean_parts rooted (''..'' # kept) ps else clean_parts rooted ks ps
         | [] \<Rightarrow> clean_parts rooted (if rooted then [] else [''..'']) ps)
      else clean_parts rooted (p # kept) ps)"

fun join_parts :: "string list \<Rightarrow> string" where
  "join_parts [] = []"
| "join_parts [p] = p"
| "join_parts (p # ps) = p @ ''/'' @ join_parts ps"

definition path_Clean :: "string \<Rightarrow> string" where
  "path_Clean path =
     (let rooted = (path \<noteq> [] \<and> hd path = CHR ''/'');
          out = (if rooted then ''/'' else []) @ join_parts (rev (clean_parts rooted [] (path_parts path)))
      in if out = [] then ''.'' else out)"

definition path_Dir :: "string \<Rightarrow> string" where
  "path_Dir path = path_Clean (rev (dropWhile (\<lambda>c. c \<noteq> CHR ''/'') (rev path)))"

type_synonym txn_key = "string \<times> string \<times> string"

record 'r txn_cache =
  tc_front :: "(txn_key, 'r) gomap"
  tc_back :: "(txn_key, 'r) gomap"

definition NewCache :: "'r txn_cache" where
  "NewCache = \<lparr>tc_front = gempty, tc_back = gempty\<rparr>"

definition txn_key :: "string \<Rightarrow> string \<Rightarrow> string \<Rightarrow> txn_key" where
  "txn_key accessToken txnID path = (accessToken, txnID, path_Dir path)"

definition FetchTransaction :: "string \<Rightarrow> string \<Rightarrow> string \<Rightarrow> 'r txn_cache \<Rightarrow> 'r option" where
  "FetchTransaction accessToken txnID path t =
     (let key = txn_key accessToken txnID path
      in case gget (tc_front t) key of Some res \<Rightarrow> Some res | None \<Rightarrow> gget (tc_back t) key)"

definition AddTransaction :: "string \<Rightarrow> string \<Rightarrow> string \<Rightarrow> 'r \<Rightarrow> 'r txn_cache \<Rightarrow> 'r txn_cache" where
  "AddTransaction accessToken txnID path res t = t\<lparr>tc_front := gput (txn_key accessToken txnID path) res (tc_front t)\<rparr>"

definition clean_tick :: "'r txn_cache \<Rightarrow> 'r txn_cache" where
  "clean_tick t = t\<lparr>tc_back := tc_front t, tc_front := gempty\<rparr>"

datatype 'r txn_op = TxnAdd string string string 'r | TxnTick

fun txn_run :: "'r txn_op list \<Rightarrow> 'r txn_cache \<Rightarrow> 'r txn_cache" where
  "txn_run [] t = t"
| "txn_run (TxnAdd a i p r # ops) t = txn_run ops (AddTransaction a i p r t)"
| "txn_run (TxnTick # ops) t = txn_run ops (clean_tick t)"

definition ticks :: "'r txn_op list \<Rightarrow> nat" where
  "ticks ops = length (filter (\<lambda>x. x = TxnTick) ops)"

definition touches :: "txn_key \<Rightarrow> 'r txn_op \<Rightarrow> bool" where
  "touches key x \<longleftrightarrow> (case x of TxnAdd a i p r \<Rightarrow> txn_key a i p = key | TxnTick \<Rightarrow> False)"

lemma txn_run_front:
  assumes "\<not> list_ex (touches key) ops"
  shows "gget (tc_front (txn_run ops t)) key = (if ticks ops = 0 then gget (tc_front t) key else None) \<and>
    gget (tc_back (txn_run ops t)) key =
      (if ticks ops = 0 then gget (tc_back t) key else if ticks ops = 1 then gget (tc_front t) key else None)"
  using assms
proof (induction ops t rule: txn_run.induct)
  case (2 a i p r ops t)
  have ne: "txn_key a i p \<noteq> key" "\<not> list_ex (touches key) ops" using "2.prems" by (simp_all, simp add: touches_def)
  have "gget (tc_front (AddTransaction a i p r t)) key = gget (tc_front t) key" "tc_back (AddTransaction a i p r t) = tc_back t"
    using ne(1) by (auto simp: AddTransaction_def)
  moreover have "ticks (TxnAdd a i p r # ops) = ticks ops" by (simp add: ticks_def)
  ultimately show ?case using "2.IH" [OF ne(2)] by simp
next
  case (3 ops t)
  then show ?case by (simp add: touches_def ticks_def clean_tick_def)
qed (simp add: ticks_def)

text \<open>
  C19: a response that was added is fetched by a request with the same token, transaction and endpoint
  directory until the second clean-up after it, and no longer, whatever other transactions are added in
  between.
\<close>

theorem transaction_lifetime:
  assumes "\<not> list_ex (touches (txn_key token txnID path)) ops"
    and "txn_key token' txnID' path' = txn_key token txnID path"
  shows "FetchTransaction token' txnID' path' (txn_run ops (AddTransaction token txnID path res t)) =
    (if ticks ops \<le> 1 then Some res else None)"
  using txn_run_front [OF assms(1), of "AddTransaction token txnID path res t"] assms(2)
  by (auto simp: FetchTransaction_def AddTransaction_def Let_def split: option.split)

theorem transaction_lifetime_witness:
  "FetchTransaction ''tok'' ''t1'' ''/send/m.room.message/t1''
     (txn_run [TxnAdd ''tok'' ''t2'' ''/send/m.room.message/t2'' (2 :: nat), TxnTick]
       (AddTransaction ''tok'' ''t1'' ''/send/m.room.message/t1'' 1 NewCache)) = Some 1"
proof -
  have "\<not> list_ex (touches (txn_key ''tok'' ''t1'' ''/send/m.room.message/t1''))
     [TxnAdd ''tok'' ''t2'' ''/send/m.room.message/t2'' (2 :: nat), TxnTick]"
    by (simp add: touches_def txn_key_def)
  from transaction_lifetime [OF this refl] show ?thesis by (simp add: ticks_def)
qed

end
