(* ===== verification/Spec2Isabelle.thy ===== *)
theory Spec2Isabelle
  imports Store_Invariant Operation_Tracker Product_Policy Projection Action_Registry Agent_Completion Calls
    Conversation_View Blocks_Module Social_Module Portal_Module Sync_Tokens User_Validation
    Server_Acls Federation_Statistics Http_Limits
begin

text \<open>
  This library verifies the product core of the message server, a Matrix home server with a product layer of
  direct chats, groups, channels, calls and an agent, together with self-contained parts of the server below it.

  \<^bold>\<open>The program.\<close>  Clients call ProductCore actions.  The action boundary (\<open>p2p/internal/action\<close>) reads their
  parameters and dispatches them to modules (\<open>p2p/internal/calls\<close>, \<open>conversation\<close>, \<open>blocks\<close>, \<open>social\<close>, \<open>portal\<close>,
  \<open>events\<close>, \<open>operations\<close>).  Modules keep their rows in a store (\<open>p2p/storage\<close>).  What a product room is, and what its members
  may do, is Matrix room state: \<open>internal/dirextalkstate\<close> builds and reads the state events,
  \<open>internal/productpolicy\<close> decides on client events and memberships by them, and
  \<open>internal/dirextalkprojection\<close> writes them back to the store.  Changes reach clients through a numbered event log
  and its stream.  Below that, \<open>roomserver/acls\<close>, \<open>federationapi/statistics\<close>, \<open>internal/pushrules\<close>,
  \<open>internal/httputil\<close>, \<open>internal/transactions\<close>, \<open>internal/validate.go\<close> and \<open>syncapi/types\<close> are parts of the Matrix
  server.

  \<^bold>\<open>Language and library.\<close>  \<open>Go_Prelude\<close> holds strings, \<open>Go_Collections\<close> 64-bit integers, maps and sorting,
  \<open>Go_Values\<close> decoded JSON values, \<open>Go_Utf8\<close>, \<open>Go_Time\<close> (RFC 3339 times), \<open>Go_Sha256\<close> and \<open>Go_Net\<close> the parts of
  the standard library the code uses.  A Go map is an association list, whose order stands for the iteration
  order; a property of a listing that quantifies over the order says that the order does not matter.  Strings
  are byte strings.  The clock, random numbers and the conversion of out-of-range floats are arguments.

  \<^bold>\<open>Store.\<close>  \<open>Domain_Records\<close> and \<open>Domain\<close> have the records and normalisations of
  \<open>internal/dirextalkdomain\<close>; \<open>Store\<close> the state \<open>memory_store\<close> of \<open>MemoryStore\<close> with the contracts \<open>row_table\<close> and
  \<open>table\<close>; \<open>Store_Members\<close>, \<open>Store_Tables\<close>, \<open>Store_Conversations\<close>, \<open>Store_Contacts\<close>, \<open>Store_Content\<close>,
  \<open>Store_Events\<close>, \<open>Store_Operations\<close>, \<open>Store_GroupAgent\<close> and \<open>Store_Portal\<close> its methods file by file.  They show
  what each guarded write admits, that paging is complete, that completions are recorded once and that leases
  and revisions fence writers.  \<open>Store_Invariant\<close> shows that every sequence of writes keeps all table invariants.

  \<^bold>\<open>Rooms.\<close>  \<open>Policy_Room\<close> resolves a room (\<open>resolveRoom\<close>), \<open>Product_Policy\<close> decides (\<open>ValidateClientEvent\<close>,
  \<open>ValidateClientRedaction\<close>, \<open>ValidateClientMembership\<close>), with exact conditions for acceptance.  \<open>State_Events\<close>
  and \<open>Projection\<close> show round trips, fencing of join requests and that policy and projection read alike.

  \<^bold>\<open>Modules.\<close>  \<open>Action_Registry\<close>, \<open>Operation_Tracker\<close>, \<open>Events_Module\<close>, \<open>Agent_Completion\<close>, \<open>Calls\<close>,
  \<open>Conversation_View\<close>, \<open>Blocks_Module\<close>, \<open>Social_Module\<close> and \<open>Portal_Module\<close>.  A module is a group of definitions over a record of
  the operations of its store interface; the laws it needs are a locale (\<open>operation_store\<close>, \<open>event_log\<close>,
  \<open>call_store\<close>, \<open>block_store\<close>, \<open>favorite_store\<close>, \<open>portal_ports_ok\<close>), interpreted on the in-memory store.  Properties across components
  stand with the client: the stream delivers what the events module appended, the service records a receipt in
  the store and the log, a view grants what the member and contact rows allow.

  \<^bold>\<open>Server parts.\<close>  \<open>Push_Rules\<close> evaluates push rules in one order of priority; \<open>Server_Acls\<close> decides by the list a room
  has; \<open>Federation_Statistics\<close> backs off and blacklists; \<open>Http_Limits\<close> bounds requests and keeps responses;
  \<open>Sync_Tokens\<close> prints, parses and joins tokens; \<open>User_Validation\<close> admits names and application services.

  \<^bold>\<open>Steps and interleaving.\<close>  A method under one lock is one step.  Where the code releases a lock in between, its
  critical sections are separate definitions: \<open>Append\<close> (number, then write), \<open>Heartbeat\<close> (snapshot, then write),
  \<open>Failure\<close>, \<open>Limit\<close> and \<open>bootstrap\<close>.  Safety that needs the steps not to overlap says so, and theorems beside it show what an
  overlap does.

  \<^bold>\<open>Termination and bounds.\<close>  All loops are total functions; those that are not structural have a measure
  (\<open>next_free\<close>, \<open>sse_drain\<close>, \<open>MatchString\<close>, \<open>search\<close>, the page loop).  No result depends on fuel: \<open>probe\<close>, which
  counts rounds, is shown to need at most one more than there are stored numbers.  Sequence numbers and favorite
  ids are \<open>int64\<close> and wrap where the source adds to them in \<open>Events_Module\<close> and \<open>Social_Module\<close>, the counters of
  \<open>Federation_Statistics\<close> are 32-bit words; \<open>next_free\<close> counts in unbounded integers, so it does not show the wrap
  of a log that is full up to the largest \<open>int64\<close>.

  \<^bold>\<open>Parameters.\<close>  The room server is a \<open>querier\<close> with the answers of one snapshot; the identifier parsers of
  gomatrixserverlib, the UUID package, the compiled patterns of application services, the hydrator of a view and
  the evaluation context of push rules are arguments.

  \<^bold>\<open>Not modelled.\<close>  The SQL stores, since a model needs the semantics of the database (the in-memory store has
  the same interface); the service and the channel, contact, group, member, agent and plugin modules, which
  drive the Matrix transport and external processes; the client, sync, user and media services, which are HTTP
  handlers over SQL; event authorisation and state resolution, which are in a package outside the repository.
  In modelled parts: cancelled contexts, log output, HTTP framing and heartbeats of the stream, the accessors of
  the statistics, and the sharing of the default push rules by pointer.
\<close>

end
